(* ===== verification/Go_Prelude.thy ===== *)
theory Go_Prelude
  imports
    Main
    "HOL-Library.AList"
    "HOL-Library.Char_ord"
    "HOL-Library.List_Lexorder"
    "HOL-Library.Sublist"
    "HOL-Library.Word"
begin

text \<open>
  What every component shares: the part of the Go standard library the sources use
  (\<open>strings\<close>, \<open>path/filepath\<close>, \<open>strconv\<close>, \<open>bufio\<close>, \<open>slices\<close>) as executable functions on
  byte strings, results of fallible calls as a sum type (\<open>Inl\<close> the error), Go maps as
  association lists whose order is the iteration order, and the generic lemmas on them.

  A Go string is a sequence of bytes, so \<^typ>\<open>string\<close> (a list of \<^typ>\<open>char\<close>, one per byte) is
  its exact model; \<open>len\<close> is \<^const>\<open>length\<close>.
\<close>

named_theorems go_simps "defining equations of the Go library calls"

subsection \<open>Results\<close>

text \<open>The \<open>if err != nil \<dots> return\<close> chain: the first error ends the computation.\<close>

fun rbind :: "'e + 'a \<Rightarrow> ('a \<Rightarrow> 'e + 'b) \<Rightarrow> 'e + 'b" where
  "rbind (Inl e) f = Inl e"
| "rbind (Inr x) f = f x"

lemma rbind_Inr_iff: "rbind r f = Inr y \<longleftrightarrow> (\<exists>x. r = Inr x \<and> f x = Inr y)"
  by (cases r) auto

lemma rbind_InrE [elim!]:
  assumes "rbind r f = Inr y"
  obtains x where "r = Inr x" and "f x = Inr y"
  using assms by (auto simp: rbind_Inr_iff)

text \<open>A loop whose body may fail: the state is threaded, the first error ends it.\<close>

fun rfold :: "('s \<Rightarrow> 'a \<Rightarrow> 'e + 's) \<Rightarrow> 's \<Rightarrow> 'a list \<Rightarrow> 'e + 's" where
  "rfold f s [] = Inr s"
| "rfold f s (x # xs) = rbind (f s x) (\<lambda>s'. rfold f s' xs)"

lemma rfold_invariant:
  assumes run: "rfold f s xs = Inr t" and init: "I s"
    and step: "\<And>s x s'. I s \<Longrightarrow> x \<in> set xs \<Longrightarrow> f s x = Inr s' \<Longrightarrow> I s'"
  shows "I t"
proof -
  have "set ys \<subseteq> set xs \<Longrightarrow> rfold f s ys = Inr t \<Longrightarrow> I s \<Longrightarrow> I t" for ys s
  proof (induction ys arbitrary: s)
    case (Cons y ys)
    from Cons.prems(2) obtain s' where s': "f s y = Inr s'" "rfold f s' ys = Inr t" by auto
    from Cons.prems(1) have "y \<in> set xs" and sub: "set ys \<subseteq> set xs" by simp_all
    then have "I s'" using step [OF Cons.prems(3) _ s'(1)] by blast
    with sub s'(2) show ?case by (rule Cons.IH)
  qed simp
  with run init show ?thesis by blast
qed

subsection \<open>Strings: \<open>HasPrefix\<close>, \<open>TrimPrefix\<close>, \<open>Cut\<close>, \<open>Split\<close>, \<open>Join\<close>\<close>

abbreviation HasPrefix :: "string \<Rightarrow> string \<Rightarrow> bool" where
  "HasPrefix s p \<equiv> prefix p s"

abbreviation HasSuffix :: "string \<Rightarrow> string \<Rightarrow> bool" where
  "HasSuffix s p \<equiv> suffix p s"

definition CutPrefix :: "string \<Rightarrow> string \<Rightarrow> string option" where
  [go_simps]: "CutPrefix s p = (if HasPrefix s p then Some (drop (length p) s) else None)"

definition TrimPrefix :: "string \<Rightarrow> string \<Rightarrow> string" where
  [go_simps]: "TrimPrefix s p = (if HasPrefix s p then drop (length p) s else s)"

definition TrimSuffix :: "string \<Rightarrow> string \<Rightarrow> string" where
  [go_simps]: "TrimSuffix s p = (if HasSuffix s p then take (length s - length p) s else s)"

text \<open>\<open>strings.Cut\<close> at a one-byte separator: before, after, found.\<close>

definition Cut :: "string \<Rightarrow> char \<Rightarrow> string \<times> string \<times> bool" where
  [go_simps]: "Cut s c = (let b = takeWhile (\<lambda>x. x \<noteq> c) s in
     if c \<in> set s then (b, drop (Suc (length b)) s, True) else (s, [], False))"

text \<open>\<open>strings.Split\<close> at a one-byte separator; never the empty list.\<close>

fun split_on :: "char \<Rightarrow> string \<Rightarrow> string list" where
  "split_on c [] = [[]]"
| "split_on c (x # xs) =
     (if x = c then [] # split_on c xs
      else (case split_on c xs of [] \<Rightarrow> [[x]] | y # ys \<Rightarrow> (x # y) # ys))"

fun join_on :: "string \<Rightarrow> string list \<Rightarrow> string" where
  "join_on sep [] = []"
| "join_on sep [x] = x"
| "join_on sep (x # y # ys) = x @ sep @ join_on sep (y # ys)"

lemma split_on_not_Nil [simp]: "split_on c s \<noteq> []"
  by (induction s) (auto split: list.splits)

lemma split_on_no_sep [simp]: "c \<notin> set s \<Longrightarrow> split_on c s = [s]"
  by (induction s) auto

lemma split_on_part: "p \<in> set (split_on c s) \<Longrightarrow> c \<notin> set p"
  by (induction s arbitrary: p) (auto split: list.splits if_splits)

lemma split_on_append_sep: "split_on c (a @ c # b) = split_on c a @ split_on c b"
  by (induction a) (auto split: list.splits)

lemma join_split_on [simp]: "join_on [c] (split_on c s) = s"
proof (induction s)
  case (Cons x xs)
  obtain y ys where y: "split_on c xs = y # ys" by (cases "split_on c xs") auto
  show ?case using Cons y by (cases ys) auto
qed simp

lemma split_join_on:
  assumes "xs \<noteq> []" and "\<And>x. x \<in> set xs \<Longrightarrow> c \<notin> set x"
  shows "split_on c (join_on [c] xs) = xs"
  using assms
proof (induction xs)
  case (Cons x xs)
  then show ?case by (cases xs) (auto simp: split_on_append_sep)
qed simp

subsection \<open>White space: \<open>TrimSpace\<close> and \<open>Fields\<close>\<close>

text \<open>
  The UTF-8 encodings of the runes \<open>unicode.IsSpace\<close> accepts. Every one starts with a byte no
  other rune continues with, so a byte-wise scan finds exactly the space runes.
\<close>

definition space_runes :: "string list" where
  "space_runes = map (map char_of)
     ([[0x09], [0x0A], [0x0B], [0x0C], [0x0D], [0x20], [0xC2, 0x85], [0xC2, 0xA0],
       [0xE1, 0x9A, 0x80]] @ map (\<lambda>n. [0xE2, 0x80, n]) [0x80..<0x8B] @
      [[0xE2, 0x80, 0xA8], [0xE2, 0x80, 0xA9], [0xE2, 0x80, 0xAF], [0xE2, 0x81, 0x9F],
       [0xE3, 0x80, 0x80 :: nat]])"

lemma space_runes_code [code]: "space_runes =
  [[CHR 0x09], [CHR 0x0A], [CHR 0x0B], [CHR 0x0C], [CHR 0x0D], [CHR 0x20], [CHR 0xC2, CHR 0x85],
   [CHR 0xC2, CHR 0xA0], [CHR 0xE1, CHR 0x9A, CHR 0x80], [CHR 0xE2, CHR 0x80, CHR 0x80],
   [CHR 0xE2, CHR 0x80, CHR 0x81], [CHR 0xE2, CHR 0x80, CHR 0x82], [CHR 0xE2, CHR 0x80, CHR 0x83],
   [CHR 0xE2, CHR 0x80, CHR 0x84], [CHR 0xE2, CHR 0x80, CHR 0x85], [CHR 0xE2, CHR 0x80, CHR 0x86],
   [CHR 0xE2, CHR 0x80, CHR 0x87], [CHR 0xE2, CHR 0x80, CHR 0x88], [CHR 0xE2, CHR 0x80, CHR 0x89],
   [CHR 0xE2, CHR 0x80, CHR 0x8A], [CHR 0xE2, CHR 0x80, CHR 0xA8], [CHR 0xE2, CHR 0x80, CHR 0xA9],
   [CHR 0xE2, CHR 0x80, CHR 0xAF], [CHR 0xE2, CHR 0x81, CHR 0x9F], [CHR 0xE3, CHR 0x80, CHR 0x80]]"
  by code_simp

definition space_at :: "string \<Rightarrow> nat" where
  "space_at s = (case find (\<lambda>r. prefix r s) space_runes of None \<Rightarrow> 0 | Some r \<Rightarrow> length r)"

definition space_end :: "string \<Rightarrow> nat" where
  "space_end s = (case find (\<lambda>r. suffix r s) space_runes of None \<Rightarrow> 0 | Some r \<Rightarrow> length r)"

function trim_left :: "string \<Rightarrow> string" where
  "trim_left s = (if s = [] \<or> space_at s = 0 then s else trim_left (drop (space_at s) s))"
  by pat_completeness auto
termination
  by (relation "measure length") auto

function trim_right :: "string \<Rightarrow> string" where
  "trim_right s =
     (if s = [] \<or> space_end s = 0 then s else trim_right (take (length s - space_end s) s))"
  by pat_completeness auto
termination
  by (relation "measure length") auto

declare trim_left.simps [simp del] trim_right.simps [simp del]

definition TrimSpace :: "string \<Rightarrow> string" where
  "TrimSpace s = trim_right (trim_left s)"

text \<open>The first word: up to the next space rune.\<close>

fun take_word :: "string \<Rightarrow> string" where
  "take_word [] = []"
| "take_word (x # xs) = (if space_at (x # xs) \<noteq> 0 then [] else x # take_word xs)"

lemma take_word_prefix: "prefix (take_word s) s"
  by (induction s) auto

lemma trim_left_suffix: "suffix (trim_left s) s"
proof (induction s rule: trim_left.induct)
  case (1 s)
  show ?case
  proof (cases "s = [] \<or> space_at s = 0")
    case False
    with 1 have "suffix (trim_left (drop (space_at s) s)) (drop (space_at s) s)" by simp
    then have "suffix (trim_left (drop (space_at s) s)) s"
      using suffix_drop suffix_order.order_trans by blast
    with False show ?thesis by (simp add: trim_left.simps [of s])
  qed (auto simp: trim_left.simps [of s])
qed

lemma trim_right_prefix: "prefix (trim_right s) s"
proof (induction s rule: trim_right.induct)
  case (1 s)
  show ?case
  proof (cases "s = [] \<or> space_end s = 0")
    case False
    with 1 have "prefix (trim_right (take (length s - space_end s) s)) (take (length s - space_end s) s)"
      by simp
    then have "prefix (trim_right (take (length s - space_end s) s)) s"
      using take_is_prefix prefix_order.order_trans by blast
    with False show ?thesis by (simp add: trim_right.simps [of s])
  qed (auto simp: trim_right.simps [of s])
qed

lemma TrimSpace_set: "set (TrimSpace s) \<subseteq> set s"
  unfolding TrimSpace_def
  using trim_left_suffix [of s] trim_right_prefix [of "trim_left s"]
  by (meson order.trans set_mono_prefix set_mono_suffix)

lemma TrimSpace_Nil [simp]: "TrimSpace [] = []"
  by (simp add: TrimSpace_def trim_left.simps trim_right.simps)

subsection \<open>Paths: \<open>filepath.Clean\<close> and \<open>filepath.IsAbs\<close>\<close>

definition IsAbs :: "string \<Rightarrow> bool" where
  [go_simps]: "IsAbs s = HasPrefix s ''/''"

text \<open>One component pushed on the (reversed) output of the lexical clean-up.\<close>

fun clean_push :: "bool \<Rightarrow> string list \<Rightarrow> string \<Rightarrow> string list" where
  "clean_push rooted st c =
     (if c = [] \<or> c = ''.'' then st
      else if c = ''..'' then
        (case st of [] \<Rightarrow> (if rooted then [] else [''..''])
         | x # xs \<Rightarrow> (if x = ''..'' then ''..'' # st else xs))
      else c # st)"

definition clean_comps :: "string \<Rightarrow> string list" where
  "clean_comps s = rev (foldl (clean_push (IsAbs s)) [] (split_on (CHR ''/'') s))"

definition Clean :: "string \<Rightarrow> string" where
  "Clean s = (if IsAbs s then CHR ''/'' # join_on ''/'' (clean_comps s)
     else if clean_comps s = [] then ''.'' else join_on ''/'' (clean_comps s))"

lemma clean_push_rooted: "''..'' \<notin> set st \<Longrightarrow> ''..'' \<notin> set (clean_push True st c)"
  by (cases st) auto

lemma clean_push_parts: "x \<in> set (clean_push r st c) \<Longrightarrow> x \<in> set st \<or> x = c \<and> x \<noteq> [] \<and> x \<noteq> ''.''"
  by (auto split: list.splits if_splits)

lemma clean_push_id:
  "c \<noteq> [] \<Longrightarrow> c \<noteq> ''.'' \<Longrightarrow> c \<noteq> ''..'' \<Longrightarrow> clean_push r st c = c # st"
  by simp

lemma clean_push_Nil: "clean_push r st [] = st"
  by simp

declare clean_push.simps [simp del]

lemma foldl_clean_push_rooted:
  "''..'' \<notin> set st \<Longrightarrow> ''..'' \<notin> set (foldl (clean_push True) st cs)"
  by (induction cs arbitrary: st) (simp_all add: clean_push_rooted)

lemma foldl_clean_push_parts:
  "x \<in> set (foldl (clean_push r) st cs) \<Longrightarrow> x \<in> set st \<or> x \<in> set cs \<and> x \<noteq> [] \<and> x \<noteq> ''.''"
  by (induction cs arbitrary: st) (auto dest: clean_push_parts)

text \<open>A cleaned absolute path has neither empty, \<open>.\<close> nor \<open>..\<close> components.\<close>

lemma clean_comps_parts:
  assumes "x \<in> set (clean_comps s)"
  shows "x \<noteq> []" and "x \<noteq> ''.''" and "CHR ''/'' \<notin> set x" and "IsAbs s \<Longrightarrow> x \<noteq> ''..''"
proof -
  let ?r = "foldl (clean_push (IsAbs s)) [] (split_on (CHR ''/'') s)"
  from assms have x: "x \<in> set ?r" by (simp add: clean_comps_def)
  then have "x \<in> set (split_on (CHR ''/'') s) \<and> x \<noteq> [] \<and> x \<noteq> ''.''"
    using foldl_clean_push_parts [OF x] by simp
  then show "x \<noteq> []" "x \<noteq> ''.''" "CHR ''/'' \<notin> set x" by (auto dest: split_on_part)
  show "IsAbs s \<Longrightarrow> x \<noteq> ''..''" using x foldl_clean_push_rooted [of "[]"] by auto
qed

lemma IsAbs_Clean: "IsAbs s \<Longrightarrow> IsAbs (Clean s)"
  by (simp add: Clean_def IsAbs_def)

lemma split_Clean:
  assumes "IsAbs s" and "clean_comps s \<noteq> []"
  shows "split_on (CHR ''/'') (Clean s) = [] # clean_comps s"
proof -
  have "split_on (CHR ''/'') (join_on ''/'' (clean_comps s)) = clean_comps s"
    using assms(2) clean_comps_parts(3) by (intro split_join_on) auto
  with assms show ?thesis by (simp add: Clean_def)
qed

lemma foldl_clean_push_id:
  assumes "\<And>x. x \<in> set cs \<Longrightarrow> x \<noteq> [] \<and> x \<noteq> ''.'' \<and> x \<noteq> ''..''"
  shows "foldl (clean_push True) st cs = rev cs @ st"
  using assms by (induction cs arbitrary: st) (simp_all add: clean_push_id)

lemma Clean_idem:
  assumes "IsAbs s"
  shows "Clean (Clean s) = Clean s"
proof (cases "clean_comps s = []")
  case True
  with assms have c: "Clean s = ''/''" by (simp add: Clean_def)
  have "Clean ''/'' = ''/''"
    by (simp add: Clean_def clean_comps_def IsAbs_def clean_push_Nil)
  with c show ?thesis by simp
next
  case False
  have "clean_comps (Clean s) = rev (foldl (clean_push True) [] ([] # clean_comps s))"
    using assms False by (simp add: clean_comps_def [of "Clean s"] IsAbs_Clean split_Clean)
  also have "\<dots> = clean_comps s"
    using clean_comps_parts assms
    by (subst foldl_Cons) (simp add: foldl_clean_push_id clean_push_Nil)
  finally have c: "clean_comps (Clean s) = clean_comps s" .
  have "Clean (Clean s) = CHR ''/'' # join_on ''/'' (clean_comps s)"
    unfolding Clean_def [of "Clean s"] using assms c by (simp add: IsAbs_Clean)
  with assms show ?thesis by (simp add: Clean_def [of s])
qed

text \<open>\<open>filepath.Join\<close> of two elements: joined with a slash and cleaned; empty ones are dropped.\<close>

definition Join2 :: "string \<Rightarrow> string \<Rightarrow> string" where
  [go_simps]: "Join2 a b = (if a = [] then (if b = [] then [] else Clean b)
     else Clean (a @ ''/'' @ b))"

text \<open>\<open>filepath.Base\<close>: the last component, trailing slashes dropped.\<close>

definition Base :: "string \<Rightarrow> string" where
  [go_simps]: "Base p = (if p = [] then ''.'' else
     let b = takeWhile (\<lambda>c. c \<noteq> CHR ''/'') (dropWhile (\<lambda>c. c = CHR ''/'') (rev p)) in
     if b = [] then ''/'' else rev b)"

subsection \<open>Numbers: \<open>strconv.ParseUint(s, 10, 32)\<close>\<close>

definition is_digit :: "char \<Rightarrow> bool" where
  "is_digit c = (of_char c \<ge> (48 :: nat) \<and> of_char c \<le> (57 :: nat))"

definition ParseUint32 :: "string \<Rightarrow> nat option" where
  "ParseUint32 s = (if s = [] \<or> \<not> list_all is_digit s then None
     else let n = foldl (\<lambda>a c. 10 * a + (of_char c - 48)) 0 s in
       if n < 2 ^ 32 then Some n else None)"

subsection \<open>\<open>bufio.Scanner\<close>: lines\<close>

text \<open>
  Lines end at a newline; a final line needs none; one trailing carriage return is dropped. A line
  of \<open>bufio.MaxScanTokenSize\<close> bytes or more ends the scan with an error: the lines before it
  have been delivered.
\<close>

definition raw_lines :: "string \<Rightarrow> string list" where
  "raw_lines s = (let ps = split_on (CHR 0x0A) s in if last ps = [] then butlast ps else ps)"

definition MaxScanTokenSize :: nat where
  "MaxScanTokenSize = 65536"

definition scan_fits :: "string \<Rightarrow> bool" where
  "scan_fits l = (length l < MaxScanTokenSize)"

lemma scan_fits_code [code]: "scan_fits l = (int (length l) < 65536)"
  by (simp add: scan_fits_def MaxScanTokenSize_def)

definition drop_cr :: "string \<Rightarrow> string" where
  "drop_cr l = TrimSuffix l [CHR 0x0D]"

definition scan_lines :: "string \<Rightarrow> string list \<times> bool" where
  "scan_lines s = (map drop_cr (takeWhile scan_fits (raw_lines s)),
     \<not> list_all scan_fits (raw_lines s))"

subsection \<open>Slices\<close>

lemma distinct_remdups_adj_if_sorted:
  "sorted xs \<Longrightarrow> distinct (remdups_adj (xs :: 'a :: linorder list))"
  by (induction xs rule: remdups_adj.induct) auto

text \<open>\<open>slices.Sort\<close> then \<open>slices.Compact\<close> keeps each element once, in order.\<close>

lemma sort_compact: "remdups_adj (sort xs) = sorted_list_of_set (set (xs :: 'a :: linorder list))"
proof -
  have "sorted (remdups_adj (sort xs))" "distinct (remdups_adj (sort xs))"
    by (simp_all add: distinct_remdups_adj_if_sorted)
  then show ?thesis
    by (metis remdups_adj_set set_sort sorted_list_of_set.idem_if_sorted_distinct)
qed

subsection \<open>Go maps\<close>

text \<open>
  A map the code iterates is an association list with distinct keys: \<^const>\<open>map_of\<close> is the
  lookup, \<^const>\<open>AList.update\<close> the store, \<^const>\<open>AList.delete\<close> the removal. Go leaves the iteration
  order open; a theorem for every list holds for every order.
\<close>

type_synonym ('k, 'v) gomap = "('k \<times> 'v) list"

definition gm_keep :: "('k \<Rightarrow> 'v \<Rightarrow> bool) \<Rightarrow> ('k, 'v) gomap \<Rightarrow> ('k, 'v) gomap" where
  "gm_keep P m = filter (\<lambda>(k, v). P k v) m"

abbreviation gm_wf :: "('k, 'v) gomap \<Rightarrow> bool" where
  "gm_wf m \<equiv> distinct (map fst m)"

lemma map_of_update [simp]: "map_of (AList.update k v m) = (map_of m)(k \<mapsto> v)"
  by (simp add: update_conv')

lemma map_of_delete [simp]: "map_of (AList.delete k m) = (map_of m)(k := None)"
  by (simp add: delete_conv')

lemma gm_wf_update [simp]: "gm_wf m \<Longrightarrow> gm_wf (AList.update k v m)"
  by (rule distinct_update)

lemma gm_wf_delete [simp]: "gm_wf m \<Longrightarrow> gm_wf (AList.delete k m)"
  by (rule distinct_delete)

lemma gm_wf_keep [simp]: "gm_wf m \<Longrightarrow> gm_wf (gm_keep P m)"
  by (induction m) (auto simp: gm_keep_def)

lemma map_of_keep:
  "gm_wf m \<Longrightarrow> map_of (gm_keep P m) k =
     (case map_of m k of None \<Rightarrow> None | Some v \<Rightarrow> if P k v then Some v else None)"
proof (induction m)
  case (Cons a m)
  obtain k' v' where a: "a = (k', v')" by (cases a)
  from Cons.prems a have "map_of m k' = None" by (auto simp: map_of_eq_None_iff)
  with Cons a show ?case by (auto simp: gm_keep_def)
qed (simp add: gm_keep_def)

end
