(* ===== verification/Event_Types.thy ===== *)
theory Event_Types
  imports Go_Prelude
begin

text \<open>
  The event vocabulary and the two kernel event records.

  \<open>internal/infrastructure/event.go\<close>: the event types with their names (\<open>String\<close>,
  \<open>ParseEventType\<close>), the monitor's ring-buffer record (\<open>BpfEvent\<close>) and its decoder.
  \<open>internal/guard/guard.go\<close>: the guard's record (\<open>bpfGuardEvent\<close>) with its decoder and labels, and
  \<open>eventMask\<close>, the bit mask a whitelist entry's event list becomes. Bytes are \<^typ>\<open>8 word\<close>, the
  record fields keep their widths. The C structs the kernel side fills are the encoders here: the
  decoders are their left inverses.
\<close>

unbundle bit_operations_syntax

type_synonym u8 = "8 word"
type_synonym u32 = "32 word"
type_synonym u64 = "64 word"
type_synonym bytes = "8 word list"

subsection \<open>Event types\<close>

text \<open>\<open>type EventType int\<close>: any integer is a value, twelve of them are named.\<close>

type_synonym event_type = int

abbreviation (input) EventOpen :: event_type where "EventOpen \<equiv> 0"
abbreviation (input) EventRead :: event_type where "EventRead \<equiv> 1"
abbreviation (input) EventWrite :: event_type where "EventWrite \<equiv> 2"
abbreviation (input) EventDelete :: event_type where "EventDelete \<equiv> 3"
abbreviation (input) EventRename :: event_type where "EventRename \<equiv> 4"
abbreviation (input) EventSymlink :: event_type where "EventSymlink \<equiv> 5"
abbreviation (input) EventHardlink :: event_type where "EventHardlink \<equiv> 6"
abbreviation (input) EventMkdir :: event_type where "EventMkdir \<equiv> 7"
abbreviation (input) EventMmap :: event_type where "EventMmap \<equiv> 8"
abbreviation (input) EventAttr :: event_type where "EventAttr \<equiv> 9"
abbreviation (input) EventStat :: event_type where "EventStat \<equiv> 10"
abbreviation (input) EventMknod :: event_type where "EventMknod \<equiv> 11"

definition EventType_String :: "event_type \<Rightarrow> string" where
  "EventType_String t =
     (if t = EventOpen then ''OPEN'' else if t = EventRead then ''READ''
      else if t = EventWrite then ''WRITE'' else if t = EventDelete then ''DELETE''
      else if t = EventRename then ''RENAME'' else if t = EventSymlink then ''SYMLINK''
      else if t = EventHardlink then ''HARDLINK'' else if t = EventMkdir then ''MKDIR''
      else if t = EventMmap then ''MMAP'' else if t = EventAttr then ''ATTR''
      else if t = EventStat then ''STAT'' else if t = EventMknod then ''MKNOD''
      else ''UNKNOWN'')"

text \<open>
  \<open>strings.ToUpper\<close> as far as the names below can tell: ASCII letters, and the two other runes
  whose upper case is ASCII (U+0131 gives I, U+017F gives S). Every other rune maps to a rune
  outside ASCII, which no name contains, so it is left as it is.
\<close>

fun ToUpper :: "string \<Rightarrow> string" where
  "ToUpper [] = []"
| "ToUpper (c # cs) =
     (if of_char c \<ge> (97 :: nat) \<and> of_char c \<le> (122 :: nat)
        then char_of (of_char c - 32 :: nat) # ToUpper cs
      else case cs of
        d # ds \<Rightarrow>
          (if c = CHR 0xC4 \<and> d = CHR 0xB1 then CHR ''I'' # ToUpper ds
           else if c = CHR 0xC5 \<and> d = CHR 0xBF then CHR ''S'' # ToUpper ds
           else c # ToUpper cs)
      | [] \<Rightarrow> [c])"

definition ParseEventType :: "string \<Rightarrow> event_type option" where
  "ParseEventType s = (let u = ToUpper s in
     (if u = ''OPEN'' then Some EventOpen else if u = ''READ'' then Some EventRead
      else if u = ''WRITE'' then Some EventWrite else if u = ''DELETE'' then Some EventDelete
      else if u = ''RENAME'' then Some EventRename else if u = ''SYMLINK'' then Some EventSymlink
      else if u = ''HARDLINK'' then Some EventHardlink else if u = ''MKDIR'' then Some EventMkdir
      else if u = ''MMAP'' then Some EventMmap else if u = ''ATTR'' then Some EventAttr
      else if u = ''STAT'' then Some EventStat else if u = ''MKNOD'' then Some EventMknod
      else None))"

definition EventTypes :: "event_type list" where
  "EventTypes = [EventOpen, EventRead, EventWrite, EventDelete, EventRename, EventSymlink,
     EventHardlink, EventMkdir, EventMmap, EventAttr, EventStat, EventMknod]"

lemma set_EventTypes: "set EventTypes = {0..<12}"
  unfolding EventTypes_def by (simp add: set_eq_iff) presburger

lemma ParseEventType_range: "ParseEventType s = Some t \<Longrightarrow> t \<in> set EventTypes"
  by (auto simp: ParseEventType_def EventTypes_def Let_def split: if_splits)

lemma ParseEventType_String: "t \<in> set EventTypes \<Longrightarrow> ParseEventType (EventType_String t) = Some t"
  by (auto simp: EventTypes_def EventType_String_def ParseEventType_def)

lemma ParseEventType_names:
  "ParseEventType s = Some t \<Longrightarrow> EventType_String t = ToUpper s"
  by (auto simp: ParseEventType_def EventType_String_def Let_def split: if_splits)

subsection \<open>Event masks\<close>

datatype mask_err = EventOutOfRange event_type

definition event_bit :: "event_type \<Rightarrow> u32" where
  "event_bit t = push_bit (nat t) 1"

definition eventMask_step :: "u32 \<Rightarrow> event_type \<Rightarrow> mask_err + u32" where
  "eventMask_step msk t =
     (if t < 0 \<or> t \<ge> 32 then Inl (EventOutOfRange t)
      else let m = msk OR event_bit t in
        Inr (if t = EventRead \<or> t = EventWrite \<or> t = EventMmap
             then (m OR event_bit EventOpen) OR event_bit EventStat else m))"

definition eventMask :: "event_type list \<Rightarrow> mask_err + u32" where
  "eventMask types = rfold eventMask_step 0 types"

text \<open>The event \<open>t\<close> is allowed by \<open>msk\<close>: the bit the kernel tests.\<close>

definition mask_allows :: "u32 \<Rightarrow> event_type \<Rightarrow> bool" where
  "mask_allows msk t = (0 \<le> t \<and> t < 32 \<and> bit msk (nat t))"

definition implied_by :: "event_type list \<Rightarrow> event_type \<Rightarrow> bool" where
  "implied_by ts t = (t \<in> set ts \<or>
     ((t = EventOpen \<or> t = EventStat) \<and> (EventRead \<in> set ts \<or> EventWrite \<in> set ts \<or> EventMmap \<in> set ts)))"

lemma bit_event_bit: "bit (event_bit t) n \<longleftrightarrow> n = nat t \<and> n < 32"
  unfolding event_bit_def by (auto simp: bit_simps)

lemma eventMask_step_allows:
  assumes "eventMask_step m t = Inr m'"
  shows "mask_allows m' e \<longleftrightarrow> mask_allows m e \<or> implied_by [t] e"
  using assms
  by (auto simp: eventMask_step_def mask_allows_def implied_by_def bit_or_iff bit_event_bit Let_def
      split: if_splits)

lemma rfold_eventMask_allows:
  "rfold eventMask_step m ts = Inr m' \<Longrightarrow> mask_allows m' e \<longleftrightarrow> mask_allows m e \<or> implied_by ts e"
proof (induction ts arbitrary: m)
  case Nil
  then show ?case by (simp add: implied_by_def)
next
  case (Cons t ts)
  then obtain m1 where "eventMask_step m t = Inr m1" "rfold eventMask_step m1 ts = Inr m'" by auto
  with Cons.IH [of m1] eventMask_step_allows [of m t m1 e] show ?case
    by (auto simp: implied_by_def)
qed

lemma eventMask_allows:
  assumes "eventMask ts = Inr m"
  shows "mask_allows m e \<longleftrightarrow> implied_by ts e"
proof -
  have "\<not> mask_allows 0 e" by (simp add: mask_allows_def)
  with rfold_eventMask_allows [OF assms [unfolded eventMask_def], of e] show ?thesis by simp
qed

lemma eventMask_total: "set ts \<subseteq> {0..<32} \<Longrightarrow> \<exists>m. eventMask ts = Inr m"
proof -
  have "set ts \<subseteq> {0..<32} \<Longrightarrow> \<exists>m'. rfold eventMask_step m ts = Inr m'" for m
    by (induction ts arbitrary: m) (auto simp: eventMask_step_def Let_def)
  then show "set ts \<subseteq> {0..<32} \<Longrightarrow> \<exists>m. eventMask ts = Inr m" by (simp add: eventMask_def)
qed

lemma eventMask_in_range: "eventMask ts = Inr m \<Longrightarrow> set ts \<subseteq> {0..<32}"
proof -
  have "rfold eventMask_step a ts = Inr m \<Longrightarrow> set ts \<subseteq> {0..<32}" for a
    by (induction ts arbitrary: a) (auto simp: eventMask_step_def Let_def split: if_splits)
  then show "eventMask ts = Inr m \<Longrightarrow> set ts \<subseteq> {0..<32}" by (simp add: eventMask_def)
qed

lemma mask_ext:
  assumes "\<And>e. mask_allows m e \<longleftrightarrow> mask_allows m' e"
  shows "m = m'"
proof (rule bit_word_eqI)
  fix n assume "n < LENGTH(32)"
  with assms [of "int n"] show "bit m n = bit m' n" by (simp add: mask_allows_def)
qed

subsection \<open>Fixed-layout records\<close>

definition slice_of :: "nat \<Rightarrow> nat \<Rightarrow> 'a list \<Rightarrow> 'a list" where
  "slice_of a b xs = take (b - a) (drop a xs)"

text \<open>\<open>binary.LittleEndian\<close>: the value of a byte sequence, and the sequence of a value.\<close>

definition le_word :: "bytes \<Rightarrow> 'a :: len word" where
  "le_word bs = word_of_nat (foldr (\<lambda>b a. unat b + 256 * a) bs 0)"

fun le_nat :: "nat \<Rightarrow> nat \<Rightarrow> bytes" where
  "le_nat 0 v = []"
| "le_nat (Suc n) v = word_of_nat (v mod 256) # le_nat n (v div 256)"

lemma length_le_nat [simp]: "length (le_nat n v) = n"
  by (induction n arbitrary: v) auto

lemma foldr_le_nat: "v < 256 ^ n \<Longrightarrow> foldr (\<lambda>b a. unat b + 256 * a) (le_nat n v) 0 = v"
proof (induction n arbitrary: v)
  case (Suc n)
  then have "v div 256 < 256 ^ n" by (simp add: less_mult_imp_div_less mult.commute)
  with Suc.IH show ?case by (simp add: unat_of_nat)
qed simp

lemma le_word_u32 [simp]: "le_word (le_nat 4 (unat (w :: u32))) = w"
proof -
  have "unat w < 256 ^ 4" using unsigned_less [of w] by simp
  then show ?thesis unfolding le_word_def by (subst foldr_le_nat) simp_all
qed

lemma le_word_u64 [simp]: "le_word (le_nat 8 (unat (w :: u64))) = w"
proof -
  have "unat w < 256 ^ 8" using unsigned_less [of w] by simp
  then show ?thesis unfolding le_word_def by (subst foldr_le_nat) simp_all
qed

definition Cstr :: "bytes \<Rightarrow> string" where
  "Cstr b = map (\<lambda>x. char_of (unat x)) (takeWhile (\<lambda>x. x \<noteq> 0) b)"

record FileEvent =
  fe_PID :: u32
  fe_UID :: u32
  fe_GID :: u32
  fe_Type :: event_type
  fe_FD :: u32
  fe_Comm :: string
  fe_Path :: string
  fe_Dest :: string
  fe_Timestamp :: int
  fe_ExeDev :: u64
  fe_ExeIno :: u64
  fe_Exe :: string
  fe_ExecName :: string
  fe_Prot :: u32

record BpfEvent =
  be_PID :: u32
  be_UID :: u32
  be_GID :: u32
  be_Type :: u32
  be_FD :: u32
  be_Pad :: u32
  be_Comm :: bytes
  be_Path :: bytes
  be_Dest :: bytes
  be_Dev :: u32
  be_Mode :: u32
  be_Ino :: u64
  be_ExeDev :: u64
  be_ExeIno :: u64
  be_Prot :: u32
  be_Pad2 :: u32

definition BpfEventSize :: nat where
  "BpfEventSize = 6 * 4 + 16 + 256 + 256 + 4 + 4 + 8 + 8 + 8 + 4 + 4"

definition DecodeBpfEvent :: "bytes \<Rightarrow> BpfEvent option" where
  "DecodeBpfEvent raw = (if length raw < BpfEventSize then None else Some
     \<lparr>be_PID = le_word (slice_of 0 4 raw), be_UID = le_word (slice_of 4 8 raw),
      be_GID = le_word (slice_of 8 12 raw), be_Type = le_word (slice_of 12 16 raw),
      be_FD = le_word (slice_of 16 20 raw), be_Pad = le_word (slice_of 20 24 raw),
      be_Comm = slice_of 24 40 raw, be_Path = slice_of 40 296 raw,
      be_Dest = slice_of 296 552 raw, be_Dev = le_word (slice_of 552 556 raw),
      be_Mode = le_word (slice_of 556 560 raw), be_Ino = le_word (slice_of 560 568 raw),
      be_ExeDev = le_word (slice_of 568 576 raw), be_ExeIno = le_word (slice_of 576 584 raw),
      be_Prot = le_word (slice_of 584 588 raw), be_Pad2 = le_word (slice_of 588 592 raw)\<rparr>)"

definition BpfEvent_ToFileEvent :: "BpfEvent \<Rightarrow> FileEvent" where
  "BpfEvent_ToFileEvent e =
     \<lparr>fe_PID = be_PID e, fe_UID = be_UID e, fe_GID = be_GID e, fe_Type = uint (be_Type e),
      fe_FD = be_FD e, fe_Comm = Cstr (be_Comm e), fe_Path = Cstr (be_Path e),
      fe_Dest = Cstr (be_Dest e), fe_Timestamp = 0, fe_ExeDev = be_ExeDev e,
      fe_ExeIno = be_ExeIno e, fe_Exe = [], fe_ExecName = [], fe_Prot = be_Prot e\<rparr>"

text \<open>\<open>struct event\<close> of \<open>monitor.bpf.c\<close>, the layout the kernel side writes.\<close>

definition encode_event :: "BpfEvent \<Rightarrow> bytes" where
  "encode_event e = le_nat 4 (unat (be_PID e)) @ le_nat 4 (unat (be_UID e)) @
     le_nat 4 (unat (be_GID e)) @ le_nat 4 (unat (be_Type e)) @ le_nat 4 (unat (be_FD e)) @
     le_nat 4 (unat (be_Pad e)) @ be_Comm e @ be_Path e @ be_Dest e @
     le_nat 4 (unat (be_Dev e)) @ le_nat 4 (unat (be_Mode e)) @ le_nat 8 (unat (be_Ino e)) @
     le_nat 8 (unat (be_ExeDev e)) @ le_nat 8 (unat (be_ExeIno e)) @
     le_nat 4 (unat (be_Prot e)) @ le_nat 4 (unat (be_Pad2 e))"

text \<open>The fixed array sizes of the struct.\<close>

definition wf_event :: "BpfEvent \<Rightarrow> bool" where
  "wf_event e = (length (be_Comm e) = 16 \<and> length (be_Path e) = 256 \<and> length (be_Dest e) = 256)"

lemma slice_of_skip:
  "length a \<le> i \<Longrightarrow> i \<le> j \<Longrightarrow> slice_of i j (a @ b) = slice_of (i - length a) (j - length a) b"
  by (simp add: slice_of_def)

lemma slice_of_here: "length a = j \<Longrightarrow> slice_of 0 j (a @ b) = a"
  by (simp add: slice_of_def)

lemma length_encode_event: "wf_event e \<Longrightarrow> length (encode_event e) = BpfEventSize"
  by (simp add: wf_event_def encode_event_def BpfEventSize_def)

subsection \<open>The guard's record\<close>

record bpfGuardEvent =
  ge_PID :: u32
  ge_UID :: u32
  ge_GID :: u32
  ge_Type :: u32
  ge_FD :: u32
  ge_Blocked :: u32
  ge_Reason :: u32
  ge_ResID :: u32
  ge_ExeDev :: u64
  ge_ExeIno :: u64
  ge_Comm :: bytes
  ge_Path :: bytes
  ge_Dest :: bytes

definition bpfGuardEventSize :: nat where
  "bpfGuardEventSize = 8 * 4 + 2 * 8 + 16 + 256 + 256"

definition decodeGuardEvent :: "bytes \<Rightarrow> bpfGuardEvent option" where
  "decodeGuardEvent raw = (if length raw < bpfGuardEventSize then None else Some
     \<lparr>ge_PID = le_word (slice_of 0 4 raw), ge_UID = le_word (slice_of 4 8 raw),
      ge_GID = le_word (slice_of 8 12 raw), ge_Type = le_word (slice_of 12 16 raw),
      ge_FD = le_word (slice_of 16 20 raw), ge_Blocked = le_word (slice_of 20 24 raw),
      ge_Reason = le_word (slice_of 24 28 raw), ge_ResID = le_word (slice_of 28 32 raw),
      ge_ExeDev = le_word (slice_of 32 40 raw), ge_ExeIno = le_word (slice_of 40 48 raw),
      ge_Comm = slice_of 48 64 raw, ge_Path = slice_of 64 320 raw,
      ge_Dest = slice_of 320 576 raw\<rparr>)"

definition guardEvent_toFileEvent :: "bpfGuardEvent \<Rightarrow> FileEvent" where
  "guardEvent_toFileEvent e =
     \<lparr>fe_PID = ge_PID e, fe_UID = ge_UID e, fe_GID = ge_GID e, fe_Type = uint (ge_Type e),
      fe_FD = ge_FD e, fe_Comm = Cstr (ge_Comm e), fe_Path = Cstr (ge_Path e),
      fe_Dest = Cstr (ge_Dest e), fe_Timestamp = 0, fe_ExeDev = 0, fe_ExeIno = 0,
      fe_Exe = [], fe_ExecName = [], fe_Prot = 0\<rparr>"

text \<open>\<open>struct guard_event\<close> of \<open>guard.bpf.c\<close>.\<close>

definition encode_guard_event :: "bpfGuardEvent \<Rightarrow> bytes" where
  "encode_guard_event e = le_nat 4 (unat (ge_PID e)) @ le_nat 4 (unat (ge_UID e)) @
     le_nat 4 (unat (ge_GID e)) @ le_nat 4 (unat (ge_Type e)) @ le_nat 4 (unat (ge_FD e)) @
     le_nat 4 (unat (ge_Blocked e)) @ le_nat 4 (unat (ge_Reason e)) @
     le_nat 4 (unat (ge_ResID e)) @ le_nat 8 (unat (ge_ExeDev e)) @
     le_nat 8 (unat (ge_ExeIno e)) @ ge_Comm e @ ge_Path e @ ge_Dest e"

definition wf_guard_event :: "bpfGuardEvent \<Rightarrow> bool" where
  "wf_guard_event e = (length (ge_Comm e) = 16 \<and> length (ge_Path e) = 256 \<and> length (ge_Dest e) = 256)"

definition suspectLabel :: "u32 \<Rightarrow> string" where
  "suspectLabel reason = (let m = drop_bit 8 reason AND 0xff in
     if m = 1 then ''PRELOADED'' else if m = 2 then ''LAUNCH'' else [])"

definition processGateLabel :: "u32 \<Rightarrow> string" where
  "processGateLabel reason = (let g = reason AND 0xff in
     if g = 2 then ''PTRACE'' else if g = 3 then ''TRACED_EXEC''
     else if g = 4 then ''PROC_MEM'' else [])"

definition fsGateLabel :: "u32 \<Rightarrow> string" where
  "fsGateLabel reason = (let g = reason AND 0xff in
     if g = 1 then ''raw-block-device'' else if g = 5 then ''btrfs-ioctl'' else [])"

text \<open>An event is a filesystem gate's, a process gate's, or a path's: never two of them.\<close>

lemma gate_labels_exclusive: "fsGateLabel r = [] \<or> processGateLabel r = []"
  by (auto simp: fsGateLabel_def processGateLabel_def Let_def)

lemma length_encode_guard_event:
  "wf_guard_event e \<Longrightarrow> length (encode_guard_event e) = bpfGuardEventSize"
  by (simp add: wf_guard_event_def encode_guard_event_def bpfGuardEventSize_def)

lemmas slice_simps = slice_of_skip slice_of_here

subsection \<open>Properties\<close>

text \<open>
  C27: the bits of a whitelist entry's mask. \<open>eventMask\<close> succeeds exactly on lists of types in
  range, and then allows an event iff it is listed, or it is OPEN or STAT and the list holds READ,
  WRITE or MMAP; in particular DELETE, RENAME and HARDLINK are never implied.
\<close>

theorem eventMask_correct:
  "((\<exists>m. eventMask ts = Inr m) \<longleftrightarrow> set ts \<subseteq> {0..<32}) \<and>
   (\<forall>m e. eventMask ts = Inr m \<longrightarrow>
     (mask_allows m e \<longleftrightarrow> e \<in> set ts \<or> (e = EventOpen \<or> e = EventStat) \<and>
       (EventRead \<in> set ts \<or> EventWrite \<in> set ts \<or> EventMmap \<in> set ts)))"
  using eventMask_total [of ts] eventMask_in_range [of ts] eventMask_allows [of ts]
  unfolding implied_by_def by blast

theorem eventMask_correct_witness:
  "\<exists>m. eventMask [EventRead] = Inr m \<and> mask_allows m EventStat \<and> \<not> mask_allows m EventDelete"
  using eventMask_correct [of "[EventRead]"] by auto

text \<open>
  C28: the event decoders invert the kernel structs. A record laid out as \<open>struct event\<close>
  (\<open>struct guard_event\<close>) decodes to exactly its fields, whatever bytes follow it, and a record
  shorter than the struct is refused.
\<close>

theorem event_records_decode:
  "(wf_event e \<longrightarrow> DecodeBpfEvent (encode_event e @ rest) = Some e) \<and>
   (wf_guard_event g \<longrightarrow> decodeGuardEvent (encode_guard_event g @ rest) = Some g) \<and>
   (length raw < BpfEventSize \<longrightarrow> DecodeBpfEvent raw = None) \<and>
   (length raw < bpfGuardEventSize \<longrightarrow> decodeGuardEvent raw = None)"
proof (intro conjI impI)
  assume "wf_event e"
  then show "DecodeBpfEvent (encode_event e @ rest) = Some e"
    using length_encode_event [of e] unfolding DecodeBpfEvent_def
    by (simp add: encode_event_def wf_event_def slice_simps)
next
  assume "wf_guard_event g"
  then show "decodeGuardEvent (encode_guard_event g @ rest) = Some g"
    using length_encode_guard_event [of g] unfolding decodeGuardEvent_def
    by (simp add: encode_guard_event_def wf_guard_event_def slice_simps)
qed (simp_all add: DecodeBpfEvent_def decodeGuardEvent_def)

definition sample_event :: BpfEvent where
  "sample_event = \<lparr>be_PID = 7, be_UID = 1000, be_GID = 1000, be_Type = 1, be_FD = 3, be_Pad = 0,
     be_Comm = replicate 16 0, be_Path = replicate 256 65, be_Dest = replicate 256 0, be_Dev = 8,
     be_Mode = 33188, be_Ino = 123456789012, be_ExeDev = 8, be_ExeIno = 42, be_Prot = 0, be_Pad2 = 0\<rparr>"

definition sample_guard_event :: bpfGuardEvent where
  "sample_guard_event = \<lparr>ge_PID = 7, ge_UID = 0, ge_GID = 0, ge_Type = 2, ge_FD = 0, ge_Blocked = 1,
     ge_Reason = 256, ge_ResID = 511, ge_ExeDev = 8, ge_ExeIno = 42, ge_Comm = replicate 16 0,
     ge_Path = replicate 256 66, ge_Dest = replicate 256 0\<rparr>"

theorem event_records_decode_witness:
  "DecodeBpfEvent (encode_event sample_event @ [1, 2]) = Some sample_event \<and>
   decodeGuardEvent (encode_guard_event sample_guard_event @ []) = Some sample_guard_event \<and>
   DecodeBpfEvent [1, 2, 3] = None \<and> decodeGuardEvent [1, 2, 3] = None"
proof -
  have "wf_event sample_event" "wf_guard_event sample_guard_event"
    "length [1, 2, 3 :: u8] < BpfEventSize" "length [1, 2, 3 :: u8] < bpfGuardEventSize"
    by (simp_all add: wf_event_def sample_event_def wf_guard_event_def sample_guard_event_def
        BpfEventSize_def bpfGuardEventSize_def)
  then show ?thesis
    using event_records_decode [of sample_event "[1, 2]" sample_guard_event "[1, 2, 3]"]
      event_records_decode [of sample_event "[]" sample_guard_event "[1, 2, 3]"]
    by blast
qed

end
