(* ===== verification/Config_Lines.thy ===== *)
theory Config_Lines
  imports Event_Types
begin

text \<open>
  The line grammar of \<open>internal/daemonconfig/daemonconfig.go\<close>: quoting, the path-and-rest split of
  a directive, section headers, the directive recognisers and event lists. Everything here is a
  function of the text alone; \<open>Daemon_Config\<close> gives the lines their effect.
\<close>

abbreviation (input) DQ :: char where "DQ \<equiv> CHR 0x22"
abbreviation (input) TAB :: char where "TAB \<equiv> CHR 0x09"

subsection \<open>Paths on a line\<close>

definition isInsidePath :: "string \<Rightarrow> string \<Rightarrow> bool" where
  "isInsidePath path dir = (path \<noteq> dir \<and> HasPrefix (path @ ''/'') (dir @ ''/''))"

definition UnquotePath :: "string \<Rightarrow> string" where
  "UnquotePath s = (if length s \<ge> 2 \<and> hd s = DQ \<and> last s = DQ then butlast (tl s) else s)"

text \<open>The error is an unterminated quote.\<close>

definition splitPathAndRest :: "string \<Rightarrow> unit + string \<times> string" where
  "splitPathAndRest line =
     (if HasPrefix line [DQ] then
        (if DQ \<notin> set (tl line) then Inl ()
         else let p = takeWhile (\<lambda>c. c \<noteq> DQ) (tl line) in
           Inr (p, TrimSpace (drop (Suc (Suc (length p))) line)))
      else let path = take_word (trim_left line) in
        if path = [] then Inr ([], []) else Inr (path, TrimSpace (drop (length path) line)))"

subsection \<open>Headers and directives\<close>

text \<open>\<open>Inl ()\<close> is a malformed header; otherwise the section path and whether the line is a header.\<close>

definition parseWatchSection :: "string \<Rightarrow> unit + string \<times> bool" where
  "parseWatchSection line =
     (if \<not> HasPrefix line ''['' then Inr ([], False)
      else if line = ''[watch]'' then Inr ([], True)
      else if \<not> HasPrefix line ''[watch '' \<or> \<not> HasSuffix line '']'' then Inl ()
      else Inr (UnquotePath (TrimSpace (TrimSuffix (TrimPrefix line ''[watch '') '']'')), True))"

definition ParseLibrariesSection :: "string \<Rightarrow> string option" where
  "ParseLibrariesSection line =
     (if \<not> HasPrefix line ''[libraries'' \<or> \<not> HasSuffix line '']'' then None
      else let rest = TrimSuffix (TrimPrefix line ''[libraries'') '']'' in
        if rest \<noteq> [] \<and> hd rest \<noteq> CHR '' '' \<and> hd rest \<noteq> TAB then None
        else Some (UnquotePath (TrimSpace rest)))"

definition isWatchDirective :: "string \<Rightarrow> bool" where
  "isWatchDirective line = (HasPrefix line ''watch:'' \<or> HasPrefix line ''watch '')"

definition watchValue :: "string \<Rightarrow> string" where
  "watchValue line = UnquotePath (TrimSpace (TrimPrefix (TrimPrefix line ''watch:'') ''watch''))"

fun parsePathDirective_loop :: "string \<Rightarrow> string list \<Rightarrow> string option" where
  "parsePathDirective_loop line [] = None"
| "parsePathDirective_loop line (p # ps) =
     (case CutPrefix line p of
        Some after \<Rightarrow> (if TrimSpace after \<noteq> [] then Some (UnquotePath (TrimSpace after))
                       else parsePathDirective_loop line ps)
      | None \<Rightarrow> parsePathDirective_loop line ps)"

definition parsePathDirective :: "string \<Rightarrow> string option" where
  "parsePathDirective line = parsePathDirective_loop line [''path = '', ''path='']"

definition CutDirective :: "string \<Rightarrow> string \<Rightarrow> string option" where
  "CutDirective line name =
     (case CutPrefix line name of
        None \<Rightarrow> None
      | Some rest \<Rightarrow>
          (if rest = [] \<or> (hd rest \<noteq> CHR '' '' \<and> hd rest \<noteq> TAB \<and> hd rest \<noteq> CHR '':'') then None
           else Some (TrimSpace (TrimPrefix rest '':''))))"

definition parseAllowLib :: "string \<Rightarrow> string option" where
  "parseAllowLib line = map_option UnquotePath (CutDirective line ''allow_lib'')"

definition parseLibDir :: "string \<Rightarrow> string option" where
  "parseLibDir line = map_option UnquotePath (CutDirective line ''lib_dir'')"

definition parseLibBinary :: "string \<Rightarrow> string option" where
  "parseLibBinary line = CutDirective line ''lib_binary''"

definition parseNeedEncryption :: "string \<Rightarrow> string option" where
  "parseNeedEncryption line = map_option TrimSpace (CutPrefix line ''need_encryption:'')"

text \<open>An event list: names in any case, repeats dropped; \<open>Inl\<close> is the first unknown name.\<close>

definition parseEvents_step :: "event_type list \<Rightarrow> string \<Rightarrow> string + event_type list" where
  "parseEvents_step types token =
     (case ParseEventType (TrimSpace token) of
        None \<Rightarrow> Inl token
      | Some et \<Rightarrow> Inr (if et \<in> set types then types else types @ [et]))"

definition parseEvents :: "string list \<Rightarrow> string + event_type list" where
  "parseEvents tokens = rfold parseEvents_step [] tokens"

subsection \<open>Facts\<close>

lemma isInsidePath_strict:
  assumes "isInsidePath p d"
  shows "\<exists>r. p = d @ ''/'' @ r"
proof -
  from assms have ne: "p \<noteq> d" and "prefix (d @ ''/'') (p @ ''/'')" by (auto simp: isInsidePath_def)
  then obtain zs where zs: "p @ ''/'' = (d @ ''/'') @ zs" by (auto elim: prefixE)
  then have "p @ ''/'' = d @ ''/'' @ zs" by simp
  moreover from zs ne have "zs \<noteq> []" by auto
  ultimately have "p = d @ ''/'' @ butlast zs" by (metis append_assoc butlast_append butlast_snoc)
  then show ?thesis by blast
qed

lemma isInsidePath_iff: "isInsidePath p d \<longleftrightarrow> (\<exists>r. p = d @ ''/'' @ r)"
  using isInsidePath_strict by (force simp: isInsidePath_def)

lemma isInsidePath_trans: "isInsidePath a b \<Longrightarrow> isInsidePath b c \<Longrightarrow> isInsidePath a c"
  by (force simp: isInsidePath_iff)

lemma isInsidePath_irrefl: "\<not> isInsidePath p p"
  by (simp add: isInsidePath_def)

text \<open>The double-quoted form the installer writes is read back exactly.\<close>

lemma UnquotePath_quoted [simp]: "UnquotePath (DQ # p @ [DQ]) = p"
  by (simp add: UnquotePath_def)

lemma splitPathAndRest_quoted:
  assumes "DQ \<notin> set p"
  shows "splitPathAndRest (DQ # p @ DQ # rest) = Inr (p, TrimSpace rest)"
proof -
  have "takeWhile (\<lambda>c. c \<noteq> DQ) (p @ DQ # rest) = p"
    using assms by (simp add: takeWhile_tail) (induction p, auto)
  then show ?thesis by (simp add: splitPathAndRest_def)
qed

lemma parseEvents_facts:
  assumes "parseEvents ts = Inr es"
  shows "distinct es" and "set es \<subseteq> set EventTypes"
proof -
  have "distinct es \<and> set es \<subseteq> set EventTypes"
    using assms unfolding parseEvents_def
    by (rule rfold_invariant)
      (auto simp: parseEvents_step_def split: option.splits if_splits dest: ParseEventType_range)
  then show "distinct es" and "set es \<subseteq> set EventTypes" by auto
qed

end
