(* ===== verification/Confined_Open.thy ===== *)
theory Confined_Open
  imports Event_Types
begin

text \<open>
  \<open>internal/infrastructure/confined.go\<close>: opening a whitelisted path without letting a symlink in a
  user-writable directory redirect it. The kernel is a parameter, the record \<open>kern\<close>; every call
  takes the step of the walk it is made at, so renames and re-pointed links between two steps are
  covered. A file descriptor is a number.
\<close>

subsection \<open>The kernel calls\<close>

datatype errno = EXDEV | ELOOP | ENOENT | EOTHER

record stat_t =
  st_Uid :: u32
  st_Gid :: u32
  st_Mode :: u32
  st_Major :: u32
  st_Minor :: u32
  st_Ino :: u64

record kern =
  k_root :: "errno + nat" \<comment> \<open>\<open>open("/", O_PATH | O_DIRECTORY)\<close>\<close>
  k_openat2 :: "nat \<Rightarrow> nat \<Rightarrow> string \<Rightarrow> bool \<Rightarrow> bool \<Rightarrow> errno + nat"
    \<comment> \<open>step, directory, name, \<open>O_DIRECTORY\<close>, \<open>RESOLVE_BENEATH | RESOLVE_NO_MAGICLINKS\<close>\<close>
  k_Fstat :: "nat \<Rightarrow> nat \<Rightarrow> stat_t option"
  k_Readlink :: "nat \<Rightarrow> nat \<Rightarrow> string option" \<comment> \<open>of \<open>/proc/self/fd/<fd>\<close>\<close>

definition S_IWOTH :: u32 where "S_IWOTH = 2"
definition S_IWGRP :: u32 where "S_IWGRP = 16"

datatype open_err = NotAbsolute | OpenRoot errno | FstatFailed | ReadlinkFailed
  | LeavesParent string | OpenFailed string errno

subsection \<open>User homes\<close>

definition SetUserHomes :: "(string \<Rightarrow> string option) \<Rightarrow> string list \<Rightarrow> string list" where
  "SetUserHomes evalSymlinks homes =
     concat (map (\<lambda>h. Clean h # (case evalSymlinks h of Some r \<Rightarrow> [r] | None \<Rightarrow> [])) homes)"

definition inUserHome :: "string list \<Rightarrow> string \<Rightarrow> bool" where
  "inUserHome userHomes dir = list_ex (\<lambda>h. h = ''/'' \<or> dir = h \<or> HasPrefix dir (h @ ''/'')) userHomes"

subsection \<open>The walk\<close>

definition confineBelow :: "kern \<Rightarrow> string list \<Rightarrow> nat \<Rightarrow> nat \<Rightarrow> open_err + bool" where
  "confineBelow k homes t fd =
     (case k_Fstat k t fd of
        None \<Rightarrow> Inl FstatFailed
      | Some st \<Rightarrow>
          (if st_Uid st \<noteq> 0 \<or> st_Mode st AND S_IWOTH \<noteq> 0 \<or>
              (st_Mode st AND S_IWGRP \<noteq> 0 \<and> st_Gid st \<noteq> 0) then Inr True
           else case k_Readlink k t fd of
             None \<Rightarrow> Inl ReadlinkFailed
           | Some dir \<Rightarrow> Inr (inUserHome homes dir)))"

text \<open>\<open>past\<close> are the components already opened, \<open>dir\<close> the descriptor they led to.\<close>

fun open_walk :: "kern \<Rightarrow> string list \<Rightarrow> string list \<Rightarrow> nat \<Rightarrow> string list \<Rightarrow> open_err + nat" where
  "open_walk k homes past dir [] = Inr dir"
| "open_walk k homes past dir (c # cs) =
     rbind (if cs \<noteq> [] then confineBelow k homes (length past) dir else Inr False)
       (\<lambda>confine. case k_openat2 k (length past) dir c (cs \<noteq> []) confine of
          Inl e \<Rightarrow>
            (let sub = ''/'' @ join_on ''/'' (past @ [c]) in
             Inl (if confine \<and> (e = EXDEV \<or> e = ELOOP) then LeavesParent sub else OpenFailed sub e))
        | Inr next \<Rightarrow> open_walk k homes (past @ [c]) next cs)"

definition OpenConfined :: "kern \<Rightarrow> string list \<Rightarrow> string \<Rightarrow> open_err + nat" where
  "OpenConfined k homes path =
     (if \<not> IsAbs path then Inl NotAbsolute
      else case k_root k of
        Inl e \<Rightarrow> Inl (OpenRoot e)
      | Inr dir \<Rightarrow>
          (let clean = Clean path in
           if clean = ''/'' then Inr dir
           else open_walk k homes [] dir (split_on (CHR ''/'') (tl clean))))"

definition KernelDev :: "u32 \<Rightarrow> u32 \<Rightarrow> u64" where
  "KernelDev major minor = push_bit 20 (ucast major) OR ucast minor"

text \<open>The two users of the descriptor read it after the walk, one step later.\<close>

definition walk_end :: "string \<Rightarrow> nat" where
  "walk_end path = Suc (length (clean_comps path))"

definition StatConfined :: "kern \<Rightarrow> string list \<Rightarrow> string \<Rightarrow> open_err + u64 \<times> u64" where
  "StatConfined k homes path =
     rbind (OpenConfined k homes path) (\<lambda>f.
       case k_Fstat k (walk_end path) f of
         None \<Rightarrow> Inl FstatFailed
       | Some st \<Rightarrow> Inr (KernelDev (st_Major st) (st_Minor st), st_Ino st))"

definition resolve_confined :: "kern \<Rightarrow> string list \<Rightarrow> string \<Rightarrow> open_err + string" where
  "resolve_confined k homes path =
     rbind (OpenConfined k homes path) (\<lambda>f.
       case k_Readlink k (walk_end path) f of None \<Rightarrow> Inl ReadlinkFailed | Some p \<Rightarrow> Inr p)"

subsection \<open>Facts\<close>

text \<open>A directory whose entries somebody other than root can change, or one in a user home.\<close>

definition user_controlled :: "kern \<Rightarrow> string list \<Rightarrow> nat \<Rightarrow> nat \<Rightarrow> bool" where
  "user_controlled k homes t fd \<longleftrightarrow>
     (\<exists>st. k_Fstat k t fd = Some st \<and>
        (st_Uid st \<noteq> 0 \<or> st_Mode st AND S_IWOTH \<noteq> 0 \<or> st_Mode st AND S_IWGRP \<noteq> 0 \<and> st_Gid st \<noteq> 0)) \<or>
     (\<exists>d. k_Readlink k t fd = Some d \<and> inUserHome homes d)"

lemma confineBelow_iff: "confineBelow k homes t fd = Inr b \<Longrightarrow> b = user_controlled k homes t fd"
  by (auto simp: confineBelow_def user_controlled_def split: option.splits if_splits)

lemma open_walk_trace:
  assumes "open_walk k homes past dir cs = Inr h"
  shows "\<exists>hs. length hs = Suc (length cs) \<and> hs ! 0 = dir \<and> last hs = h \<and>
     (\<forall>i < length cs. k_openat2 k (length past + i) (hs ! i) (cs ! i) (Suc i < length cs)
        (Suc i < length cs \<and> user_controlled k homes (length past + i) (hs ! i)) = Inr (hs ! Suc i))"
  using assms
proof (induction cs arbitrary: past dir)
  case Nil
  then show ?case by (intro exI [of _ "[h]"]) simp
next
  case (Cons c cs)
  then obtain b nx where b: "(if cs \<noteq> [] then confineBelow k homes (length past) dir else Inr False) = Inr b"
    and nx: "k_openat2 k (length past) dir c (cs \<noteq> []) b = Inr nx"
    and rest: "open_walk k homes (past @ [c]) nx cs = Inr h"
    by (auto simp: Let_def split: sum.splits)
  from b have b': "b = (cs \<noteq> [] \<and> user_controlled k homes (length past) dir)"
    by (auto split: if_splits dest: confineBelow_iff)
  from Cons.IH [OF rest] obtain hs where hs: "length hs = Suc (length cs)" "hs ! 0 = nx" "last hs = h"
    and steps: "\<And>i. i < length cs \<Longrightarrow> k_openat2 k (Suc (length past) + i) (hs ! i) (cs ! i)
      (Suc i < length cs) (Suc i < length cs \<and> user_controlled k homes (Suc (length past) + i) (hs ! i)) =
        Inr (hs ! Suc i)"
    by auto
  show ?case
  proof (intro exI [of _ "dir # hs"] conjI allI impI)
    fix i assume i: "i < length (c # cs)"
    show "k_openat2 k (length past + i) ((dir # hs) ! i) ((c # cs) ! i) (Suc i < length (c # cs))
      (Suc i < length (c # cs) \<and> user_controlled k homes (length past + i) ((dir # hs) ! i)) =
        Inr ((dir # hs) ! Suc i)"
    proof (cases i)
      case 0
      with nx b' hs show ?thesis by simp
    next
      case (Suc j)
      with i steps [of j] show ?thesis by simp
    qed
  qed (use hs in auto)
qed

lemma OpenConfined_walk:
  assumes "OpenConfined k homes path = Inr h"
  obtains dir where "IsAbs path" "k_root k = Inr dir" "open_walk k homes [] dir (clean_comps path) = Inr h"
proof -
  from assms obtain dir where a: "IsAbs path" "k_root k = Inr dir"
    by (auto simp: OpenConfined_def split: if_splits sum.splits)
  show thesis
  proof (cases "clean_comps path = []")
    case True
    with a assms that show thesis by (simp add: OpenConfined_def Clean_def)
  next
    case False
    then obtain x xs where x: "clean_comps path = x # xs" by (cases "clean_comps path") auto
    with a clean_comps_parts(1) [of x path] have "Clean path \<noteq> ''/''"
      by (cases xs) (auto simp: Clean_def)
    moreover have "split_on (CHR ''/'') (tl (Clean path)) = clean_comps path"
      using a False clean_comps_parts(3) by (auto simp: Clean_def intro!: split_join_on)
    ultimately show thesis using a assms that by (simp add: OpenConfined_def)
  qed
qed

text \<open>
  C22. A path opened by \<open>OpenConfined\<close> was reached component by component, and no directory
  component below a directory that anyone but root can change, or that lies in a user home, led
  outside that directory, whatever is renamed or re-pointed during the walk. \<open>below d h\<close> is what
  \<open>openat2(2)\<close> documents of \<open>RESOLVE_BENEATH\<close>.
\<close>

theorem OpenConfined_no_escape:
  assumes beneath: "\<And>t d c isdir h. k_openat2 k t d c isdir True = Inr h \<Longrightarrow> below d h"
    and "OpenConfined k homes path = Inr h"
  shows "\<exists>hs. length hs = Suc (length (clean_comps path)) \<and> k_root k = Inr (hs ! 0) \<and> last hs = h \<and>
     (\<forall>i < length (clean_comps path).
        (\<exists>isdir confine. k_openat2 k i (hs ! i) (clean_comps path ! i) isdir confine = Inr (hs ! Suc i)) \<and>
        (Suc i < length (clean_comps path) \<longrightarrow> user_controlled k homes i (hs ! i) \<longrightarrow>
           below (hs ! i) (hs ! Suc i)))"
proof -
  from assms(2) obtain dir where d: "k_root k = Inr dir" "open_walk k homes [] dir (clean_comps path) = Inr h"
    by (rule OpenConfined_walk)
  from open_walk_trace [OF d(2)] obtain hs where hs: "length hs = Suc (length (clean_comps path))"
    "hs ! 0 = dir" "last hs = h" and steps: "\<And>i. i < length (clean_comps path) \<Longrightarrow>
      k_openat2 k i (hs ! i) (clean_comps path ! i) (Suc i < length (clean_comps path))
        (Suc i < length (clean_comps path) \<and> user_controlled k homes i (hs ! i)) = Inr (hs ! Suc i)"
    by auto
  have "below (hs ! i) (hs ! Suc i)"
    if "Suc i < length (clean_comps path)" "user_controlled k homes i (hs ! i)" for i
    using steps [of i] that by (intro beneath [of i _ "clean_comps path ! i" True]) simp
  with hs d(1) steps show ?thesis by (intro exI [of _ hs]) blast
qed

text \<open>A kernel where directory 1 is a user's, and everything opened beneath it is above 1.\<close>

definition demo_kern :: kern where
  "demo_kern = \<lparr>k_root = Inr 1, k_openat2 = (\<lambda>t d c isdir confine. Inr (Suc d)),
     k_Fstat = (\<lambda>t fd. Some \<lparr>st_Uid = 1000, st_Gid = 0, st_Mode = 0, st_Major = 8, st_Minor = 1, st_Ino = 7\<rparr>),
     k_Readlink = (\<lambda>t fd. Some ''/home/u'')\<rparr>"

theorem OpenConfined_no_escape_witness:
  "OpenConfined demo_kern [] ''/a/b'' = Inr 3 \<and> (\<exists>hs. length hs = 3 \<and> hs ! 0 = 1 \<and> last hs = 3 \<and>
     user_controlled demo_kern [] 0 (hs ! 0) \<and> hs ! 0 < hs ! Suc 0)"
proof -
  have comps: "clean_comps ''/a/b'' = [''a'', ''b'']"
    by (simp add: clean_comps_def IsAbs_def clean_push.simps)
  have run: "OpenConfined demo_kern [] ''/a/b'' = Inr 3"
    by (simp add: OpenConfined_def IsAbs_def Clean_def comps demo_kern_def confineBelow_def)
  have "\<exists>hs. length hs = Suc (length (clean_comps ''/a/b'')) \<and> k_root demo_kern = Inr (hs ! 0) \<and> last hs = 3 \<and>
     (\<forall>i < length (clean_comps ''/a/b'').
        (\<exists>isdir confine. k_openat2 demo_kern i (hs ! i) (clean_comps ''/a/b'' ! i) isdir confine = Inr (hs ! Suc i)) \<and>
        (Suc i < length (clean_comps ''/a/b'') \<longrightarrow> user_controlled demo_kern [] i (hs ! i) \<longrightarrow> hs ! i < hs ! Suc i))"
    by (rule OpenConfined_no_escape [OF _ run]) (simp add: demo_kern_def)
  then obtain hs where hs: "length hs = Suc (length (clean_comps ''/a/b''))" "k_root demo_kern = Inr (hs ! 0)"
    "last hs = 3" and step: "\<And>i. Suc i < length (clean_comps ''/a/b'') \<Longrightarrow>
      user_controlled demo_kern [] i (hs ! i) \<longrightarrow> hs ! i < hs ! Suc i"
    by (metis Suc_lessD)
  have "length hs = 3" "hs ! 0 = 1" using hs by (simp_all add: comps) (simp add: demo_kern_def)
  moreover have "user_controlled demo_kern [] 0 (hs ! 0) \<longrightarrow> hs ! 0 < hs ! Suc 0"
    using step [of 0] by (simp add: comps)
  moreover have "user_controlled demo_kern [] 0 (hs ! 0)"
    by (simp add: user_controlled_def demo_kern_def)
  ultimately show ?thesis using run hs(3) by blast
qed

end
