(* ===== verification/Daemon_Config.thy ===== *)
theory Daemon_Config
  imports Config_Lines Confined_Open
begin

text \<open>
  \<open>internal/daemonconfig\<close>: the daemon configuration from its text to the list of guarded
  resources. \<open>parse_config\<close> is \<open>Parse\<close>: the lines are folded through
  \<open>applyConfigLine\<close> with the open \<open>watchGroup\<close>, each closed group is materialized into
  resources, and the whole configuration is validated.

  The file system the parser consults is a parameter, the record \<open>fs\<close>: what \<open>os.Lstat\<close> says of a
  path, whether \<open>os.Stat\<close> succeeds, where \<open>filepath.EvalSymlinks\<close> leads, and the kernel and user
  homes \<open>OpenConfined\<close> works with. Nothing is assumed of it. Warnings are log output and not part of the model.
\<close>

subsection \<open>Data\<close>

datatype fkind = FDir | FRegular nat \<comment> \<open>number of links\<close> | FSymlink | FSpecial

record fs =
  Lstat :: "string \<Rightarrow> fkind option"
  StatOk :: "string \<Rightarrow> bool"
  EvalSymlinks :: "string \<Rightarrow> string option"
  fs_kern :: kern
  fs_homes :: "string list"

text \<open>The callers only ask whether the confined resolution succeeded, and where it led.\<close>

definition ResolveConfined :: "fs \<Rightarrow> string \<Rightarrow> string option" where
  "ResolveConfined F p =
     (case resolve_confined (fs_kern F) (fs_homes F) p of Inl _ \<Rightarrow> None | Inr t \<Rightarrow> Some t)"

record BinaryRule =
  bin_Path :: string
  bin_Link :: string
  bin_Events :: "event_type list"
  bin_LibBinary :: bool

record Resource =
  res_Path :: string
  res_NeedEncryption :: bool
  res_EncryptionRoot :: string
  res_Binaries :: "BinaryRule list"
  res_PendingBinaries :: "BinaryRule list"
  res_AllowLibs :: "string list"
  res_PendingLibs :: "string list"
  res_ReadOnly :: bool
  res_PathPending :: bool

text \<open>\<open>Inspectors\<close> is \<^const>\<open>None\<close> while no block declared it (\<open>nil\<close>).\<close>

record Config =
  Resources :: "Resource list"
  SharedAllowLibs :: "string list"
  Inspectors :: "string list option"
  InspectorsDefault :: bool
  ElectronApps :: "string list"
  MaxInodes :: nat
  Raw :: string

record watchGroup =
  wg_root :: string
  wg_needEncryption :: bool
  wg_binaries :: "BinaryRule list"
  wg_pending :: "BinaryRule list"
  wg_libs :: "string list"
  wg_pendingLibs :: "string list"
  wg_watchPaths :: "string list"
  wg_libDirs :: "string list"
  wg_libBinaries :: "BinaryRule list"
  wg_libPending :: "BinaryRule list"
  wg_libraryBlock :: bool
  wg_inspectorsBlock :: bool
  wg_electronAppsBlock :: bool
  wg_settingsBlock :: bool
  wg_blockName :: string
  wg_skipped :: bool
  wg_lineNo :: nat

datatype target_err = TargetMissing | TargetSymlink | TargetSpecial | TargetHardlinked nat
  | SymlinkedComponent string

datatype cfg_err =
    EmptyWatchPath nat | WatchPathOutside nat string string | DuplicateWatchPath nat string
  | MalformedHeader nat string | InvalidNeedEncryption nat string | UnterminatedQuote nat
  | UnknownEventType nat string | EmptyAllowLib nat | EmptyLibDir nat | DuplicateLibDir nat string
  | EmptyLibBinary nat | LibBinaryEvents nat string | NotInLibraries nat string
  | InspectorRest nat string | InspectorNotAbs nat string | DuplicateInspector nat string
  | TooManyInspectors nat | ElectronRest nat string | ElectronNotAbs nat string
  | ElectronTooLong nat string | DuplicateElectron nat string | TooManyElectron nat
  | SettingSyntax nat string | UnknownSetting nat string | DuplicateMaxInodes nat
  | MaxInodesNaN nat string | MaxInodesRange nat nat | LineTooLong
  | DuplicateResource string | SameDirectory string string | NestedDirectory string string
  | PendingTarget string string target_err

definition DefaultInspectors :: "string list" where
  "DefaultInspectors = [''/usr/lib/xdg-desktop-portal'', ''/usr/libexec/xdg-desktop-portal'']"

definition MaxInspectors :: nat where "MaxInspectors = 16"
definition MaxElectronApps :: nat where "MaxElectronApps = 32"
definition MaxElectronAppLen :: nat where "MaxElectronAppLen = 43"
definition MaxInodesFloor :: nat where "MaxInodesFloor = 2 ^ 15"
definition MaxInodesCeiling :: nat where "MaxInodesCeiling = 2 ^ 22"

definition empty_config :: "string \<Rightarrow> Config" where
  "empty_config raw = \<lparr>Resources = [], SharedAllowLibs = [], Inspectors = None,
     InspectorsDefault = False, ElectronApps = [], MaxInodes = 0, Raw = raw\<rparr>"

definition zero_group :: "nat \<Rightarrow> watchGroup" where
  "zero_group n = \<lparr>wg_root = [], wg_needEncryption = False, wg_binaries = [], wg_pending = [],
     wg_libs = [], wg_pendingLibs = [], wg_watchPaths = [], wg_libDirs = [], wg_libBinaries = [],
     wg_libPending = [], wg_libraryBlock = False, wg_inspectorsBlock = False,
     wg_electronAppsBlock = False, wg_settingsBlock = False, wg_blockName = [],
     wg_skipped = False, wg_lineNo = n\<rparr>"

definition new_resource :: "string \<Rightarrow> Resource" where
  "new_resource path = \<lparr>res_Path = path, res_NeedEncryption = True, res_EncryptionRoot = [],
     res_Binaries = [], res_PendingBinaries = [], res_AllowLibs = [], res_PendingLibs = [],
     res_ReadOnly = False, res_PathPending = False\<rparr>"

definition EncryptionRootOrPath :: "Resource \<Rightarrow> string" where
  "EncryptionRootOrPath r = (if res_EncryptionRoot r \<noteq> [] then res_EncryptionRoot r else res_Path r)"

subsection \<open>Watch targets\<close>

fun strip_common :: "'a list \<Rightarrow> 'a list \<Rightarrow> 'a list \<times> 'a list" where
  "strip_common (x # xs) (y # ys) = (if x = y then strip_common xs ys else (x # xs, y # ys))"
| "strip_common xs ys = (xs, ys)"

text \<open>\<open>filepath.Rel\<close>.\<close>

definition Rel :: "string \<Rightarrow> string \<Rightarrow> string option" where
  "Rel base targ = (let b = Clean base; t = Clean targ in
     if t = b then Some ''.''
     else if IsAbs b \<noteq> IsAbs t then None
     else (case strip_common (if b = ''.'' then [] else clean_comps b)
             (if t = ''.'' then [''.''] else clean_comps t) of
        (bs, ts) \<Rightarrow>
          if bs = [] then Some (join_on ''/'' ts)
          else if ts \<noteq> [] \<and> hd bs = ''..'' then None
          else Some (join_on ''/'' (replicate (length bs) ''..'' @ ts))))"

fun reject_components :: "fs \<Rightarrow> string \<Rightarrow> string list \<Rightarrow> target_err + unit" where
  "reject_components F cur [] = Inr ()"
| "reject_components F cur (seg # segs) =
     (if seg = [] \<or> seg = ''.'' then reject_components F cur segs
      else let cur' = Join2 cur seg in
        case Lstat F cur' of
          None \<Rightarrow> Inr ()
        | Some k \<Rightarrow> if k = FSymlink then Inl (SymlinkedComponent cur')
                    else reject_components F cur' segs)"

definition rejectSymlinkedComponents :: "fs \<Rightarrow> string \<Rightarrow> string \<Rightarrow> target_err + unit" where
  "rejectSymlinkedComponents F encRoot target =
     (case Rel encRoot target of
        None \<Rightarrow> Inr ()
      | Some rel \<Rightarrow>
          (if rel = ''.'' \<or> rel = [] \<or> HasPrefix rel ''..'' then Inr ()
           else reject_components F encRoot (butlast (split_on (CHR ''/'') rel))))"

definition validateWatchTarget :: "fs \<Rightarrow> string \<Rightarrow> string \<Rightarrow> target_err + unit" where
  "validateWatchTarget F watchPath encRoot =
     rbind (if encRoot \<noteq> [] then rejectSymlinkedComponents F encRoot watchPath else Inr ())
       (\<lambda>_. case Lstat F watchPath of
          None \<Rightarrow> Inl TargetMissing
        | Some FSymlink \<Rightarrow> Inl TargetSymlink
        | Some FDir \<Rightarrow> Inr ()
        | Some FSpecial \<Rightarrow> Inl TargetSpecial
        | Some (FRegular n) \<Rightarrow> if n > 1 then Inl (TargetHardlinked n) else Inr ())"

definition addResource :: "fs \<Rightarrow> Config \<Rightarrow> string \<Rightarrow> string \<Rightarrow> Config option" where
  "addResource F cfg watchPath encRoot =
     (case validateWatchTarget F watchPath encRoot of
        Inl _ \<Rightarrow> None
      | Inr _ \<Rightarrow> Some (cfg\<lparr>Resources := Resources cfg @ [new_resource watchPath]\<rparr>))"

text \<open>The code edits the resource it just appended through a pointer to the last element.\<close>

definition upd_last :: "(Resource \<Rightarrow> Resource) \<Rightarrow> Config \<Rightarrow> Config" where
  "upd_last f cfg = (if Resources cfg = [] then cfg
     else cfg\<lparr>Resources := butlast (Resources cfg) @ [f (last (Resources cfg))]\<rparr>)"

subsection \<open>Materializing a closed group\<close>

definition deferPendingWatchPath :: "fs \<Rightarrow> Config \<Rightarrow> watchGroup \<Rightarrow> string \<Rightarrow> Config option" where
  "deferPendingWatchPath F cfg g watchPath =
     (if \<not> wg_needEncryption g then None
      else if Lstat F watchPath \<noteq> None then None
      else if Lstat F (wg_root g) \<noteq> Some FDir then None
      else Some (cfg\<lparr>Resources := Resources cfg @ [(new_resource watchPath)\<lparr>res_PathPending := True\<rparr>]\<rparr>))"

definition fill_watch :: "watchGroup \<Rightarrow> bool \<Rightarrow> Resource \<Rightarrow> Resource" where
  "fill_watch g grouped r = r\<lparr>res_NeedEncryption := wg_needEncryption g,
     res_EncryptionRoot := (if grouped then wg_root g else res_EncryptionRoot r),
     res_Binaries := res_Binaries r @ wg_binaries g,
     res_PendingBinaries := res_PendingBinaries r @ wg_pending g,
     res_AllowLibs := res_AllowLibs r @ wg_libs g,
     res_PendingLibs := res_PendingLibs r @ wg_pendingLibs g\<rparr>"

definition materializeWatchPath :: "fs \<Rightarrow> watchGroup \<Rightarrow> bool \<Rightarrow> Config \<Rightarrow> string \<Rightarrow> Config" where
  "materializeWatchPath F g grouped cfg watchPath =
     (let encRoot = (if grouped then wg_root g else []);
          added = (case addResource F cfg watchPath encRoot of
             Some cfg' \<Rightarrow> Some cfg'
           | None \<Rightarrow> if grouped then deferPendingWatchPath F cfg g watchPath else None)
      in case added of
           None \<Rightarrow> cfg
         | Some cfg' \<Rightarrow> upd_last (fill_watch g grouped) cfg')"

fun vaultRoot_of_resources :: "fs \<Rightarrow> string \<Rightarrow> Resource list \<Rightarrow> string" where
  "vaultRoot_of_resources F dir [] = []"
| "vaultRoot_of_resources F dir (r # rs) =
     (if res_NeedEncryption r \<and> res_EncryptionRoot r \<noteq> [] \<and> isInsidePath dir (res_EncryptionRoot r) \<and>
         Lstat F (res_EncryptionRoot r) = Some FDir
      then res_EncryptionRoot r else vaultRoot_of_resources F dir rs)"

definition vaultRootOf :: "fs \<Rightarrow> Config \<Rightarrow> watchGroup \<Rightarrow> string \<Rightarrow> string" where
  "vaultRootOf F cfg g dir =
     (if wg_needEncryption g \<and> wg_watchPaths g \<noteq> [] \<and> isInsidePath dir (wg_root g) then wg_root g
      else vaultRoot_of_resources F dir (Resources cfg))"

definition libDirWriters :: "BinaryRule list \<Rightarrow> BinaryRule list" where
  "libDirWriters rules = filter (\<lambda>r. bin_Events r = []) rules"

text \<open>The four appends a \<open>lib_dir\<close> resource gets, in the three places that make one.\<close>

definition add_writers :: "watchGroup \<Rightarrow> Resource \<Rightarrow> Resource" where
  "add_writers g r = r\<lparr>
     res_Binaries := res_Binaries r @ libDirWriters (wg_binaries g) @ wg_libBinaries g,
     res_PendingBinaries := res_PendingBinaries r @ libDirWriters (wg_pending g) @ wg_libPending g\<rparr>"

fun findResource :: "string \<Rightarrow> Resource list \<Rightarrow> nat option" where
  "findResource path [] = None"
| "findResource path (r # rs) =
     (if res_Path r = path then Some 0 else map_option Suc (findResource path rs))"

definition pending_lib_dir :: "string \<Rightarrow> string \<Rightarrow> Resource" where
  "pending_lib_dir dir vault = (new_resource dir)\<lparr>res_EncryptionRoot := vault,
     res_PathPending := True, res_ReadOnly := True\<rparr>"

definition materializeLibDir :: "fs \<Rightarrow> watchGroup \<Rightarrow> Config \<Rightarrow> string \<Rightarrow> Config" where
  "materializeLibDir F g cfg dir =
     (let vault = vaultRootOf F cfg g dir; inVault = (vault \<noteq> []) in
      case Lstat F dir of
        None \<Rightarrow>
          (if inVault \<and> findResource dir (Resources cfg) = None
           then cfg\<lparr>Resources := Resources cfg @ [add_writers g (pending_lib_dir dir vault)]\<rparr>
           else cfg)
      | Some _ \<Rightarrow>
          (case findResource dir (Resources cfg) of
             Some i \<Rightarrow>
               (if \<not> res_ReadOnly (Resources cfg ! i) then cfg
                else cfg\<lparr>Resources := (Resources cfg)[i := add_writers g (Resources cfg ! i)]\<rparr>)
           | None \<Rightarrow>
               (case addResource F cfg dir vault of
                  None \<Rightarrow> cfg
                | Some cfg' \<Rightarrow> upd_last (\<lambda>r. add_writers g (r\<lparr>res_NeedEncryption := inVault,
                    res_EncryptionRoot := vault, res_ReadOnly := True\<rparr>)) cfg')))"

definition materializeLibDirs :: "fs \<Rightarrow> Config \<Rightarrow> watchGroup \<Rightarrow> Config" where
  "materializeLibDirs F cfg g = foldl (materializeLibDir F g) cfg (wg_libDirs g)"

definition materializeWatchGroup :: "fs \<Rightarrow> Config \<Rightarrow> watchGroup \<Rightarrow> Config" where
  "materializeWatchGroup F cfg g =
     (let grouped = (wg_watchPaths g \<noteq> []);
          paths = (if grouped then wg_watchPaths g else [wg_root g])
      in materializeLibDirs F (foldl (materializeWatchPath F g grouped) cfg paths) g)"

definition finalizeGroup :: "fs \<Rightarrow> Config \<Rightarrow> watchGroup option \<Rightarrow> Config" where
  "finalizeGroup F cfg grp =
     (case grp of
        None \<Rightarrow> cfg
      | Some g \<Rightarrow>
          (if wg_skipped g \<or> wg_inspectorsBlock g \<or> wg_electronAppsBlock g \<or> wg_settingsBlock g then cfg
           else if wg_libraryBlock g then
             materializeLibDirs F
               (cfg\<lparr>SharedAllowLibs := SharedAllowLibs cfg @ wg_libs g @ wg_pendingLibs g\<rparr>) g
           else materializeWatchGroup F cfg g))"

subsection \<open>Directives\<close>

definition addWatchPath :: "watchGroup \<Rightarrow> string \<Rightarrow> nat \<Rightarrow> cfg_err + watchGroup" where
  "addWatchPath g line n =
     (let path = watchValue line in
      if path = [] then Inl (EmptyWatchPath n)
      else let path = Clean path in
        if \<not> isInsidePath path (wg_root g) then Inl (WatchPathOutside n path (wg_root g))
        else if path \<in> set (wg_watchPaths g) then Inl (DuplicateWatchPath n path)
        else Inr (g\<lparr>wg_watchPaths := wg_watchPaths g @ [path]\<rparr>))"

text \<open>The rule as it ends up, and whether it is resolved (\<open>True\<close>) or deferred.\<close>

definition recordBinaryRule :: "fs \<Rightarrow> BinaryRule \<Rightarrow> BinaryRule \<times> bool" where
  "recordBinaryRule F rule =
     (if \<not> StatOk F (bin_Path rule) then (rule, False)
      else case ResolveConfined F (bin_Path rule) of
        None \<Rightarrow> (rule, False)
      | Some target \<Rightarrow>
          (if target \<noteq> bin_Path rule
           then (rule\<lparr>bin_Link := bin_Path rule, bin_Path := target\<rparr>, True) else (rule, True)))"

definition applyAllowLib :: "fs \<Rightarrow> watchGroup \<Rightarrow> string \<Rightarrow> nat \<Rightarrow> cfg_err + watchGroup" where
  "applyAllowLib F g libPath n =
     (if libPath = [] then Inl (EmptyAllowLib n)
      else if \<not> StatOk F libPath then Inr (g\<lparr>wg_pendingLibs := wg_pendingLibs g @ [libPath]\<rparr>)
      else case ResolveConfined F libPath of
        None \<Rightarrow> Inr (g\<lparr>wg_pendingLibs := wg_pendingLibs g @ [libPath]\<rparr>)
      | Some resolved \<Rightarrow> Inr (g\<lparr>wg_libs := wg_libs g @ [resolved]\<rparr>))"

definition applyLibDir :: "watchGroup \<Rightarrow> string \<Rightarrow> nat \<Rightarrow> cfg_err + watchGroup" where
  "applyLibDir g dirPath n =
     (if dirPath = [] then Inl (EmptyLibDir n)
      else let d = Clean dirPath in
        if d \<in> set (wg_libDirs g) then Inl (DuplicateLibDir n d)
        else Inr (g\<lparr>wg_libDirs := wg_libDirs g @ [d]\<rparr>))"

definition new_rule :: "string \<Rightarrow> event_type list \<Rightarrow> bool \<Rightarrow> BinaryRule" where
  "new_rule path events lib = \<lparr>bin_Path = path, bin_Link = [], bin_Events = events, bin_LibBinary = lib\<rparr>"

definition applyLibBinary :: "fs \<Rightarrow> watchGroup \<Rightarrow> string \<Rightarrow> nat \<Rightarrow> cfg_err + watchGroup" where
  "applyLibBinary F g value n =
     (case splitPathAndRest value of
        Inl _ \<Rightarrow> Inl (UnterminatedQuote n)
      | Inr (binPath, rest) \<Rightarrow>
          (if binPath = [] then Inl (EmptyLibBinary n)
           else if rest \<noteq> [] then Inl (LibBinaryEvents n rest)
           else case recordBinaryRule F (new_rule binPath [] True) of
             (rule, True) \<Rightarrow> Inr (g\<lparr>wg_libBinaries := wg_libBinaries g @ [rule]\<rparr>)
           | (rule, False) \<Rightarrow> Inr (g\<lparr>wg_libPending := wg_libPending g @ [rule]\<rparr>)))"

definition applyBinary :: "fs \<Rightarrow> watchGroup \<Rightarrow> string \<Rightarrow> nat \<Rightarrow> cfg_err + watchGroup" where
  "applyBinary F g line n =
     (case splitPathAndRest line of
        Inl _ \<Rightarrow> Inl (UnterminatedQuote n)
      | Inr (binPath, rest) \<Rightarrow>
          (if binPath = [] then Inr g
           else rbind (if rest = [] then Inr []
                       else (case parseEvents (split_on (CHR '','') rest) of
                          Inl tok \<Rightarrow> Inl (UnknownEventType n tok) | Inr es \<Rightarrow> Inr es))
             (\<lambda>events. case recordBinaryRule F (new_rule binPath events False) of
                (rule, True) \<Rightarrow> Inr (g\<lparr>wg_binaries := wg_binaries g @ [rule]\<rparr>)
              | (rule, False) \<Rightarrow> Inr (g\<lparr>wg_pending := wg_pending g @ [rule]\<rparr>))))"

definition applyDirective :: "fs \<Rightarrow> watchGroup \<Rightarrow> string \<Rightarrow> nat \<Rightarrow> cfg_err + watchGroup" where
  "applyDirective F g line n =
     (case parseNeedEncryption line of
        Some value \<Rightarrow>
          (if value = ''true'' then Inr (g\<lparr>wg_needEncryption := True\<rparr>)
           else if value = ''false'' then Inr (g\<lparr>wg_needEncryption := False\<rparr>)
           else Inl (InvalidNeedEncryption n value))
      | None \<Rightarrow>
     (case parseAllowLib line of Some p \<Rightarrow> applyAllowLib F g p n | None \<Rightarrow>
     (case parseLibDir line of Some p \<Rightarrow> applyLibDir g p n | None \<Rightarrow>
     (case parseLibBinary line of Some v \<Rightarrow> applyLibBinary F g v n | None \<Rightarrow>
        applyBinary F g line n))))"

definition applyLibraryBlockDirective :: "fs \<Rightarrow> watchGroup \<Rightarrow> string \<Rightarrow> nat \<Rightarrow> cfg_err + watchGroup" where
  "applyLibraryBlockDirective F g line n =
     (case parseAllowLib line of Some p \<Rightarrow> applyAllowLib F g p n | None \<Rightarrow>
     (case parseLibDir line of Some p \<Rightarrow> applyLibDir g p n | None \<Rightarrow>
     (case parseLibBinary line of Some v \<Rightarrow> applyLibBinary F g v n | None \<Rightarrow>
        Inl (NotInLibraries n line))))"

definition insp_list :: "Config \<Rightarrow> string list" where
  "insp_list cfg = (case Inspectors cfg of None \<Rightarrow> [] | Some l \<Rightarrow> l)"

definition applyInspector :: "Config \<Rightarrow> string \<Rightarrow> nat \<Rightarrow> cfg_err + Config" where
  "applyInspector cfg line n =
     (case splitPathAndRest line of
        Inl _ \<Rightarrow> Inl (UnterminatedQuote n)
      | Inr (p, rest) \<Rightarrow>
          (if rest \<noteq> [] then Inl (InspectorRest n rest)
           else if \<not> IsAbs p then Inl (InspectorNotAbs n p)
           else let p = Clean p in
             if p \<in> set (insp_list cfg) then Inl (DuplicateInspector n p)
             else if length (insp_list cfg) \<ge> MaxInspectors then Inl (TooManyInspectors n)
             else Inr (cfg\<lparr>Inspectors := Some (insp_list cfg @ [p])\<rparr>)))"

definition applyElectronApp :: "Config \<Rightarrow> string \<Rightarrow> nat \<Rightarrow> cfg_err + Config" where
  "applyElectronApp cfg line n =
     (case splitPathAndRest line of
        Inl _ \<Rightarrow> Inl (UnterminatedQuote n)
      | Inr (p, rest) \<Rightarrow>
          (if rest \<noteq> [] then Inl (ElectronRest n rest)
           else if \<not> IsAbs p then Inl (ElectronNotAbs n p)
           else let p = Clean p in
             if length p > MaxElectronAppLen then Inl (ElectronTooLong n p)
             else if p \<in> set (ElectronApps cfg) then Inl (DuplicateElectron n p)
             else if length (ElectronApps cfg) \<ge> MaxElectronApps then Inl (TooManyElectron n)
             else Inr (cfg\<lparr>ElectronApps := ElectronApps cfg @ [p]\<rparr>)))"

definition applySetting :: "Config \<Rightarrow> string \<Rightarrow> nat \<Rightarrow> cfg_err + Config" where
  "applySetting cfg line n =
     (case Cut line (CHR '':'') of (k, v, ok) \<Rightarrow>
       (let key = TrimSpace k; value = TrimSpace v in
        if \<not> ok \<or> key = [] \<or> value = [] then Inl (SettingSyntax n line)
        else if key \<noteq> ''max_inodes'' then Inl (UnknownSetting n key)
        else if MaxInodes cfg \<noteq> 0 then Inl (DuplicateMaxInodes n)
        else case ParseUint32 value of
          None \<Rightarrow> Inl (MaxInodesNaN n value)
        | Some m \<Rightarrow> (if m < MaxInodesFloor \<or> m > MaxInodesCeiling then Inl (MaxInodesRange n m)
                     else Inr (cfg\<lparr>MaxInodes := m\<rparr>))))"

subsection \<open>The line loop\<close>

definition openBlock :: "Config \<Rightarrow> string \<Rightarrow> nat \<Rightarrow> (Config \<times> watchGroup) option" where
  "openBlock cfg line n =
     (case ParseLibrariesSection line of
        Some name \<Rightarrow> Some (cfg, (zero_group n)\<lparr>wg_libraryBlock := True, wg_blockName := name\<rparr>)
      | None \<Rightarrow>
          (if line = ''[inspectors]'' then
             Some (cfg\<lparr>Inspectors := Some (insp_list cfg)\<rparr>, (zero_group n)\<lparr>wg_inspectorsBlock := True\<rparr>)
           else if line = ''[electron_apps]'' then
             Some (cfg, (zero_group n)\<lparr>wg_electronAppsBlock := True\<rparr>)
           else if line = ''[settings]'' then
             Some (cfg, (zero_group n)\<lparr>wg_settingsBlock := True\<rparr>)
           else None))"

definition newWatchGroup :: "fs \<Rightarrow> string \<Rightarrow> nat \<Rightarrow> watchGroup" where
  "newWatchGroup F dirPath n = (zero_group n)\<lparr>wg_root := dirPath, wg_needEncryption := True,
     wg_skipped := (dirPath \<noteq> [] \<and> Lstat F dirPath = None)\<rparr>"

definition applyGroupLine :: "fs \<Rightarrow> Config \<Rightarrow> watchGroup \<Rightarrow> string \<Rightarrow> nat \<Rightarrow> cfg_err + Config \<times> watchGroup" where
  "applyGroupLine F cfg g line n =
     (if wg_libraryBlock g then rbind (applyLibraryBlockDirective F g line n) (\<lambda>g'. Inr (cfg, g'))
      else if wg_inspectorsBlock g then rbind (applyInspector cfg line n) (\<lambda>c. Inr (c, g))
      else if wg_electronAppsBlock g then rbind (applyElectronApp cfg line n) (\<lambda>c. Inr (c, g))
      else if wg_settingsBlock g then rbind (applySetting cfg line n) (\<lambda>c. Inr (c, g))
      else if wg_skipped g then Inr (cfg, g)
      else if isWatchDirective line then rbind (addWatchPath g line n) (\<lambda>g'. Inr (cfg, g'))
      else if wg_root g = [] then
        (case parsePathDirective line of
           Some p \<Rightarrow> Inr (cfg, g\<lparr>wg_root := p, wg_skipped := (wg_skipped g \<or> Lstat F p = None)\<rparr>)
         | None \<Rightarrow> Inr (cfg, g))
      else rbind (applyDirective F g line n) (\<lambda>g'. Inr (cfg, g')))"

definition applyConfigLine ::
    "fs \<Rightarrow> Config \<Rightarrow> watchGroup option \<Rightarrow> string \<Rightarrow> nat \<Rightarrow> cfg_err + Config \<times> watchGroup option" where
  "applyConfigLine F cfg grp line n =
     (case openBlock cfg line n of
        Some (cfg', next) \<Rightarrow> Inr (finalizeGroup F cfg' grp, Some next)
      | None \<Rightarrow>
          (case parseWatchSection line of
             Inl _ \<Rightarrow> Inl (MalformedHeader n line)
           | Inr (dirPath, isSection) \<Rightarrow>
               (if isSection then Inr (finalizeGroup F cfg grp, Some (newWatchGroup F dirPath n))
                else case grp of
                  None \<Rightarrow> Inr (cfg, None)
                | Some g \<Rightarrow> rbind (applyGroupLine F cfg g line n) (\<lambda>(c, g'). Inr (c, Some g')))))"

definition config_step ::
    "fs \<Rightarrow> Config \<times> watchGroup option \<Rightarrow> nat \<times> string \<Rightarrow> cfg_err + Config \<times> watchGroup option" where
  "config_step F s l = (case s of (cfg, grp) \<Rightarrow> case l of (n, text) \<Rightarrow>
     (let line = TrimSpace text in
      if line = [] \<or> HasPrefix line ''#'' then Inr (cfg, grp)
      else applyConfigLine F cfg grp line n))"

definition default_inspectors :: "Config \<Rightarrow> Config" where
  "default_inspectors cfg = (case Inspectors cfg of
     None \<Rightarrow> cfg\<lparr>Inspectors := Some DefaultInspectors, InspectorsDefault := True\<rparr>
   | Some _ \<Rightarrow> cfg)"

definition parseConfig :: "fs \<Rightarrow> Config \<Rightarrow> string \<Rightarrow> cfg_err + Config" where
  "parseConfig F cfg raw =
     (case scan_lines raw of (lines, tooLong) \<Rightarrow>
        rbind (rfold (config_step F) (cfg, None) (enumerate 1 lines))
          (\<lambda>(cfg', grp). if tooLong then Inl LineTooLong
             else Inr (default_inspectors (finalizeGroup F cfg' grp))))"

subsection \<open>Validation\<close>

definition resolved_path :: "fs \<Rightarrow> Resource \<Rightarrow> string" where
  "resolved_path F r = (case EvalSymlinks F (res_Path r) of Some t \<Rightarrow> t | None \<Rightarrow> Clean (res_Path r))"

fun first_duplicate :: "string list \<Rightarrow> Resource list \<Rightarrow> string option" where
  "first_duplicate seen [] = None"
| "first_duplicate seen (r # rs) = (if res_Path r \<in> set seen then Some (res_Path r)
     else first_duplicate (res_Path r # seen) rs)"

text \<open>The pair loop: the first \<open>i\<close>, then the first \<open>j\<close>, that clash.\<close>

definition pair_clash :: "fs \<Rightarrow> Resource list \<Rightarrow> nat \<Rightarrow> nat \<Rightarrow> cfg_err option" where
  "pair_clash F rs i j =
     (let a = resolved_path F (rs ! i); b = resolved_path F (rs ! j) in
      if i = j then None
      else if a = b then Some (SameDirectory (res_Path (rs ! i)) (res_Path (rs ! j)))
      else if isInsidePath a b then Some (NestedDirectory (res_Path (rs ! i)) (res_Path (rs ! j)))
      else None)"

definition first_clash :: "fs \<Rightarrow> Resource list \<Rightarrow> cfg_err option" where
  "first_clash F rs =
     (case List.map_filter (\<lambda>(i, j). pair_clash F rs i j)
             (List.product [0..<length rs] [0..<length rs]) of
        [] \<Rightarrow> None | e # _ \<Rightarrow> Some e)"

definition validateResources :: "fs \<Rightarrow> Config \<Rightarrow> cfg_err + Config" where
  "validateResources F cfg =
     (case first_duplicate [] (Resources cfg) of
        Some p \<Rightarrow> Inl (DuplicateResource p)
      | None \<Rightarrow> (case first_clash F (Resources cfg) of Some e \<Rightarrow> Inl e | None \<Rightarrow> Inr cfg))"

definition parse_config :: "fs \<Rightarrow> string \<Rightarrow> cfg_err + Config" where
  "parse_config F raw = rbind (parseConfig F (empty_config raw) raw) (validateResources F)"

subsection \<open>After the vaults are unlocked\<close>

fun resolve_pending :: "fs \<Rightarrow> Resource list \<Rightarrow> cfg_err + Resource list" where
  "resolve_pending F [] = Inr []"
| "resolve_pending F (r # rs) =
     (if res_PathPending r then
        (case validateWatchTarget F (res_Path r) (res_EncryptionRoot r) of
           Inl e \<Rightarrow>
             (if \<not> res_ReadOnly r then Inl (PendingTarget (res_Path r) (res_EncryptionRoot r) e)
              else resolve_pending F rs)
         | Inr _ \<Rightarrow> rbind (resolve_pending F rs) (\<lambda>ks. Inr (r\<lparr>res_PathPending := False\<rparr> # ks)))
      else rbind (resolve_pending F rs) (\<lambda>ks. Inr (r # ks)))"

definition ResolvePendingPaths :: "fs \<Rightarrow> Config \<Rightarrow> cfg_err + Config" where
  "ResolvePendingPaths F cfg =
     rbind (resolve_pending F (Resources cfg)) (\<lambda>kept. Inr (cfg\<lparr>Resources := kept\<rparr>))"

subsection \<open>Views of a configuration\<close>

fun encryption_groups :: "string list \<Rightarrow> Resource list \<Rightarrow> Resource list" where
  "encryption_groups seen [] = []"
| "encryption_groups seen (r # rs) =
     (if res_ReadOnly r then encryption_groups seen rs
      else let root = EncryptionRootOrPath r in
        if root \<in> set seen then encryption_groups seen rs
        else r # encryption_groups (root # seen) rs)"

definition EncryptionGroups :: "Config \<Rightarrow> Resource list" where
  "EncryptionGroups c = encryption_groups [] (Resources c)"

definition declared_of_line :: "string \<Rightarrow> string list" where
  "declared_of_line text =
     (let line = TrimSpace text in
      case parseWatchSection line of
        Inr (p, isSection) \<Rightarrow>
          (if isSection \<and> p \<noteq> [] then [p]
           else case parsePathDirective line of
             Some q \<Rightarrow> [q]
           | None \<Rightarrow> (if isWatchDirective line \<and> watchValue line \<noteq> [] then [Clean (watchValue line)] else []))
      | Inl _ \<Rightarrow>
          (case parsePathDirective line of
             Some q \<Rightarrow> [q]
           | None \<Rightarrow> (if isWatchDirective line \<and> watchValue line \<noteq> [] then [Clean (watchValue line)] else [])))"

definition DeclaredPaths :: "string \<Rightarrow> string list" where
  "DeclaredPaths raw = concat (map declared_of_line (fst (scan_lines raw)))"

text \<open>\<open>hash/fnv\<close>, 64-bit FNV-1a.\<close>

definition fnv64a :: "string \<Rightarrow> u64" where
  "fnv64a s = foldl (\<lambda>h c. (h XOR word_of_nat (of_char c)) * 1099511628211) 14695981039346656037 s"

definition writer_line :: "BinaryRule \<Rightarrow> string" where
  "writer_line b = bin_Path b @ [CHR 0x00] @ bin_Link b @ [CHR 0x00] @
     join_on '','' (sort (map EventType_String (bin_Events b)))"

definition MovePeer :: "Resource \<Rightarrow> u64" where
  "MovePeer r =
     (if \<not> res_ReadOnly r then 0
      else let lines = map writer_line (res_Binaries r @ res_PendingBinaries r) in
        if lines = [] then 0
        else fnv64a (concat (map (\<lambda>l. l @ [CHR 0x0A]) (remdups_adj (sort lines)))) OR 1)"

end
