(* ===== verification/Config_Facts.thy ===== *)
theory Config_Facts
  imports Daemon_Config "HOL-Library.Multiset"
begin

text \<open>
  What a configuration that parses guarantees: guarded roots never overlap, a \<open>lib_binary\<close> never
  reaches a protected tree, every enforced binary was resolved under confinement, the lists a
  kernel map must hold are bounded, and no protected path is lost after the vaults are unlocked.
  The lemmas follow the line loop: each directive keeps the invariant of the open group, closing a
  group turns it into the invariant of the resources.
\<close>

subsection \<open>Nesting of guarded roots\<close>

text \<open>What it means on the file system that a root governs a path, the root directory included.\<close>

definition governs :: "string \<Rightarrow> string \<Rightarrow> bool" where
  "governs root p = (p = root \<or> prefix (root @ ''/'') p \<or> root = ''/'' \<and> IsAbs p)"

lemma governs_isInsidePath: "root \<noteq> ''/'' \<Longrightarrow> governs root p \<longleftrightarrow> p = root \<or> isInsidePath p root"
  by (auto simp: governs_def isInsidePath_iff prefix_def)

lemma isInsidePath_comparable:
  assumes "p = a \<or> isInsidePath p a" and "p = b \<or> isInsidePath p b"
  shows "a = b \<or> isInsidePath a b \<or> isInsidePath b a"
proof -
  have "prefix (a @ ''/'') (p @ ''/'')" "prefix (b @ ''/'') (p @ ''/'')"
    using assms by (auto simp: isInsidePath_def)
  then have "prefix (a @ ''/'') (b @ ''/'') \<or> prefix (b @ ''/'') (a @ ''/'')"
    using prefix_same_cases by blast
  then show ?thesis by (auto simp: isInsidePath_def)
qed

lemma first_duplicate_None:
  "first_duplicate seen rs = None \<longleftrightarrow> distinct (map res_Path rs) \<and> set (map res_Path rs) \<inter> set seen = {}"
  by (induction rs arbitrary: seen) auto

lemma pair_clash_None:
  "pair_clash F rs i j = None \<longleftrightarrow> (i \<noteq> j \<longrightarrow> resolved_path F (rs ! i) \<noteq> resolved_path F (rs ! j) \<and>
     \<not> isInsidePath (resolved_path F (rs ! i)) (resolved_path F (rs ! j)))"
  by (simp add: pair_clash_def Let_def)

lemma first_clash_None:
  "first_clash F rs = None \<longleftrightarrow>
     (\<forall>i < length rs. \<forall>j < length rs. i \<noteq> j \<longrightarrow>
        resolved_path F (rs ! i) \<noteq> resolved_path F (rs ! j) \<and>
        \<not> isInsidePath (resolved_path F (rs ! i)) (resolved_path F (rs ! j)))"
proof -
  let ?ps = "List.product [0..<length rs] [0..<length rs]"
  have "first_clash F rs = None \<longleftrightarrow> List.map_filter (\<lambda>(i, j). pair_clash F rs i j) ?ps = []"
    by (simp add: first_clash_def split: list.split)
  also have "\<dots> \<longleftrightarrow> (\<forall>(i, j) \<in> set ?ps. pair_clash F rs i j = None)"
    by (auto simp: List.map_filter_def filter_empty_conv)
  also have "\<dots> \<longleftrightarrow> (\<forall>i < length rs. \<forall>j < length rs. pair_clash F rs i j = None)"
    by auto
  finally show ?thesis by (simp only: pair_clash_None)
qed

lemma validateResources_Inr:
  "validateResources F cfg = Inr cfg' \<longleftrightarrow> cfg' = cfg \<and> distinct (map res_Path (Resources cfg)) \<and>
     first_clash F (Resources cfg) = None"
  using first_duplicate_None [of "[]" "Resources cfg"]
  by (cases "first_duplicate [] (Resources cfg)"; cases "first_clash F (Resources cfg)")
     (auto simp: validateResources_def)

subsection \<open>The invariant of parsing\<close>

text \<open>A resolved rule names what \<open>ResolveConfined\<close> found for the configured path.\<close>

definition rule_resolved :: "fs \<Rightarrow> BinaryRule \<Rightarrow> bool" where
  "rule_resolved F b = (\<exists>c. StatOk F c \<and> ResolveConfined F c = Some (bin_Path b) \<and>
     bin_Link b = (if c = bin_Path b then [] else c))"

definition wf_group :: "fs \<Rightarrow> watchGroup \<Rightarrow> bool" where
  "wf_group F g \<longleftrightarrow>
     (\<forall>b \<in> set (wg_binaries g). rule_resolved F b \<and> \<not> bin_LibBinary b) \<and>
     (\<forall>b \<in> set (wg_pending g). \<not> bin_LibBinary b) \<and>
     (\<forall>b \<in> set (wg_libBinaries g). rule_resolved F b \<and> bin_Events b = []) \<and>
     (\<forall>b \<in> set (wg_libPending g). bin_Events b = [])"

definition wf_resource :: "fs \<Rightarrow> Resource \<Rightarrow> bool" where
  "wf_resource F r \<longleftrightarrow>
     (\<not> res_PathPending r \<longrightarrow> validateWatchTarget F (res_Path r) (res_EncryptionRoot r) = Inr ()) \<and>
     (res_PathPending r \<longrightarrow> Lstat F (res_Path r) = None \<and> res_NeedEncryption r) \<and>
     (\<forall>b \<in> set (res_Binaries r). rule_resolved F b) \<and>
     (\<forall>b \<in> set (res_Binaries r @ res_PendingBinaries r).
        if res_ReadOnly r then bin_Events b = [] else \<not> bin_LibBinary b)"

abbreviation wf_resources :: "fs \<Rightarrow> Config \<Rightarrow> bool" where
  "wf_resources F cfg \<equiv> list_all (wf_resource F) (Resources cfg)"

lemma wf_group_zero: "wf_group F (zero_group n)"
  by (simp add: wf_group_def zero_group_def)

lemma recordBinaryRule_new:
  assumes "recordBinaryRule F (new_rule p es l) = (r, ok)"
  shows "bin_Events r = es \<and> bin_LibBinary r = l \<and> (ok \<longrightarrow> rule_resolved F r)"
proof -
  have "bin_Events r = es \<and> bin_LibBinary r = l \<and> (ok \<longrightarrow> StatOk F p \<and>
      ResolveConfined F p = Some (bin_Path r) \<and> bin_Link r = (if p = bin_Path r then [] else p))"
    using assms unfolding recordBinaryRule_def new_rule_def
    by (cases "ResolveConfined F p"; cases "StatOk F p"; simp split: if_splits; fastforce)
  then show ?thesis unfolding rule_resolved_def by blast
qed

lemma applyAllowLib_wf: "applyAllowLib F g p n = Inr g' \<Longrightarrow> wf_group F g \<Longrightarrow> wf_group F g'"
  by (auto simp: applyAllowLib_def wf_group_def split: if_splits option.splits)

lemma applyLibDir_wf: "applyLibDir g p n = Inr g' \<Longrightarrow> wf_group F g \<Longrightarrow> wf_group F g'"
  by (auto simp: applyLibDir_def wf_group_def Let_def split: if_splits)

lemma addWatchPath_wf: "addWatchPath g l n = Inr g' \<Longrightarrow> wf_group F g \<Longrightarrow> wf_group F g'"
  by (auto simp: addWatchPath_def wf_group_def Let_def split: if_splits)

lemma applyLibBinary_wf: "applyLibBinary F g v n = Inr g' \<Longrightarrow> wf_group F g \<Longrightarrow> wf_group F g'"
  by (auto simp: applyLibBinary_def wf_group_def split: sum.splits if_splits prod.splits bool.splits
      dest!: recordBinaryRule_new)

lemma applyBinary_wf: "applyBinary F g v n = Inr g' \<Longrightarrow> wf_group F g \<Longrightarrow> wf_group F g'"
  by (auto simp: applyBinary_def wf_group_def split: sum.splits if_splits prod.splits bool.splits
      dest!: recordBinaryRule_new)

lemma applyDirective_wf: "applyDirective F g l n = Inr g' \<Longrightarrow> wf_group F g \<Longrightarrow> wf_group F g'"
  by (auto simp: applyDirective_def split: option.splits if_splits
      dest: applyAllowLib_wf applyLibDir_wf applyLibBinary_wf applyBinary_wf) (auto simp: wf_group_def)

lemma applyLibraryBlockDirective_wf:
  "applyLibraryBlockDirective F g l n = Inr g' \<Longrightarrow> wf_group F g \<Longrightarrow> wf_group F g'"
  by (auto simp: applyLibraryBlockDirective_def split: option.splits
      dest: applyAllowLib_wf applyLibDir_wf applyLibBinary_wf)

lemma wf_group_update [simp]:
  "wf_group F (g\<lparr>wg_root := p, wg_skipped := b\<rparr>) = wf_group F g"
  "wf_group F (g\<lparr>wg_root := p, wg_needEncryption := e, wg_skipped := b\<rparr>) = wf_group F g"
  "wf_group F (g\<lparr>wg_libraryBlock := b, wg_blockName := p\<rparr>) = wf_group F g"
  "wf_group F (g\<lparr>wg_inspectorsBlock := b\<rparr>) = wf_group F g"
  "wf_group F (g\<lparr>wg_electronAppsBlock := b\<rparr>) = wf_group F g"
  "wf_group F (g\<lparr>wg_settingsBlock := b\<rparr>) = wf_group F g"
  by (simp_all add: wf_group_def)

lemma wf_new_group: "wf_group F (newWatchGroup F p n)"
  by (simp add: newWatchGroup_def wf_group_zero)

lemma wf_openBlock: "openBlock cfg l n = Some (cfg', g) \<Longrightarrow> wf_group F g \<and> Resources cfg' = Resources cfg"
  by (auto simp: openBlock_def wf_group_zero split: option.splits if_splits)

lemma applyGroupLine_wf:
  assumes "applyGroupLine F cfg g l n = Inr (cfg', g')" and "wf_group F g"
  shows "wf_group F g' \<and> Resources cfg' = Resources cfg"
proof -
  have ins: "applyInspector cfg l n = Inr c \<Longrightarrow> Resources c = Resources cfg" for c
    by (auto simp: applyInspector_def Let_def split: sum.splits prod.splits if_splits)
  have ele: "applyElectronApp cfg l n = Inr c \<Longrightarrow> Resources c = Resources cfg" for c
    by (auto simp: applyElectronApp_def Let_def split: sum.splits prod.splits if_splits)
  have "applySetting cfg l n = Inr c \<Longrightarrow> Resources c = Resources cfg" for c
    by (auto simp: applySetting_def Let_def split: option.splits prod.splits if_splits)
  with ins ele show ?thesis using assms
    by (auto simp: applyGroupLine_def split: if_splits option.splits
        dest: applyDirective_wf applyLibraryBlockDirective_wf addWatchPath_wf)
qed

subsection \<open>Materializing keeps it\<close>

lemma upd_last_snoc [simp]:
  "upd_last f (cfg\<lparr>Resources := rs @ [r]\<rparr>) = cfg\<lparr>Resources := rs @ [f r]\<rparr>"
  by (simp add: upd_last_def)

lemma addResource_Some:
  "addResource F cfg p e = Some cfg' \<longleftrightarrow>
     validateWatchTarget F p e = Inr () \<and> cfg' = cfg\<lparr>Resources := Resources cfg @ [new_resource p]\<rparr>"
  by (auto simp: addResource_def split: sum.splits)

lemma deferPendingWatchPath_Some:
  "deferPendingWatchPath F cfg g p = Some cfg' \<longleftrightarrow>
     wg_needEncryption g \<and> Lstat F p = None \<and> Lstat F (wg_root g) = Some FDir \<and>
     cfg' = cfg\<lparr>Resources := Resources cfg @ [(new_resource p)\<lparr>res_PathPending := True\<rparr>]\<rparr>"
  by (auto simp: deferPendingWatchPath_def)

text \<open>One watch path adds nothing, or one resource: validated, or pending under a locked vault.\<close>

lemma materializeWatchPath_cases:
  obtains (skip) "materializeWatchPath F g grouped cfg p = cfg"
  | (add) "validateWatchTarget F p (if grouped then wg_root g else []) = Inr ()"
      "materializeWatchPath F g grouped cfg p =
         cfg\<lparr>Resources := Resources cfg @ [fill_watch g grouped (new_resource p)]\<rparr>"
  | (pend) "grouped" "wg_needEncryption g" "Lstat F p = None" "Lstat F (wg_root g) = Some FDir"
      "materializeWatchPath F g grouped cfg p = cfg\<lparr>Resources := Resources cfg @
         [fill_watch g grouped ((new_resource p)\<lparr>res_PathPending := True\<rparr>)]\<rparr>"
proof (cases "addResource F cfg p (if grouped then wg_root g else [])")
  case (Some c)
  with add show ?thesis by (auto simp: materializeWatchPath_def addResource_Some Let_def)
next
  case None
  show ?thesis
  proof (cases "grouped \<and> deferPendingWatchPath F cfg g p \<noteq> None")
    case True
    then obtain c where c: "grouped" "deferPendingWatchPath F cfg g p = Some c" by auto
    with None have "materializeWatchPath F g grouped cfg p = upd_last (fill_watch g grouped) c"
      by (simp add: materializeWatchPath_def Let_def)
    with c pend show ?thesis by (simp add: deferPendingWatchPath_Some)
  next
    case False
    with None skip show ?thesis by (auto simp: materializeWatchPath_def Let_def)
  qed
qed

lemma wf_fill_watch:
  assumes "wf_group F g" and "p = res_Path r" "\<not> res_ReadOnly r" "res_Binaries r = []" "res_PendingBinaries r = []"
    and "if res_PathPending r then wg_needEncryption g \<and> Lstat F (res_Path r) = None
         else validateWatchTarget F (res_Path r) (if grouped then wg_root g else res_EncryptionRoot r) = Inr ()"
  shows "wf_resource F (fill_watch g grouped r)"
  using assms by (auto simp: wf_resource_def fill_watch_def wf_group_def split: if_splits)

lemma materializeWatchPath_wf:
  assumes "wf_group F g" and "wf_resources F cfg"
  shows "wf_resources F (materializeWatchPath F g grouped cfg p)"
proof (cases rule: materializeWatchPath_cases [of F g grouped cfg p])
  case add
  moreover have "wf_resource F (fill_watch g grouped (new_resource p))"
    using assms(1) add(1) by (intro wf_fill_watch) (auto simp: new_resource_def)
  ultimately show ?thesis using assms(2) by simp
next
  case pend
  moreover have "wf_resource F (fill_watch g grouped ((new_resource p)\<lparr>res_PathPending := True\<rparr>))"
    using assms(1) pend by (intro wf_fill_watch) (auto simp: new_resource_def)
  ultimately show ?thesis using assms(2) by simp
qed (simp add: assms)

lemma findResource_Some: "findResource p rs = Some i \<Longrightarrow> i < length rs \<and> res_Path (rs ! i) = p"
  by (induction rs arbitrary: i) (auto split: if_splits)

lemma findResource_None: "findResource p rs = None \<longleftrightarrow> p \<notin> res_Path ` set rs"
  by (induction rs) auto

lemma wf_add_writers:
  assumes "wf_group F g" and "wf_resource F r" and "res_ReadOnly r"
  shows "wf_resource F (add_writers g r)"
  using assms by (auto simp: wf_resource_def add_writers_def wf_group_def libDirWriters_def)

lemma wf_pending_lib_dir: "Lstat F dir = None \<Longrightarrow> wf_resource F (pending_lib_dir dir vault)"
  by (simp add: pending_lib_dir_def wf_resource_def new_resource_def)

lemma materializeLibDir_wf:
  assumes g: "wf_group F g" and r: "wf_resources F cfg"
  shows "wf_resources F (materializeLibDir F g cfg dir)"
proof (cases "Lstat F dir")
  case None
  then show ?thesis using r
    by (auto simp: materializeLibDir_def Let_def intro!: wf_add_writers [OF g] wf_pending_lib_dir)
       (simp add: pending_lib_dir_def)
next
  case (Some k)
  show ?thesis
  proof (cases "findResource dir (Resources cfg)")
    case None
    have "validateWatchTarget F dir v = Inr () \<Longrightarrow> wf_resource F (add_writers g
        ((new_resource dir)\<lparr>res_NeedEncryption := b, res_EncryptionRoot := v, res_ReadOnly := True\<rparr>))" for b v
      by (rule wf_add_writers [OF g]) (auto simp: wf_resource_def new_resource_def)
    with Some None r show ?thesis
      by (auto simp: materializeLibDir_def Let_def addResource_Some split: option.splits)
  next
    case (Some i)
    with findResource_Some have i: "i < length (Resources cfg)" by blast
    with r have "wf_resource F (Resources cfg ! i)" by (simp add: list_all_length)
    then have "res_ReadOnly (Resources cfg ! i) \<Longrightarrow>
        list_all (wf_resource F) ((Resources cfg)[i := add_writers g (Resources cfg ! i)])"
      using r wf_add_writers [OF g] i by (auto simp: list_all_length nth_list_update)
    with Some \<open>Lstat F dir = Some k\<close> r show ?thesis by (simp add: materializeLibDir_def Let_def)
  qed
qed

lemma foldl_invariant: "I s \<Longrightarrow> (\<And>s x. I s \<Longrightarrow> x \<in> set xs \<Longrightarrow> I (f s x)) \<Longrightarrow> I (foldl f s xs)"
  by (induction xs arbitrary: s) auto

lemma materializeLibDirs_wf:
  "wf_group F g \<Longrightarrow> wf_resources F cfg \<Longrightarrow> wf_resources F (materializeLibDirs F cfg g)"
  unfolding materializeLibDirs_def by (rule foldl_invariant) (auto intro: materializeLibDir_wf)

lemma finalizeGroup_wf:
  assumes "wf_resources F cfg" and "\<And>g. grp = Some g \<Longrightarrow> wf_group F g"
  shows "wf_resources F (finalizeGroup F cfg grp)"
proof (cases grp)
  case (Some g)
  then have g: "wf_group F g" using assms(2) by simp
  have "wf_resources F (foldl (materializeWatchPath F g b) cfg ps)" for b ps
    using assms(1) by (rule foldl_invariant [where I = "\<lambda>c. wf_resources F c"]) (auto simp: materializeWatchPath_wf [OF g])
  with Some g assms(1) show ?thesis
    by (simp add: finalizeGroup_def materializeWatchGroup_def Let_def materializeLibDirs_wf)
qed (simp add: finalizeGroup_def assms)

subsection \<open>The line loop\<close>

text \<open>
  What a property of configurations needs to survive parsing: a companion property \<open>J\<close> of the open
  group, kept by every directive, and handed back when a group is closed. \<open>H\<close> restricts the
  section paths the text may name.
\<close>

locale line_loop =
  fixes F :: fs and I :: "Config \<Rightarrow> bool" and J :: "watchGroup \<Rightarrow> bool" and H :: "string \<Rightarrow> bool"
  assumes close: "I c \<Longrightarrow> J h \<Longrightarrow> I (finalizeGroup F c (Some h))"
    and default: "I c \<Longrightarrow> I (default_inspectors c)"
    and block: "I c \<Longrightarrow> openBlock c l n = Some (c', h) \<Longrightarrow> I c' \<and> J h"
    and header: "H p \<Longrightarrow> J (newWatchGroup F p n)"
    and directive: "I c \<Longrightarrow> J h \<Longrightarrow> applyGroupLine F c h l n = Inr (c', h') \<Longrightarrow> I c' \<and> J h'"
begin

definition state_ok :: "Config \<times> watchGroup option \<Rightarrow> bool" where
  "state_ok s = (I (fst s) \<and> (\<forall>h. snd s = Some h \<longrightarrow> J h))"

definition header_ok :: "string \<Rightarrow> bool" where
  "header_ok l = (\<forall>p. parseWatchSection (TrimSpace l) = Inr (p, True) \<longrightarrow> H p)"

lemma finalize_keeps: "state_ok (c, g) \<Longrightarrow> I (finalizeGroup F c g)"
  by (cases g) (simp_all add: state_ok_def close finalizeGroup_def [of F c None])

lemma applyConfigLine_keeps:
  assumes ok: "state_ok (c, g)" and hdr: "header_ok t" and a: "applyConfigLine F c g (TrimSpace t) n = Inr s'"
  shows "state_ok s'"
proof (cases "openBlock c (TrimSpace t) n")
  case (Some q)
  then obtain c' g' where q: "openBlock c (TrimSpace t) n = Some (c', g')" by (cases q) auto
  with a have s': "s' = (finalizeGroup F c' g, Some g')" by (simp add: applyConfigLine_def)
  from block [OF _ q] ok have "I c'" "J g'" by (auto simp: state_ok_def)
  with ok have "state_ok (c', g)" by (simp add: state_ok_def)
  from finalize_keeps [OF this] s' \<open>J g'\<close> show ?thesis by (simp add: state_ok_def)
next
  case None
  with a obtain p b where pw: "parseWatchSection (TrimSpace t) = Inr (p, b)"
    by (auto simp: applyConfigLine_def split: sum.splits)
  show ?thesis
  proof (cases b)
    case True
    with a None pw have s': "s' = (finalizeGroup F c g, Some (newWatchGroup F p n))"
      by (simp add: applyConfigLine_def)
    from hdr pw True have "J (newWatchGroup F p n)" by (auto simp: header_ok_def intro: header)
    with s' finalize_keeps [OF ok] show ?thesis by (simp add: state_ok_def)
  next
    case False
    show ?thesis
    proof (cases g)
      case None
      with a \<open>openBlock c _ n = None\<close> pw False ok show ?thesis by (simp add: applyConfigLine_def)
    next
      case (Some h)
      with a \<open>openBlock c _ n = None\<close> pw False obtain c' h' where
        d: "applyGroupLine F c h (TrimSpace t) n = Inr (c', h')" and s': "s' = (c', Some h')"
        by (auto simp: applyConfigLine_def)
      from Some ok have "I c" "J h" by (auto simp: state_ok_def)
      from directive [OF this d] s' show ?thesis by (simp add: state_ok_def)
    qed
  qed
qed

lemma config_step_keeps:
  "state_ok s \<Longrightarrow> header_ok (snd x) \<Longrightarrow> config_step F s x = Inr s' \<Longrightarrow> state_ok s'"
  by (cases s; cases x) (auto simp: config_step_def Let_def split: if_splits intro: applyConfigLine_keeps)

lemma parseConfig_keeps:
  assumes run: "parseConfig F cfg raw = Inr cfg'" and init: "I cfg"
    and hdr: "list_all header_ok (fst (scan_lines raw))"
  shows "I cfg'"
proof -
  obtain ls tl where sl: "scan_lines raw = (ls, tl)" by (cases "scan_lines raw")
  with run obtain s where r: "rfold (config_step F) (cfg, None) (enumerate 1 ls) = Inr s"
    and s: "(case s of (c, g) \<Rightarrow> if tl then Inl LineTooLong
      else Inr (default_inspectors (finalizeGroup F c g))) = Inr cfg'"
    unfolding parseConfig_def by (simp only: prod.case) (erule rbind_InrE)
  then have cfg': "cfg' = default_inspectors (finalizeGroup F (fst s) (snd s))"
    by (cases s) (simp split: if_splits)
  have hdrs: "header_ok (snd x)" if "x \<in> set (enumerate 1 ls)" for x
  proof -
    from that have "snd x \<in> snd ` set (enumerate 1 ls)" by blast
    then have "snd x \<in> set ls" by (metis list.set_map map_snd_enumerate)
    with hdr sl show ?thesis by (simp add: list_all_iff)
  qed
  have "state_ok (cfg, None)" using init by (simp add: state_ok_def)
  then have "state_ok s" by (rule rfold_invariant [OF r]) (rule config_step_keeps [OF _ hdrs])
  then have "state_ok (fst s, snd s)" by simp
  from default [OF finalize_keeps [OF this]] cfg' show ?thesis by simp
qed

lemma parse_config_keeps:
  assumes "parse_config F raw = Inr cfg" and "I (empty_config raw)"
    and "list_all header_ok (fst (scan_lines raw))"
  shows "I cfg"
  using assms parseConfig_keeps by (auto simp: parse_config_def validateResources_Inr)

end

subsection \<open>Resources\<close>

interpretation wf_loop: line_loop F "\<lambda>c. wf_resources F c" "wf_group F" "\<lambda>_. True" for F
proof
  show "wf_resources F (default_inspectors c)" if "wf_resources F c" for c
    using that by (simp add: default_inspectors_def split: option.splits)
qed (use wf_openBlock applyGroupLine_wf in \<open>fastforce intro: finalizeGroup_wf wf_new_group\<close>)+

lemma parse_config_wf: "parse_config F raw = Inr cfg \<Longrightarrow> wf_resources F cfg"
  by (rule wf_loop.parse_config_keeps) (simp_all add: empty_config_def wf_loop.header_ok_def list_all_iff)

subsection \<open>Vault confinement\<close>

definition is_block :: "watchGroup \<Rightarrow> bool" where
  "is_block g = (wg_libraryBlock g \<or> wg_inspectorsBlock g \<or> wg_electronAppsBlock g \<or> wg_settingsBlock g)"

definition group_confined :: "watchGroup \<Rightarrow> bool" where
  "group_confined g \<longleftrightarrow> (\<forall>p \<in> set (wg_watchPaths g). isInsidePath p (wg_root g)) \<and>
     (wg_root g = [] \<longrightarrow> is_block g)"

definition confined :: "Resource \<Rightarrow> bool" where
  "confined r \<longleftrightarrow> res_EncryptionRoot r = [] \<or> isInsidePath (res_Path r) (res_EncryptionRoot r)"

abbreviation all_confined :: "Config \<Rightarrow> bool" where
  "all_confined cfg \<equiv> list_all confined (Resources cfg)"

lemma vaultRoot_of_resources_inside:
  "vaultRoot_of_resources F dir rs \<noteq> [] \<Longrightarrow> isInsidePath dir (vaultRoot_of_resources F dir rs)"
  by (induction rs) (auto split: if_splits)

lemma vaultRootOf_inside: "vaultRootOf F cfg g dir = [] \<or> isInsidePath dir (vaultRootOf F cfg g dir)"
  using vaultRoot_of_resources_inside by (auto simp: vaultRootOf_def)

lemma confined_add_writers [simp]: "confined (add_writers g r) = confined r"
  by (simp add: confined_def add_writers_def)

lemma materializeLibDir_confined:
  assumes c: "all_confined cfg"
  shows "all_confined (materializeLibDir F g cfg dir)"
proof -
  let ?v = "vaultRootOf F cfg g dir"
  have v: "?v = [] \<or> isInsidePath dir ?v" by (rule vaultRootOf_inside)
  then have 1: "confined (pending_lib_dir dir ?v)"
    by (auto simp: confined_def pending_lib_dir_def new_resource_def)
  from v have 2: "confined ((new_resource dir)\<lparr>res_NeedEncryption := b, res_EncryptionRoot := ?v, res_ReadOnly := True\<rparr>)"
    for b by (auto simp: confined_def new_resource_def)
  have 3: "all_confined (cfg\<lparr>Resources := (Resources cfg)[i := add_writers g (Resources cfg ! i)]\<rparr>)"
    if "findResource dir (Resources cfg) = Some i" for i
    using c findResource_Some [OF that] by (auto simp: list_all_length nth_list_update)
  from c 1 2 3 show ?thesis
    by (auto simp: materializeLibDir_def Let_def addResource_Some split: option.splits)
qed

lemma materializeWatchPath_confined:
  assumes c: "all_confined cfg" and g: "grouped \<Longrightarrow> isInsidePath p (wg_root g)"
  shows "all_confined (materializeWatchPath F g grouped cfg p)"
proof -
  have "confined (fill_watch g grouped ((new_resource p)\<lparr>res_PathPending := b\<rparr>))" for b
    using g by (auto simp: confined_def fill_watch_def new_resource_def)
  from this [of True] this [of False]
  have f: "confined (fill_watch g grouped ((new_resource p)\<lparr>res_PathPending := True\<rparr>))"
      "confined (fill_watch g grouped (new_resource p))" by (simp_all add: new_resource_def)
  show ?thesis
    by (cases rule: materializeWatchPath_cases [of F g grouped cfg p]) (use c f in simp_all)
qed

lemma finalizeGroup_confined:
  assumes c: "all_confined cfg" and g: "group_confined g"
  shows "all_confined (finalizeGroup F cfg (Some g))"
proof -
  have lib: "all_confined (materializeLibDirs F c' g)" if "all_confined c'" for c'
    unfolding materializeLibDirs_def
    by (rule foldl_invariant [where I = "\<lambda>c. all_confined c"]) (simp_all add: that materializeLibDir_confined)
  have "all_confined (foldl (materializeWatchPath F g True) cfg (wg_watchPaths g))"
    using g by (intro foldl_invariant [where I = "\<lambda>c. all_confined c"] materializeWatchPath_confined c)
      (auto simp: group_confined_def)
  moreover have "all_confined (materializeWatchPath F g False cfg (wg_root g))"
    by (rule materializeWatchPath_confined [OF c]) simp
  ultimately show ?thesis
    using c by (simp add: finalizeGroup_def materializeWatchGroup_def Let_def lib)
qed

lemma applyGroupLine_Resources: "applyGroupLine F c g l n = Inr (c', g') \<Longrightarrow> Resources c' = Resources c"
  by (auto simp: applyGroupLine_def applyInspector_def applyElectronApp_def applySetting_def Let_def
      split: if_splits sum.splits prod.splits option.splits)

lemma applyDirective_shape:
  assumes "applyDirective F g l n = Inr g'"
  shows "wg_root g' = wg_root g \<and> wg_watchPaths g' = wg_watchPaths g \<and> is_block g' = is_block g"
  using assms
  by (auto simp: applyDirective_def applyAllowLib_def applyLibDir_def applyLibBinary_def applyBinary_def
      is_block_def Let_def split: option.splits sum.splits prod.splits if_splits bool.splits)

lemma applyLibraryBlockDirective_shape:
  assumes "applyLibraryBlockDirective F g l n = Inr g'"
  shows "wg_root g' = wg_root g \<and> wg_watchPaths g' = wg_watchPaths g \<and> is_block g' = is_block g"
  using assms
  by (auto simp: applyLibraryBlockDirective_def applyAllowLib_def applyLibDir_def applyLibBinary_def
      is_block_def Let_def split: option.splits sum.splits prod.splits if_splits bool.splits)

lemma addWatchPath_confined: "addWatchPath g l n = Inr g' \<Longrightarrow> group_confined g \<Longrightarrow> group_confined g'"
  by (auto simp: addWatchPath_def group_confined_def is_block_def Let_def split: if_splits)

lemma applyGroupLine_confined:
  assumes a: "applyGroupLine F c g l n = Inr (c', g')" and g: "group_confined g"
  shows "group_confined g'"
proof (cases "is_block g")
  case True
  with a g show ?thesis
    by (auto simp: applyGroupLine_def is_block_def group_confined_def split: if_splits
        dest!: applyLibraryBlockDirective_shape)
next
  case False
  with g have r: "wg_root g \<noteq> []" by (simp add: group_confined_def)
  from False have nb: "\<not> wg_libraryBlock g" "\<not> wg_inspectorsBlock g" "\<not> wg_electronAppsBlock g"
    "\<not> wg_settingsBlock g" by (auto simp: is_block_def)
  with a g r show ?thesis
    by (auto simp: applyGroupLine_def group_confined_def split: if_splits
        dest: applyDirective_shape addWatchPath_confined)
qed

interpretation confine: line_loop F "\<lambda>c. all_confined c" group_confined "\<lambda>p. p \<noteq> []" for F
proof
  show "all_confined (default_inspectors c)" if "all_confined c" for c
    using that by (simp add: default_inspectors_def split: option.splits)
  show "group_confined (newWatchGroup F p n)" if "p \<noteq> []" for p n
    using that by (simp add: group_confined_def newWatchGroup_def zero_group_def)
  show "all_confined c' \<and> group_confined h" if "all_confined c" "openBlock c l n = Some (c', h)" for c l n c' h
    using that by (auto simp: openBlock_def group_confined_def zero_group_def is_block_def
        split: option.splits if_splits)
  show "all_confined c' \<and> group_confined h'"
    if "all_confined c" "group_confined h" "applyGroupLine F c h l n = Inr (c', h')" for c h l n c' h'
    using that applyGroupLine_confined [OF that(3,2)] applyGroupLine_Resources [OF that(3)] by simp
qed (rule finalizeGroup_confined)

subsection \<open>Bounded lists\<close>

definition path_list :: "nat \<Rightarrow> string list \<Rightarrow> bool" where
  "path_list n ps \<longleftrightarrow> length ps \<le> n \<and> distinct ps \<and> list_all (\<lambda>p. IsAbs p \<and> Clean p = p) ps"

definition limits_ok :: "Config \<Rightarrow> bool" where
  "limits_ok cfg \<longleftrightarrow>
     (\<forall>l. Inspectors cfg = Some l \<longrightarrow> path_list MaxInspectors l) \<and>
     path_list MaxElectronApps (ElectronApps cfg) \<and>
     list_all (\<lambda>p. length p \<le> MaxElectronAppLen) (ElectronApps cfg) \<and>
     (MaxInodes cfg = 0 \<or> MaxInodesFloor \<le> MaxInodes cfg \<and> MaxInodes cfg \<le> MaxInodesCeiling)"

lemma path_list_snoc:
  "path_list n ps \<Longrightarrow> length ps < n \<Longrightarrow> IsAbs p \<Longrightarrow> Clean p \<notin> set ps \<Longrightarrow> path_list n (ps @ [Clean p])"
  by (simp add: path_list_def IsAbs_Clean Clean_idem)

lemma path_list_Nil [simp]: "path_list n []"
  by (simp add: path_list_def)

lemma path_list_insp: "limits_ok cfg \<Longrightarrow> path_list MaxInspectors (insp_list cfg)"
  by (simp add: limits_ok_def insp_list_def split: option.splits)

lemma applyInspector_limits:
  assumes "applyInspector cfg l n = Inr cfg'" and "limits_ok cfg"
  shows "limits_ok cfg'"
  using assms path_list_snoc [OF path_list_insp [OF assms(2)]]
  by (auto simp: applyInspector_def Let_def limits_ok_def split: sum.splits prod.splits if_splits)

lemma applyElectronApp_limits:
  assumes "applyElectronApp cfg l n = Inr cfg'" and "limits_ok cfg"
  shows "limits_ok cfg'"
  using assms path_list_snoc [of MaxElectronApps "ElectronApps cfg"]
  by (auto simp: applyElectronApp_def Let_def limits_ok_def split: sum.splits prod.splits if_splits)

lemma applySetting_limits:
  assumes "applySetting cfg l n = Inr cfg'" and "limits_ok cfg"
  shows "limits_ok cfg'"
  using assms by (auto simp: applySetting_def Let_def limits_ok_def split: option.splits prod.splits if_splits)

lemma limits_ok_cong:
  "Inspectors c = Inspectors d \<Longrightarrow> ElectronApps c = ElectronApps d \<Longrightarrow> MaxInodes c = MaxInodes d \<Longrightarrow>
     limits_ok c = limits_ok d"
  by (simp add: limits_ok_def)

lemma limits_ok_Resources [simp]:
  "limits_ok (c\<lparr>Resources := rs\<rparr>) = limits_ok c" "limits_ok (c\<lparr>SharedAllowLibs := ls\<rparr>) = limits_ok c"
  by (simp_all add: limits_ok_def)

lemma limits_ok_materialize [simp]:
  "limits_ok (materializeWatchPath F g b c p) = limits_ok c"
  "limits_ok (materializeLibDir F g c p) = limits_ok c"
  by (cases rule: materializeWatchPath_cases [of F g b c p], simp_all)
    (auto simp: materializeLibDir_def Let_def addResource_Some split: option.splits)

lemma limits_ok_foldl [simp]:
  "limits_ok (foldl (materializeWatchPath F g b) c ps) = limits_ok c"
  "limits_ok (foldl (materializeLibDir F g) c ps) = limits_ok c"
  by (induction ps arbitrary: c) simp_all

lemma finalizeGroup_limits: "limits_ok (finalizeGroup F c grp) = limits_ok c"
  by (simp add: finalizeGroup_def materializeWatchGroup_def materializeLibDirs_def Let_def split: option.splits)

lemma default_inspectors_limits: "limits_ok c \<Longrightarrow> limits_ok (default_inspectors c)"
  by (cases "Inspectors c")
     (simp_all add: default_inspectors_def limits_ok_def path_list_def DefaultInspectors_def MaxInspectors_def
       IsAbs_def Clean_def clean_comps_def clean_push.simps)

interpretation limits: line_loop F limits_ok "\<lambda>_. True" "\<lambda>_. True" for F
proof
  show "limits_ok c' \<and> True" if "limits_ok c" "openBlock c l n = Some (c', h)" for c l n c' h
    using that path_list_insp [OF that(1)]
    by (auto simp: openBlock_def limits_ok_def split: option.splits if_splits)
  show "limits_ok c' \<and> True"
    if "limits_ok c" "applyGroupLine F c h l n = Inr (c', h')" for c h l n c' h'
    using that by (auto simp: applyGroupLine_def split: if_splits option.splits
        dest: applyInspector_limits applyElectronApp_limits applySetting_limits)
qed (simp_all add: finalizeGroup_limits default_inspectors_limits)

subsection \<open>An example configuration\<close>

definition demo_fs :: fs where
  "demo_fs = \<lparr>Lstat = (\<lambda>p. if p \<in> {''/v'', ''/opt/l''} then Some FDir else None), StatOk = (\<lambda>p. p \<noteq> ''/x''),
     EvalSymlinks = Some, fs_kern = demo_kern, fs_homes = []\<rparr>"

definition demo_raw :: string where
  "demo_raw = join_on [CHR 0x0A] [''[watch /v]'', ''watch: /v/a'', ''/home/u READ'', ''/x'',
     ''lib_dir /opt/l'', ''lib_binary: /b'', ''[electron_apps]'', ''/e'']"

definition demo_cfg :: Config where
  "demo_cfg = \<lparr>Resources =
      [\<lparr>res_Path = ''/v/a'', res_NeedEncryption = True, res_EncryptionRoot = ''/v'',
        res_Binaries = [\<lparr>bin_Path = ''/home/u'', bin_Link = [], bin_Events = [EventRead], bin_LibBinary = False\<rparr>],
        res_PendingBinaries = [\<lparr>bin_Path = ''/x'', bin_Link = [], bin_Events = [], bin_LibBinary = False\<rparr>],
        res_AllowLibs = [], res_PendingLibs = [], res_ReadOnly = False, res_PathPending = True\<rparr>,
       \<lparr>res_Path = ''/opt/l'', res_NeedEncryption = False, res_EncryptionRoot = [],
        res_Binaries = [\<lparr>bin_Path = ''/home/u'', bin_Link = ''/b'', bin_Events = [], bin_LibBinary = True\<rparr>],
        res_PendingBinaries = [\<lparr>bin_Path = ''/x'', bin_Link = [], bin_Events = [], bin_LibBinary = False\<rparr>],
        res_AllowLibs = [], res_PendingLibs = [], res_ReadOnly = True, res_PathPending = False\<rparr>],
     SharedAllowLibs = [], Inspectors = Some DefaultInspectors, InspectorsDefault = True,
     ElectronApps = [''/e''], MaxInodes = 0, Raw = demo_raw\<rparr>"

lemma demo_parse: "parse_config demo_fs demo_raw = Inr demo_cfg"
  by code_simp

text \<open>After the unlock: the vault's directory is there.\<close>

definition demo_fs2 :: fs where
  "demo_fs2 = demo_fs\<lparr>Lstat := (\<lambda>p. if p \<in> {''/v'', ''/opt/l'', ''/v/a''} then Some FDir else None)\<rparr>"

lemma demo_unlock: "ResolvePendingPaths demo_fs2 demo_cfg =
    Inr (demo_cfg\<lparr>Resources := map (\<lambda>r. r\<lparr>res_PathPending := False\<rparr>) (Resources demo_cfg)\<rparr>)"
  by code_simp

subsection \<open>The theorems\<close>

text \<open>
  C18. In a configuration that parses, every path on the file system is governed by at most one
  guarded root, so a file follows exactly one whitelist. (Roots are compared after symlink
  resolution; the root directory itself is the exception, see \<open>root_directory_nests\<close>.)
\<close>

theorem guarded_roots_disjoint:
  assumes "parse_config F raw = Inr cfg" and "i < length (Resources cfg)" and "j < length (Resources cfg)"
    and "resolved_path F (Resources cfg ! i) \<noteq> ''/''" and "resolved_path F (Resources cfg ! j) \<noteq> ''/''"
    and "governs (resolved_path F (Resources cfg ! i)) p" and "governs (resolved_path F (Resources cfg ! j)) p"
  shows "i = j"
proof (rule ccontr)
  assume "i \<noteq> j"
  moreover have "first_clash F (Resources cfg) = None"
    using assms(1) by (auto simp: parse_config_def validateResources_Inr)
  ultimately show False
    using assms isInsidePath_comparable [of p "resolved_path F (Resources cfg ! i)" "resolved_path F (Resources cfg ! j)"]
    by (auto simp: first_clash_None governs_isInsidePath)
qed

theorem guarded_roots_disjoint_witness:
  "parse_config demo_fs demo_raw = Inr demo_cfg \<and> governs (resolved_path demo_fs (Resources demo_cfg ! 1)) ''/opt/l/f'' \<and>
   \<not> governs (resolved_path demo_fs (Resources demo_cfg ! 0)) ''/opt/l/f''"
proof -
  have r: "resolved_path demo_fs (Resources demo_cfg ! 0) = ''/v/a''"
    "resolved_path demo_fs (Resources demo_cfg ! Suc 0) = ''/opt/l''"
    by (simp_all add: resolved_path_def demo_fs_def demo_cfg_def)
  have "governs (resolved_path demo_fs (Resources demo_cfg ! 1)) ''/opt/l/f''"
    by (simp add: r governs_def)
  moreover have "\<not> governs (resolved_path demo_fs (Resources demo_cfg ! 0)) ''/opt/l/f''"
    using guarded_roots_disjoint [OF demo_parse, of 0 1 "''/opt/l/f''"] calculation
    by (auto simp: r) (simp add: demo_cfg_def)
  ultimately show ?thesis using demo_parse by blast
qed

lemma isInsidePath_root: "IsAbs p \<Longrightarrow> \<not> HasPrefix p ''//'' \<Longrightarrow> p \<noteq> ''/'' \<Longrightarrow> \<not> isInsidePath p ''/'' \<and> \<not> isInsidePath ''/'' p"
  by (cases p; cases "tl p") (auto simp: isInsidePath_iff IsAbs_def Cons_eq_append_conv)

text \<open>
  C34. The nesting check compares with a trailing slash, so nothing counts as inside the root directory: whatever
  configuration was accepted stays accepted when a resource for \<open>/\<close> is added to it, and every resource it had is then
  governed by two roots.
\<close>

theorem root_directory_nests:
  assumes "validateResources F cfg = Inr cfg" and root: "resolved_path F r = ''/''" "res_Path r \<notin> res_Path ` set (Resources cfg)"
    and others: "\<forall>q \<in> set (Resources cfg). IsAbs (resolved_path F q) \<and> \<not> HasPrefix (resolved_path F q) ''//'' \<and> resolved_path F q \<noteq> ''/''"
  shows "validateResources F (cfg\<lparr>Resources := Resources cfg @ [r]\<rparr>) = Inr (cfg\<lparr>Resources := Resources cfg @ [r]\<rparr>) \<and>
     (\<forall>q \<in> set (Resources cfg). governs (resolved_path F r) (resolved_path F q) \<and> governs (resolved_path F q) (resolved_path F q))"
proof
  let ?rs = "Resources cfg"
  have ok: "distinct (map res_Path ?rs)" "first_clash F ?rs = None" using assms(1) by (simp_all add: validateResources_Inr)
  have apart: "resolved_path F (?rs ! i) \<noteq> ''/''" "\<not> isInsidePath (resolved_path F (?rs ! i)) ''/''" "\<not> isInsidePath ''/'' (resolved_path F (?rs ! i))"
    if "i < length ?rs" for i
    using others isInsidePath_root [of "resolved_path F (?rs ! i)"] that by auto
  have "first_clash F (?rs @ [r]) = None"
    unfolding first_clash_None
  proof (intro allI impI)
    fix i j assume "i < length (?rs @ [r])" "j < length (?rs @ [r])" "i \<noteq> j"
    then consider "i < length ?rs" "j < length ?rs" | "i = length ?rs" "j < length ?rs" | "i < length ?rs" "j = length ?rs" by fastforce
    then show "resolved_path F ((?rs @ [r]) ! i) \<noteq> resolved_path F ((?rs @ [r]) ! j) \<and>
        \<not> isInsidePath (resolved_path F ((?rs @ [r]) ! i)) (resolved_path F ((?rs @ [r]) ! j))"
    proof cases
      case 1
      with \<open>i \<noteq> j\<close> ok(2) show ?thesis unfolding first_clash_None by (simp add: nth_append)
    next
      case 2
      with apart(1,3) [of j] root(1) show ?thesis by (auto simp: nth_append)
    next
      case 3
      with apart [of i] root(1) show ?thesis by (simp add: nth_append)
    qed
  qed
  with ok(1) root(2) show "validateResources F (cfg\<lparr>Resources := ?rs @ [r]\<rparr>) = Inr (cfg\<lparr>Resources := ?rs @ [r]\<rparr>)"
    by (auto simp: validateResources_Inr)
  show "\<forall>q \<in> set ?rs. governs (resolved_path F r) (resolved_path F q) \<and> governs (resolved_path F q) (resolved_path F q)"
    using others root(1) by (auto simp: governs_def)
qed

theorem root_directory_nests_witness:
  "validateResources demo_fs (demo_cfg\<lparr>Resources := [new_resource ''/home'', new_resource ''/'']\<rparr>) =
     Inr (demo_cfg\<lparr>Resources := [new_resource ''/home'', new_resource ''/'']\<rparr>)"
proof -
  let ?c = "demo_cfg\<lparr>Resources := [new_resource ''/home'']\<rparr>"
  have r: "resolved_path demo_fs (new_resource ''/'') = ''/''" "resolved_path demo_fs (new_resource ''/home'') = ''/home''" by code_simp+
  have "validateResources demo_fs ?c = Inr ?c" by code_simp
  from root_directory_nests [OF this r(1)] show ?thesis by (simp add: r(2) IsAbs_def) (simp add: new_resource_def)
qed

text \<open>
  C19. A \<open>lib_binary\<close> never becomes a whitelist entry of a protected tree, and the only binaries that
  may write a \<open>lib_dir\<close> are those without an event restriction: the whitelist of every resource is
  of one kind.
\<close>

theorem whitelists_scoped:
  assumes "parse_config F raw = Inr cfg" and "r \<in> set (Resources cfg)"
    and "b \<in> set (res_Binaries r) \<union> set (res_PendingBinaries r)"
  shows "if res_ReadOnly r then bin_Events b = [] else \<not> bin_LibBinary b"
  using parse_config_wf [OF assms(1)] assms(2,3) by (auto simp: list_all_iff wf_resource_def)

theorem whitelists_scoped_witness:
  "\<exists>r \<in> set (Resources demo_cfg). \<exists>b \<in> set (res_Binaries r). bin_LibBinary b \<and> res_ReadOnly r"
proof -
  let ?r = "Resources demo_cfg ! 1" and ?b = "res_Binaries (Resources demo_cfg ! 1) ! 0"
  have m: "?r \<in> set (Resources demo_cfg)" "?b \<in> set (res_Binaries ?r)" "bin_LibBinary ?b"
    by (simp_all add: demo_cfg_def)
  with whitelists_scoped [OF demo_parse m(1), of ?b] have "res_ReadOnly ?r" by (auto split: if_splits)
  with m show ?thesis by blast
qed

text \<open>
  C20. Fail closed: a binary is enforced as an exception only when its configured path could be
  read and resolved under confinement (the rule then names the resolved file, and the configured
  name is kept as its link); and a tree is guarded only after its path passed validation, or is
  marked pending because it is invisible in a locked vault.
\<close>

theorem enforced_is_validated:
  assumes "parse_config F raw = Inr cfg" and "r \<in> set (Resources cfg)"
  shows "(\<forall>b \<in> set (res_Binaries r). \<exists>c. StatOk F c \<and> ResolveConfined F c = Some (bin_Path b) \<and>
            bin_Link b = (if c = bin_Path b then [] else c)) \<and>
         (if res_PathPending r then Lstat F (res_Path r) = None \<and> res_NeedEncryption r
          else validateWatchTarget F (res_Path r) (res_EncryptionRoot r) = Inr ())"
  using parse_config_wf [OF assms(1)] assms(2)
  by (auto simp: list_all_iff wf_resource_def rule_resolved_def)

theorem enforced_is_validated_witness:
  "\<exists>r \<in> set (Resources demo_cfg). res_PathPending r \<and> Lstat demo_fs (res_Path r) = None"
proof -
  have m: "Resources demo_cfg ! 0 \<in> set (Resources demo_cfg)" and p: "res_PathPending (Resources demo_cfg ! 0)"
    by (simp_all add: demo_cfg_def)
  from enforced_is_validated [OF demo_parse m] m p show ?thesis by auto
qed

text \<open>
  C21. Every grouped tree lies strictly inside the encryption root that governs it, provided no
  section header is empty (\<open>[watch]\<close>).
\<close>

theorem watch_paths_in_vault:
  assumes "parse_config F raw = Inr cfg"
    and "\<forall>l \<in> set (fst (scan_lines raw)). parseWatchSection (TrimSpace l) \<noteq> Inr ([], True)"
    and "r \<in> set (Resources cfg)" and "res_EncryptionRoot r \<noteq> []"
  shows "isInsidePath (res_Path r) (res_EncryptionRoot r)"
proof -
  have "list_all confine.header_ok (fst (scan_lines raw))"
    using assms(2) by (auto simp: list_all_iff confine.header_ok_def)
  from confine.parse_config_keeps [OF assms(1) _ this] have "all_confined cfg"
    by (simp add: empty_config_def)
  with assms(3,4) show ?thesis by (auto simp: list_all_iff confined_def)
qed

lemma demo_headers:
  "\<forall>l \<in> set (fst (scan_lines demo_raw)). parseWatchSection (TrimSpace l) \<noteq> Inr ([], True)"
  by code_simp

theorem watch_paths_in_vault_witness:
  "\<exists>r \<in> set (Resources demo_cfg). res_EncryptionRoot r \<noteq> [] \<and> isInsidePath (res_Path r) (res_EncryptionRoot r)"
proof -
  have m: "Resources demo_cfg ! 0 \<in> set (Resources demo_cfg)" "res_EncryptionRoot (Resources demo_cfg ! 0) \<noteq> []"
    by (simp_all add: demo_cfg_def)
  from watch_paths_in_vault [OF demo_parse demo_headers m] m show ?thesis by blast
qed






text \<open>
  C29. The lists the kernel keeps in fixed-size maps are bounded by the parser: at most 16
  inspectors and 32 Electron apps, all absolute cleaned paths without repeats, each app short
  enough for the kernel's key, and an inode capacity inside its limits.
\<close>

theorem config_within_limits:
  assumes "parse_config F raw = Inr cfg"
  shows "length (insp_list cfg) \<le> 16 \<and> distinct (insp_list cfg) \<and>
     list_all (\<lambda>p. IsAbs p \<and> Clean p = p) (insp_list cfg) \<and>
     length (ElectronApps cfg) \<le> 32 \<and> distinct (ElectronApps cfg) \<and>
     list_all (\<lambda>p. IsAbs p \<and> Clean p = p \<and> length p < 44) (ElectronApps cfg) \<and>
     (MaxInodes cfg = 0 \<or> 2 ^ 15 \<le> MaxInodes cfg \<and> MaxInodes cfg \<le> 2 ^ 22)"
proof -
  have "limits_ok cfg"
    by (rule limits.parse_config_keeps [OF assms])
       (simp_all add: limits.header_ok_def limits_ok_def empty_config_def list_all_iff)
  with path_list_insp [OF this] show ?thesis
    by (simp add: limits_ok_def path_list_def MaxInspectors_def MaxElectronApps_def MaxElectronAppLen_def
        MaxInodesFloor_def MaxInodesCeiling_def list_all_iff) fastforce
qed

theorem config_within_limits_witness:
  "ElectronApps demo_cfg \<noteq> [] \<and> list_all (\<lambda>p. IsAbs p \<and> length p < 44) (ElectronApps demo_cfg)"
  using config_within_limits [OF demo_parse] by (simp add: list_all_iff) (simp add: demo_cfg_def)

lemma resolve_pending_Inr:
  assumes "resolve_pending F rs = Inr ks"
  shows "filter (\<lambda>r. \<not> res_ReadOnly r) ks =
       map (\<lambda>r. r\<lparr>res_PathPending := False\<rparr>) (filter (\<lambda>r. \<not> res_ReadOnly r) rs)"
    and "\<And>k. k \<in> set ks \<Longrightarrow> \<not> res_PathPending k \<and> (\<exists>r \<in> set rs. k = r\<lparr>res_PathPending := False\<rparr> \<and>
       (res_PathPending r \<longrightarrow> validateWatchTarget F (res_Path r) (res_EncryptionRoot r) = Inr ()))"
proof -
  have flag: "\<not> res_PathPending r \<Longrightarrow> r\<lparr>res_PathPending := False\<rparr> = r" for r :: Resource
    by simp
  have "filter (\<lambda>r. \<not> res_ReadOnly r) ks =
       map (\<lambda>r. r\<lparr>res_PathPending := False\<rparr>) (filter (\<lambda>r. \<not> res_ReadOnly r) rs) \<and>
     list_all (\<lambda>k. \<not> res_PathPending k \<and> (\<exists>r \<in> set rs. k = r\<lparr>res_PathPending := False\<rparr> \<and>
       (res_PathPending r \<longrightarrow> validateWatchTarget F (res_Path r) (res_EncryptionRoot r) = Inr ()))) ks"
    using assms
  proof (induction rs arbitrary: ks)
    case (Cons r rs)
    then show ?case using flag
      by (cases "res_PathPending r"; cases "validateWatchTarget F (res_Path r) (res_EncryptionRoot r)")
         (fastforce simp: list_all_iff split: if_splits)+
  qed simp
  then show "filter (\<lambda>r. \<not> res_ReadOnly r) ks =
       map (\<lambda>r. r\<lparr>res_PathPending := False\<rparr>) (filter (\<lambda>r. \<not> res_ReadOnly r) rs)"
    and "\<And>k. k \<in> set ks \<Longrightarrow> \<not> res_PathPending k \<and> (\<exists>r \<in> set rs. k = r\<lparr>res_PathPending := False\<rparr> \<and>
       (res_PathPending r \<longrightarrow> validateWatchTarget F (res_Path r) (res_EncryptionRoot r) = Inr ()))"
    by (auto simp: list_all_iff)
qed

text \<open>
  C23. After the vaults are unlocked no protected tree is silently lost: when \<open>ResolvePendingPaths\<close>
  succeeds, exactly the protected trees of the configuration remain, in order, with the pending
  mark cleared; whatever was pending has passed validation now.
\<close>

theorem pending_paths_never_lost:
  assumes "ResolvePendingPaths F cfg = Inr cfg'"
  shows "filter (\<lambda>r. \<not> res_ReadOnly r) (Resources cfg') =
       map (\<lambda>r. r\<lparr>res_PathPending := False\<rparr>) (filter (\<lambda>r. \<not> res_ReadOnly r) (Resources cfg)) \<and>
     (\<forall>k \<in> set (Resources cfg'). \<not> res_PathPending k \<and> (\<exists>r \<in> set (Resources cfg).
        k = r\<lparr>res_PathPending := False\<rparr> \<and>
        (res_PathPending r \<longrightarrow> validateWatchTarget F (res_Path r) (res_EncryptionRoot r) = Inr ())))"
proof -
  from assms obtain ks where ks: "resolve_pending F (Resources cfg) = Inr ks" "Resources cfg' = ks"
    unfolding ResolvePendingPaths_def by auto
  from resolve_pending_Inr [OF ks(1)] show ?thesis unfolding ks(2) by blast
qed

theorem pending_paths_never_lost_witness:
  "\<exists>cfg'. ResolvePendingPaths demo_fs2 demo_cfg = Inr cfg' \<and>
     map res_Path (filter (\<lambda>r. \<not> res_ReadOnly r) (Resources cfg')) = [''/v/a'']"
proof (intro exI conjI)
  show "map res_Path (filter (\<lambda>r. \<not> res_ReadOnly r) (Resources (demo_cfg\<lparr>Resources :=
      map (\<lambda>r. r\<lparr>res_PathPending := False\<rparr>) (Resources demo_cfg)\<rparr>))) = [''/v/a'']"
    by (subst pending_paths_never_lost [OF demo_unlock, THEN conjunct1]) (simp add: demo_cfg_def)
qed (rule demo_unlock)

subsection \<open>Derived views\<close>

text \<open>What a writer rule says, up to the order in which its events are listed.\<close>

definition writer_key :: "BinaryRule \<Rightarrow> string \<times> string \<times> event_type multiset" where
  "writer_key b = (bin_Path b, bin_Link b, mset (bin_Events b))"

lemma writer_line_key: "writer_key a = writer_key b \<Longrightarrow> writer_line a = writer_line b"
  by (auto simp: writer_key_def writer_line_def intro!: arg_cong [where f = "join_on _"] properties_for_sort)

lemma writer_lines_key:
  "writer_key ` A = writer_key ` B \<Longrightarrow> writer_line ` A = writer_line ` B"
proof -
  have "writer_key ` A \<subseteq> writer_key ` B \<Longrightarrow> writer_line ` A \<subseteq> writer_line ` B" for A B
    using writer_line_key by (smt (verit) image_iff subset_eq)
  then show "writer_key ` A = writer_key ` B \<Longrightarrow> writer_line ` A = writer_line ` B" by blast
qed

text \<open>
  C30. The move-peer class of a \<open>lib_dir\<close> depends only on its set of writers: two resources whose
  writers are the same rules, in any order and with any repeats, share the class. It is zero exactly
  for a resource that is no \<open>lib_dir\<close> or has no writers.
\<close>

theorem MovePeer_class:
  assumes "res_ReadOnly r = res_ReadOnly s"
    and "writer_key ` set (res_Binaries r @ res_PendingBinaries r) =
         writer_key ` set (res_Binaries s @ res_PendingBinaries s)"
  shows "MovePeer r = MovePeer s \<and>
    (MovePeer r = 0 \<longleftrightarrow> \<not> res_ReadOnly r \<or> res_Binaries r @ res_PendingBinaries r = [])"
proof -
  have or1: "x OR 1 \<noteq> 0" for x :: u64
    by (metis even_or_iff even_zero odd_one)
  have "set (map writer_line (res_Binaries r @ res_PendingBinaries r)) =
      set (map writer_line (res_Binaries s @ res_PendingBinaries s))"
    using writer_lines_key [OF assms(2)] by (simp only: set_map)
  then have "remdups_adj (sort (map writer_line (res_Binaries r @ res_PendingBinaries r))) =
      remdups_adj (sort (map writer_line (res_Binaries s @ res_PendingBinaries s)))"
    unfolding sort_compact by simp
  moreover have "res_Binaries r @ res_PendingBinaries r = [] \<longleftrightarrow> res_Binaries s @ res_PendingBinaries s = []"
    using assms(2) by auto
  ultimately show ?thesis using assms(1) or1 unfolding MovePeer_def Let_def by (simp del: append_is_Nil_conv map_append)
qed

theorem MovePeer_class_witness:
  "let r = Resources demo_cfg ! 1; s = r\<lparr>res_Binaries := res_Binaries r @ res_Binaries r\<rparr> in
     MovePeer r = MovePeer s \<and> MovePeer r \<noteq> 0"
proof -
  let ?r = "Resources demo_cfg ! 1"
  have ro: "res_ReadOnly ?r" "res_Binaries ?r \<noteq> []" by (simp_all add: demo_cfg_def)
  have "MovePeer ?r = MovePeer (?r\<lparr>res_Binaries := res_Binaries ?r @ res_Binaries ?r\<rparr>) \<and>
      (MovePeer ?r = 0 \<longleftrightarrow> \<not> res_ReadOnly ?r \<or> res_Binaries ?r @ res_PendingBinaries ?r = [])"
    by (rule MovePeer_class) auto
  with ro show ?thesis unfolding Let_def by (metis append_is_Nil_conv)
qed

lemma encryption_groups_spec:
  "subseq (encryption_groups seen rs) rs \<and>
    distinct (map EncryptionRootOrPath (encryption_groups seen rs)) \<and>
    EncryptionRootOrPath ` set (encryption_groups seen rs) =
      EncryptionRootOrPath ` {r \<in> set rs. \<not> res_ReadOnly r} - set seen \<and>
    list_all (\<lambda>r. find (\<lambda>q. \<not> res_ReadOnly q \<and> EncryptionRootOrPath q = EncryptionRootOrPath r) rs = Some r)
      (encryption_groups seen rs)"
proof (induction rs arbitrary: seen)
  case (Cons r rs)
  show ?case
  proof (cases "res_ReadOnly r \<or> EncryptionRootOrPath r \<in> set seen")
    case True
    with Cons [of seen] show ?thesis by (auto simp: Let_def list_all_iff)
  next
    case False
    let ?g = "encryption_groups (EncryptionRootOrPath r # seen) rs"
    from False have g: "encryption_groups seen (r # rs) = r # ?g" by (simp add: Let_def)
    have "EncryptionRootOrPath r \<notin> EncryptionRootOrPath ` set ?g"
      using Cons [of "EncryptionRootOrPath r # seen"] by auto
    with Cons [of "EncryptionRootOrPath r # seen"] False show ?thesis
      unfolding g by (auto simp: list_all_iff)
  qed
qed simp

text \<open>
  C31. \<open>EncryptionGroups\<close> lists, in configuration order and once per encryption root, the first
  protected resource of every root, and leaves the read-only trees out.
\<close>

theorem EncryptionGroups_correct:
  "subseq (EncryptionGroups c) (Resources c) \<and>
   distinct (map EncryptionRootOrPath (EncryptionGroups c)) \<and>
   EncryptionRootOrPath ` set (EncryptionGroups c) = EncryptionRootOrPath ` {r \<in> set (Resources c). \<not> res_ReadOnly r} \<and>
   list_all (\<lambda>r. find (\<lambda>q. \<not> res_ReadOnly q \<and> EncryptionRootOrPath q = EncryptionRootOrPath r) (Resources c) = Some r)
     (EncryptionGroups c)"
  using encryption_groups_spec [of "[]" "Resources c"] by (simp add: EncryptionGroups_def)

end
