(* ===== verification/Exe_Key.thy ===== *)
theory Exe_Key
  imports Confined_Open
begin

text \<open>
  Binary identities (\<open>internal/guard/multicall.go\<close>): an executable is known by its inode; the
  process of a uutils multicall additionally carries its applet in bits 32 to 47 of the device
  number, so that each applet is a whitelist identity of its own. The applet registry numbers the
  names for the life of the process. What \<open>ClassifyMulticall\<close> says of an open file is a parameter.
\<close>

subsection \<open>Keys\<close>

record GuardInodeKey =
  Dev :: u64
  Ino :: u64

definition mcTagMask :: u64 where "mcTagMask = push_bit 32 0xffff"
definition mcTagNone :: u32 where "mcTagNone = 0xffff"

definition Real :: "GuardInodeKey \<Rightarrow> GuardInodeKey" where
  "Real k = k\<lparr>Dev := Dev k AND NOT mcTagMask\<rparr>"

definition tagged :: "GuardInodeKey \<Rightarrow> bool" where
  "tagged k = (Dev k AND mcTagMask \<noteq> 0)"

definition withTag :: "GuardInodeKey \<Rightarrow> u32 \<Rightarrow> GuardInodeKey" where
  "withTag k tag = k\<lparr>Dev := (Dev k AND NOT mcTagMask) OR push_bit 32 (ucast tag)\<rparr>"

definition Unattested :: "GuardInodeKey \<Rightarrow> GuardInodeKey" where
  "Unattested k = withTag k mcTagNone"

subsection \<open>The applet registry\<close>

record mcRegistry =
  mc_tags :: "(string, u32) gomap"
  mc_builds :: "(GuardInodeKey, string list) gomap"

definition appletTag :: "mcRegistry \<Rightarrow> string \<Rightarrow> u32 option \<times> mcRegistry" where
  "appletTag R name =
     (case map_of (mc_tags R) name of
        Some t \<Rightarrow> (Some t, R)
      | None \<Rightarrow>
          (let t = word_of_nat (length (mc_tags R)) + 1 in
           if t \<ge> mcTagNone then (None, R)
           else (Some t, R\<lparr>mc_tags := AList.update name t (mc_tags R)\<rparr>)))"

definition registerBuild :: "mcRegistry \<Rightarrow> GuardInodeKey \<Rightarrow> string list \<Rightarrow> mcRegistry" where
  "registerBuild R file applets = R\<lparr>mc_builds := AList.update file applets (mc_builds R)\<rparr>"

definition buildOf :: "mcRegistry \<Rightarrow> GuardInodeKey \<Rightarrow> string list option" where
  "buildOf R file = map_of (mc_builds R) file"

fun name_tags :: "mcRegistry \<Rightarrow> string list \<Rightarrow> (string, u32) gomap \<Rightarrow> (string, u32) gomap option \<times> mcRegistry" where
  "name_tags R [] out = (Some out, R)"
| "name_tags R (a # as) out =
     (case appletTag R a of (None, R') \<Rightarrow> (None, R')
      | (Some t, R') \<Rightarrow> name_tags R' as (AList.update a t out))"

definition MulticallNameTags :: "mcRegistry \<Rightarrow> GuardInodeKey \<Rightarrow> (string, u32) gomap option \<times> mcRegistry" where
  "MulticallNameTags R file =
     (case buildOf R file of None \<Rightarrow> (None, R) | Some applets \<Rightarrow> name_tags R applets [])"

text \<open>The kernel's applet-name key: at most 15 bytes, padded with zeros.\<close>

definition MC_NAME :: nat where "MC_NAME = 16"

definition mcNameKey :: "GuardInodeKey \<Rightarrow> string \<Rightarrow> GuardInodeKey \<times> string" where
  "mcNameKey file name = (let n = take (MC_NAME - 1) name in
     (file, n @ replicate (MC_NAME - length n) (CHR 0x00)))"

subsection \<open>Resolving a path to its key\<close>

datatype MulticallKind = SingleBinary | OpaqueMulticall | UutilsMulticall

record Multicall =
  mc_Kind :: MulticallKind
  mc_Applets :: "string list"

record exe_env =
  x_kern :: kern
  x_homes :: "string list"
  x_Classify :: "nat \<Rightarrow> Multicall option" \<comment> \<open>\<open>ClassifyMulticall\<close> of an open file\<close>

datatype exe_err = ExeOpen open_err | ExeStat | ExeChanged | ExeClassify | ExeReadlink
  | OpaqueRefused | NotAnApplet string | TooManyApplets

definition StatFile :: "kern \<Rightarrow> nat \<Rightarrow> nat \<Rightarrow> GuardInodeKey option" where
  "StatFile k t f = map_option (\<lambda>st. \<lparr>Dev = KernelDev (st_Major st) (st_Minor st), Ino = st_Ino st\<rparr>) (k_Fstat k t f)"

definition exe_file :: "exe_env \<Rightarrow> string \<Rightarrow> nat option \<Rightarrow> GuardInodeKey \<Rightarrow> exe_err + nat" where
  "exe_file X path f file =
     (case f of
        Some fd \<Rightarrow> Inr fd
      | None \<Rightarrow>
          (case OpenConfined (x_kern X) (x_homes X) path of
             Inl e \<Rightarrow> Inl (ExeOpen e)
           | Inr fd \<Rightarrow>
               (case StatFile (x_kern X) (walk_end path) fd of
                  None \<Rightarrow> Inl ExeStat
                | Some k \<Rightarrow> (if k \<noteq> file then Inl ExeChanged else Inr fd))))"

definition ExeKey ::
    "exe_env \<Rightarrow> mcRegistry \<Rightarrow> string \<Rightarrow> nat option \<Rightarrow> GuardInodeKey \<Rightarrow> (exe_err + GuardInodeKey) \<times> mcRegistry" where
  "ExeKey X R path f file =
     (case exe_file X path f file of
        Inl e \<Rightarrow> (Inl e, R)
      | Inr fd \<Rightarrow>
          (case x_Classify X fd of
             None \<Rightarrow> (Inl ExeClassify, R)
           | Some m \<Rightarrow>
               (case mc_Kind m of
                  SingleBinary \<Rightarrow> (Inr file, R)
                | OpaqueMulticall \<Rightarrow> (Inl OpaqueRefused, R)
                | UutilsMulticall \<Rightarrow>
                    (case k_Readlink (x_kern X) (walk_end path) fd of
                       None \<Rightarrow> (Inl ExeReadlink, R)
                     | Some resolved \<Rightarrow>
                         (let name = Base path in
                          if Base resolved \<noteq> name \<or> name \<notin> set (mc_Applets m) then (Inl (NotAnApplet name), R)
                          else case appletTag R name of
                            (None, R') \<Rightarrow> (Inl TooManyApplets, R')
                          | (Some tag, R') \<Rightarrow>
                              (Inr (withTag file tag), registerBuild R' file (mc_Applets m)))))))"

definition IsMulticallRefusal :: "exe_err \<Rightarrow> bool" where
  "IsMulticallRefusal e = (case e of OpaqueRefused \<Rightarrow> True | NotAnApplet _ \<Rightarrow> True | _ \<Rightarrow> False)"

definition MulticallRefusal :: "exe_env \<Rightarrow> mcRegistry \<Rightarrow> string \<Rightarrow> exe_err option \<times> mcRegistry" where
  "MulticallRefusal X R path =
     (case OpenConfined (x_kern X) (x_homes X) path of
        Inl _ \<Rightarrow> (None, R)
      | Inr fd \<Rightarrow>
          (case StatFile (x_kern X) (walk_end path) fd of
             None \<Rightarrow> (None, R)
           | Some key \<Rightarrow>
               (case ExeKey X R path (Some fd) key of
                  (Inl e, R') \<Rightarrow> (if IsMulticallRefusal e then (Some e, R') else (None, R'))
                | (Inr _, R') \<Rightarrow> (None, R'))))"

subsection \<open>Facts on keys\<close>

lemma bit_mcTagMask: "bit mcTagMask n \<longleftrightarrow> 32 \<le> n \<and> n < 48"
proof -
  have "(0xffff :: u64) = mask 16" by (simp add: mask_eq_exp_minus_1)
  then show ?thesis
    unfolding mcTagMask_def by (simp only: bit_push_bit_iff bit_mask_iff possible_bit_word) auto
qed

lemma bit_ucast_tag: "bit (push_bit 32 (ucast (t :: u32)) :: u64) n \<longleftrightarrow> 32 \<le> n \<and> bit t (n - 32)"
  by (auto simp: bit_push_bit_iff bit_simps dest: bit_imp_le_length)

lemma Real_Real [simp]: "Real (Real k) = Real k"
  by (simp add: Real_def)

lemma not_tagged_Real [simp]: "\<not> tagged (Real k)"
  by (simp add: tagged_def Real_def) (rule bit_word_eqI, simp add: bit_simps bit_mcTagMask)

lemma Real_untagged: "\<not> tagged k \<Longrightarrow> Real k = k"
proof -
  assume "\<not> tagged k"
  then have z: "Dev k AND mcTagMask = 0" by (simp add: tagged_def)
  have "Dev k AND NOT mcTagMask = Dev k"
  proof (rule bit_word_eqI)
    fix n
    from z have "\<not> bit (Dev k AND mcTagMask) n" by simp
    then show "bit (Dev k AND NOT mcTagMask) n = bit (Dev k) n" if "n < LENGTH(64)"
      using that by (auto simp: bit_simps)
  qed
  then show ?thesis by (simp add: Real_def)
qed

lemma tag_high_bits:
  assumes "unat (t :: u32) < 2 ^ 16" and "bit t n"
  shows "n < 16"
proof (rule ccontr)
  assume "\<not> n < 16"
  then have "(2 :: nat) ^ 16 \<le> 2 ^ n" by (intro power_increasing) auto
  with assms(1) have "unat t div 2 ^ n = 0" by (simp add: div_less)
  moreover from assms(2) have "bit (unat t) n" by (simp add: bit_unsigned_iff bit_imp_le_length)
  ultimately show False by (simp add: bit_iff_odd)
qed

lemma Real_withTag: "unat t < 2 ^ 16 \<Longrightarrow> Real (withTag k t) = Real k"
proof -
  assume t: "unat t < 2 ^ 16"
  have "((Dev k AND NOT mcTagMask) OR push_bit 32 (ucast t)) AND NOT mcTagMask = Dev k AND NOT mcTagMask"
    by (rule bit_word_eqI) (use tag_high_bits [OF t] in \<open>force simp: bit_simps bit_mcTagMask bit_ucast_tag\<close>)
  then show ?thesis by (simp add: Real_def withTag_def)
qed

lemma withTag_bits: "unat t < 2 ^ 16 \<Longrightarrow> n < 16 \<Longrightarrow> bit (Dev (withTag k t)) (n + 32) = bit t n"
  by (auto simp: withTag_def bit_simps bit_mcTagMask bit_ucast_tag)

text \<open>A tag names one applet: files and tags are both recovered from the tagged key.\<close>

lemma withTag_inject:
  assumes t: "unat t < 2 ^ 16" and u: "unat u < 2 ^ 16" and eq: "withTag k t = withTag l u"
  shows "Real k = Real l" and "t = u"
proof -
  from eq show "Real k = Real l" using Real_withTag [OF t, of k] Real_withTag [OF u, of l] by simp
  show "t = u"
  proof (rule bit_word_eqI)
    fix n assume "n < LENGTH(32)"
    show "bit t n = bit u n"
    proof (cases "n < 16")
      case True
      with withTag_bits [OF t True, of k] withTag_bits [OF u True, of l] eq show ?thesis by simp
    next
      case False
      with tag_high_bits [OF t] tag_high_bits [OF u] show ?thesis by blast
    qed
  qed
qed

lemma tagged_withTag:
  assumes "unat t < 2 ^ 16" and "t \<noteq> 0"
  shows "tagged (withTag k t)"
proof -
  from assms(2) obtain n where n: "bit t n" by (metis bit_0_eq bit_eq_iff bot_apply bot_bool_def)
  with tag_high_bits [OF assms(1)] have "n < 16" by blast
  with withTag_bits [OF assms(1), of n k] n have "bit (Dev (withTag k t) AND mcTagMask) (n + 32)"
    by (simp add: bit_and_iff bit_mcTagMask)
  then show ?thesis by (auto simp: tagged_def)
qed

subsection \<open>Facts on the registry\<close>

text \<open>Names are numbered from 1 in the order they are first seen.\<close>

definition reg_ok :: "mcRegistry \<Rightarrow> bool" where
  "reg_ok R \<longleftrightarrow> gm_wf (mc_tags R) \<and> length (mc_tags R) < 2 ^ 16 - 1 \<and>
     map snd (mc_tags R) = map word_of_nat [1..<Suc (length (mc_tags R))]"

lemma update_fresh: "k \<notin> fst ` set m \<Longrightarrow> AList.update k v m = m @ [(k, v)]"
  by (induction m) auto

lemma reg_ok_empty: "reg_ok \<lparr>mc_tags = [], mc_builds = B\<rparr>"
  by (simp add: reg_ok_def)

lemma next_tag:
  assumes "n < 2 ^ 16 - 1"
  shows "(word_of_nat n + 1 :: u32) = word_of_nat (Suc n)" and "unat (word_of_nat (Suc n) :: u32) = Suc n"
    and "mcTagNone \<le> word_of_nat (Suc n) \<longleftrightarrow> Suc n = 2 ^ 16 - 1"
proof -
  show "(word_of_nat n + 1 :: u32) = word_of_nat (Suc n)" by simp
  show u: "unat (word_of_nat (Suc n) :: u32) = Suc n"
    using assms by (simp only: unat_of_nat) (simp add: take_bit_nat_eq_self)
  show "mcTagNone \<le> word_of_nat (Suc n) \<longleftrightarrow> Suc n = 2 ^ 16 - 1"
    using assms u by (simp add: word_le_nat_alt mcTagNone_def del: of_nat_Suc) linarith
qed

lemma appletTag_ok:
  assumes "reg_ok R" and "appletTag R name = (r, R')"
  shows "reg_ok R' \<and> map_of (mc_tags R) \<subseteq>\<^sub>m map_of (mc_tags R') \<and>
     (\<forall>t. r = Some t \<longrightarrow> map_of (mc_tags R') name = Some t)"
proof (cases "map_of (mc_tags R) name")
  case (Some t)
  with assms show ?thesis by (auto simp: appletTag_def)
next
  case None
  let ?n = "length (mc_tags R)"
  have n: "?n < 2 ^ 16 - 1" using assms(1) by (simp add: reg_ok_def)
  from None have fresh: "name \<notin> fst ` set (mc_tags R)" by (simp add: map_of_eq_None_iff)
  show ?thesis
  proof (cases "Suc ?n = 2 ^ 16 - 1")
    case True
    with None assms n next_tag [OF n] have "R' = R \<and> r = None" by (auto simp: appletTag_def Let_def)
    with assms(1) show ?thesis by simp
  next
    case False
    with None assms next_tag [OF n] have r: "r = Some (word_of_nat (Suc ?n))"
        "R' = R\<lparr>mc_tags := mc_tags R @ [(name, word_of_nat (Suc ?n))]\<rparr>"
      by (auto simp: appletTag_def Let_def update_fresh [OF fresh])
    with assms(1) n False fresh None show ?thesis by (auto simp: reg_ok_def map_le_def map_add_def)
  qed
qed

lemma reg_tag_range:
  assumes "reg_ok R" and "map_of (mc_tags R) name = Some t"
  shows "unat t < 2 ^ 16 - 1" and "t \<noteq> 0"
proof -
  from assms(2) have "t \<in> set (map snd (mc_tags R))" by (force dest: map_of_SomeD)
  with assms(1) have "t \<in> word_of_nat ` set [1..<Suc (length (mc_tags R))]"
    by (simp add: reg_ok_def del: upt_Suc set_map) (simp add: list.set_map del: upt_Suc)
  then obtain n where n: "t = word_of_nat n" "1 \<le> n" "n \<le> length (mc_tags R)"
    by (auto simp del: upt_Suc)
  moreover from n assms(1) have l: "n < 2 ^ 16 - 1" by (simp add: reg_ok_def)
  ultimately have "unat t = n" by (simp add: unat_of_nat take_bit_nat_eq_self)
  with n l show "unat t < 2 ^ 16 - 1" and "t \<noteq> 0" by auto
qed

lemma reg_tag_inject:
  assumes "reg_ok R" and "map_of (mc_tags R) a = Some t" and "map_of (mc_tags R) b = Some t"
  shows "a = b"
proof -
  have inj: "inj_on (word_of_nat :: nat \<Rightarrow> u32) {..<2 ^ 16}"
  proof (rule inj_onI)
    fix a b :: nat assume a: "a \<in> {..<2 ^ 16}" "b \<in> {..<2 ^ 16}" "(word_of_nat a :: u32) = word_of_nat b"
    from a(1,2) have u: "unat (word_of_nat a :: u32) = a" "unat (word_of_nat b :: u32) = b"
      by (simp_all add: unat_of_nat take_bit_nat_eq_self)
    from arg_cong [OF a(3), of unat] show "a = b" unfolding u .
  qed
  have "set [1..<Suc (length (mc_tags R))] \<subseteq> {..<2 ^ 16}"
    using assms(1) by (auto simp: reg_ok_def simp del: upt_Suc)
  with inj have "distinct (map (word_of_nat :: nat \<Rightarrow> u32) [1..<Suc (length (mc_tags R))])"
    by (simp add: distinct_map inj_on_subset del: upt_Suc)
  with assms(1) have "inj_on snd (set (mc_tags R))" by (metis reg_ok_def distinct_map)
  moreover from assms(2,3) have "(a, t) \<in> set (mc_tags R)" "(b, t) \<in> set (mc_tags R)"
    by (simp_all add: map_of_SomeD)
  ultimately show "a = b" by (metis inj_onD prod.inject snd_conv)
qed

lemma ExeKey_cases:
  assumes "ExeKey X R path f file = (Inr k, R')" and "reg_ok R"
  shows "reg_ok R' \<and> map_of (mc_tags R) \<subseteq>\<^sub>m map_of (mc_tags R') \<and>
     (k = file \<or> (\<exists>t. map_of (mc_tags R') (Base path) = Some t \<and> k = withTag file t))"
proof -
  have reg: "reg_ok (registerBuild S fl as) = reg_ok S" "mc_tags (registerBuild S fl as) = mc_tags S" for S fl as
    by (simp_all add: registerBuild_def reg_ok_def)
  from assms(1) consider "k = file" "R' = R"
    | t S as where "appletTag R (Base path) = (Some t, S)" "k = withTag file t" "R' = registerBuild S file as"
    by (fastforce simp: ExeKey_def Let_def split: sum.splits option.splits MulticallKind.splits if_splits prod.splits)
  then show ?thesis
  proof cases
    case 1
    with assms(2) show ?thesis by simp
  next
    case 2
    with appletTag_ok [OF assms(2) 2(1)] show ?thesis by (auto simp: reg)
  qed
qed

text \<open>
  C17. Applet identities are exact: whenever two multicall paths are resolved, however much later and
  whatever was registered in between, their whitelist keys are equal exactly when the file and the
  applet name are; the key leads back to the file; and it is never the key of a process whose
  applet the kernel could not attest.
\<close>

theorem applet_identity:
  assumes "reg_ok R" and "ExeKey X R p1 h1 f1 = (Inr k1, R1)"
    and "reg_ok S" and "map_of (mc_tags R1) \<subseteq>\<^sub>m map_of (mc_tags S)" and "ExeKey Y S p2 h2 f2 = (Inr k2, S')"
    and "\<not> tagged f1" and "\<not> tagged f2" and "tagged k1" and "tagged k2"
  shows "(k1 = k2 \<longleftrightarrow> f1 = f2 \<and> Base p1 = Base p2) \<and> Real k1 = f1 \<and> k1 \<noteq> Unattested f2"
proof -
  from ExeKey_cases [OF assms(2,1)] assms(6,8) obtain t where
    t: "map_of (mc_tags R1) (Base p1) = Some t" "k1 = withTag f1 t" by auto
  from ExeKey_cases [OF assms(5,3)] assms(7,9) obtain u where
    u: "map_of (mc_tags S') (Base p2) = Some u" "k2 = withTag f2 u" and S': "reg_ok S'"
    and le: "map_of (mc_tags S) \<subseteq>\<^sub>m map_of (mc_tags S')" by auto
  from map_le_trans [OF assms(4) le] t(1) have t': "map_of (mc_tags S') (Base p1) = Some t"
    by (metis domI map_le_def)
  note rt = reg_tag_range [OF S' t'] and ru = reg_tag_range [OF S' u(1)]
  then have t16: "unat t < 2 ^ 16" and u16: "unat u < 2 ^ 16" by simp_all
  have real: "Real k1 = f1" using Real_withTag [OF t16] t(2) Real_untagged assms(6) by simp
  have eq: "f1 = f2 \<and> Base p1 = Base p2" if "k1 = k2"
  proof -
    from withTag_inject [OF t16 u16] that t(2) u(2) have "Real f1 = Real f2" "t = u" by auto
    with reg_tag_inject [OF S' t'] u(1) Real_untagged assms(6,7) show ?thesis by auto
  qed
  have "unat mcTagNone < 2 ^ 16" by (simp add: mcTagNone_def)
  then have una: "k1 \<noteq> Unattested f2"
    using withTag_inject(2) [OF t16, of mcTagNone f1 f2] rt(1) t(2) by (auto simp: Unattested_def mcTagNone_def)
  have "k1 = k2" if "f1 = f2 \<and> Base p1 = Base p2" using that t(2) u t' by simp
  with eq have "k1 = k2 \<longleftrightarrow> f1 = f2 \<and> Base p1 = Base p2" by (rule iffI)
  with real una show ?thesis by simp
qed

definition demo_exe :: exe_env where
  "demo_exe = \<lparr>x_kern = demo_kern\<lparr>k_Readlink := (\<lambda>t fd. Some ''/bin/cat'')\<rparr>, x_homes = [],
     x_Classify = (\<lambda>fd. Some \<lparr>mc_Kind = UutilsMulticall, mc_Applets = [''cat'', ''ls'']\<rparr>)\<rparr>"

definition demo_reg :: mcRegistry where
  "demo_reg = \<lparr>mc_tags = [], mc_builds = []\<rparr>"

definition demo_file :: GuardInodeKey where
  "demo_file = \<lparr>Dev = 8, Ino = 7\<rparr>"

lemma demo_ExeKey:
  "ExeKey demo_exe demo_reg ''/bin/cat'' (Some 3) demo_file = (Inr (withTag demo_file 1),
     \<lparr>mc_tags = [(''cat'', 1)], mc_builds = [(demo_file, [''cat'', ''ls''])]\<rparr>)"
  by (simp add: ExeKey_def exe_file_def demo_exe_def Base_def appletTag_def demo_reg_def mcTagNone_def
      registerBuild_def Let_def word_le_nat_alt)

lemma demo_ExeKey_again:
  "ExeKey demo_exe \<lparr>mc_tags = [(''cat'', 1)], mc_builds = [(demo_file, [''cat'', ''ls''])]\<rparr> ''/bin/cat'' (Some 3)
     demo_file = (Inr (withTag demo_file 1),
       \<lparr>mc_tags = [(''cat'', 1)], mc_builds = [(demo_file, [''cat'', ''ls''])]\<rparr>)"
  by (simp add: ExeKey_def exe_file_def demo_exe_def Base_def appletTag_def registerBuild_def Let_def)

theorem applet_identity_witness:
  "\<exists>k R. ExeKey demo_exe demo_reg ''/bin/cat'' (Some 3) demo_file = (Inr k, R) \<and> tagged k \<and> Real k = demo_file"
proof -
  have tg: "tagged (withTag demo_file 1)" by (rule tagged_withTag) simp_all
  have nt: "\<not> tagged demo_file" by (simp add: tagged_def mcTagMask_def demo_file_def)
  have r0: "reg_ok demo_reg" unfolding demo_reg_def by (rule reg_ok_empty)
  from ExeKey_cases [OF demo_ExeKey r0] have r1: "reg_ok \<lparr>mc_tags = [(''cat'', 1)], mc_builds = [(demo_file, [''cat'', ''ls''])]\<rparr>"
    by blast
  from applet_identity [OF r0 demo_ExeKey r1 map_le_refl demo_ExeKey_again nt nt tg tg] demo_ExeKey tg
  show ?thesis by blast
qed

end
