(* ===== verification/Taint_Plan.thy ===== *)
theory Taint_Plan
  imports Exe_Key
begin

text \<open>
  The pure planning part of \<open>internal/guard/taintset.go\<close>: which slot judges the processes of a
  whitelisted binary. A binary of one resource is judged by that resource; one that several
  whitelist is judged by the set of exactly those, whose whitelist is the intersection of theirs.
\<close>

abbreviation (input) GUARD_BLOCK :: u8 where "GUARD_BLOCK \<equiv> 1"
abbreviation (input) GUARD_ALLOW :: u8 where "GUARD_ALLOW \<equiv> 2"
abbreviation (input) GUARD_ALLOW_ROOT :: u8 where "GUARD_ALLOW_ROOT \<equiv> 3"

type_synonym allow_set = "(GuardInodeKey, u8) gomap"
type_synonym allow_table = "(nat, allow_set) gomap"

record resInfo =
  ri_path :: string
  ri_readonly :: bool

record taintOwner =
  to_res :: nat
  to_setKey :: string

subsection \<open>Definitions\<close>

definition setKeyOf :: "string list \<Rightarrow> string" where
  "setKeyOf paths = join_on [CHR 0x00] paths"

definition setPaths :: "string \<Rightarrow> string list" where
  "setPaths key = split_on (CHR 0x00) key"

text \<open>The resources allowing each binary, in the order the tables are read.\<close>

definition add_member :: "nat \<Rightarrow> (GuardInodeKey, nat list) gomap \<Rightarrow> GuardInodeKey \<Rightarrow> (GuardInodeKey, nat list) gomap" where
  "add_member res members exe =
     AList.update exe ((case map_of members exe of None \<Rightarrow> [] | Some rs \<Rightarrow> rs) @ [res]) members"

definition taint_members :: "allow_table \<Rightarrow> (nat, resInfo) gomap \<Rightarrow> (GuardInodeKey, nat list) gomap" where
  "taint_members allows info =
     foldl (\<lambda>members (res, s). if map_of info res = None then members
       else foldl (add_member res) members (map fst s)) [] allows"

definition owner_of :: "(nat, resInfo) gomap \<Rightarrow> nat list \<Rightarrow> taintOwner" where
  "owner_of info members =
     (let rs = sort members;
          taint = filter (\<lambda>r. \<not> ri_readonly (the (map_of info r))) rs in
      case taint of
        [] \<Rightarrow> \<lparr>to_res = hd rs, to_setKey = []\<rparr>
      | [r] \<Rightarrow> \<lparr>to_res = r, to_setKey = []\<rparr>
      | _ \<Rightarrow> \<lparr>to_res = 0, to_setKey =
               setKeyOf (remdups_adj (sort (map (\<lambda>r. ri_path (the (map_of info r))) taint)))\<rparr>)"

definition planTaintOwners :: "allow_table \<Rightarrow> (nat, resInfo) gomap \<Rightarrow> (GuardInodeKey, taintOwner) gomap" where
  "planTaintOwners allows info = map (\<lambda>(exe, rs). (exe, owner_of info rs)) (taint_members allows info)"

definition intersect2 :: "allow_set \<Rightarrow> allow_set \<Rightarrow> allow_set" where
  "intersect2 acc s =
     List.map_filter (\<lambda>(k, a). case map_of s k of
         None \<Rightarrow> None
       | Some other \<Rightarrow>
           Some (k, if other = GUARD_ALLOW_ROOT \<or> a = GUARD_ALLOW_ROOT then GUARD_ALLOW_ROOT else a)) acc"

fun intersectAllows :: "allow_set list \<Rightarrow> allow_set" where
  "intersectAllows [] = []"
| "intersectAllows (s # ss) = foldl intersect2 s ss"

definition isSubset :: "string list \<Rightarrow> string list \<Rightarrow> bool" where
  "isSubset a b = list_all (\<lambda>p. p \<in> set b) a"

text \<open>One row per used set and member: its live resources, and the used sets it covers.\<close>

definition planMemberRows :: "(string, nat) gomap \<Rightarrow> (nat, resInfo) gomap \<Rightarrow> nat list \<Rightarrow> (nat \<times> nat) list" where
  "planMemberRows sets info used =
     remdups (concat (map (\<lambda>(key, slot).
       if slot \<notin> set used then []
       else map (\<lambda>(res, _). (slot, res)) (filter (\<lambda>(_, ri). ri_path ri \<in> set (setPaths key)) info) @
            map (\<lambda>(_, other). (slot, other))
              (filter (\<lambda>(otherKey, other). other \<in> set used \<and> other \<noteq> slot \<and> isSubset (setPaths otherKey) (setPaths key)) sets))
       sets))"

definition add_real :: "allow_set \<Rightarrow> GuardInodeKey \<times> u8 \<Rightarrow> allow_set" where
  "add_real cp ka = (case ka of (k, a) \<Rightarrow>
     if tagged k \<and> map_of cp (Real k) = None then AList.update (Real k) a cp else cp)"

definition withRealKeys :: "allow_table \<Rightarrow> allow_table" where
  "withRealKeys allows = map (\<lambda>(res, s). (res, foldl add_real s s)) allows"

subsection \<open>Intersections\<close>

lemma map_of_intersect2:
  "map_of (intersect2 acc s) k =
     (case map_of acc k of None \<Rightarrow> None | Some a \<Rightarrow>
        (case map_of s k of None \<Rightarrow> None
         | Some b \<Rightarrow> Some (if b = GUARD_ALLOW_ROOT \<or> a = GUARD_ALLOW_ROOT then GUARD_ALLOW_ROOT else a)))"
  if "gm_wf acc"
  using that
proof (induction acc)
  case (Cons p acc)
  obtain k' a' where p: "p = (k', a')" by (cases p)
  from Cons.prems p have "map_of acc k' = None" by (auto simp: map_of_eq_None_iff)
  with Cons p show ?case by (auto simp: intersect2_def List.map_filter_def split: option.splits)
qed (simp add: intersect2_def List.map_filter_def)

lemma gm_wf_intersect2: "gm_wf acc \<Longrightarrow> gm_wf (intersect2 acc s)"
proof (induction acc)
  case (Cons p acc)
  obtain k a where p: "p = (k, a)" by (cases p)
  have sub: "fst ` set (intersect2 acc s) \<subseteq> fst ` set acc"
    by (force simp: intersect2_def List.map_filter_def split: option.splits)
  show ?case
  proof (cases "map_of s k")
    case None
    with Cons p show ?thesis by (simp add: intersect2_def List.map_filter_def)
  next
    case (Some b)
    with p have "map fst (intersect2 (p # acc) s) = k # map fst (intersect2 acc s)"
      by (simp add: intersect2_def List.map_filter_def)
    with Cons p sub show ?thesis by auto
  qed
qed (simp add: intersect2_def List.map_filter_def)

lemma foldl_intersect2:
  assumes "gm_wf s"
  shows "(map_of (foldl intersect2 s ss) k = None \<longleftrightarrow> map_of s k = None \<or> (\<exists>t \<in> set ss. map_of t k = None)) \<and>
    (\<forall>a. map_of (foldl intersect2 s ss) k = Some a \<longrightarrow>
       a = (if \<exists>t \<in> set (s # ss). map_of t k = Some GUARD_ALLOW_ROOT then GUARD_ALLOW_ROOT
            else the (map_of s k)))"
  using assms
proof (induction ss arbitrary: s)
  case (Cons t ss)
  show ?case
    using Cons.IH [OF gm_wf_intersect2 [OF Cons.prems, of t]]
    by (auto simp: map_of_intersect2 [OF Cons.prems] split: option.splits if_splits)
qed auto

text \<open>What an action admits: a root-only allow needs uid 0.\<close>

definition grants :: "u8 \<Rightarrow> bool \<Rightarrow> bool" where
  "grants a root = (a = GUARD_ALLOW \<or> a = GUARD_ALLOW_ROOT \<and> root)"

definition admits :: "allow_set \<Rightarrow> GuardInodeKey \<Rightarrow> bool \<Rightarrow> bool" where
  "admits s k root = (case map_of s k of None \<Rightarrow> False | Some a \<Rightarrow> grants a root)"

definition allow_actions :: "allow_set \<Rightarrow> bool" where
  "allow_actions s = (gm_wf s \<and> list_all (\<lambda>(k, a). a = GUARD_ALLOW \<or> a = GUARD_ALLOW_ROOT) s)"

lemma allow_actions_lookup: "allow_actions s \<Longrightarrow> map_of s k = Some a \<Longrightarrow> a = GUARD_ALLOW \<or> a = GUARD_ALLOW_ROOT"
  by (auto simp: allow_actions_def list_all_iff dest!: map_of_SomeD)

lemma admits_intersect2:
  assumes "allow_actions s" and "allow_actions t"
  shows "admits (intersect2 s t) k root \<longleftrightarrow> admits s k root \<and> admits t k root"
    and "allow_actions (intersect2 s t)"
proof -
  show "admits (intersect2 s t) k root \<longleftrightarrow> admits s k root \<and> admits t k root"
    using assms allow_actions_lookup [OF assms(1), of k] allow_actions_lookup [OF assms(2), of k]
    by (auto simp: admits_def map_of_intersect2 allow_actions_def grants_def split: option.splits)
  have "list_all (\<lambda>(k, a). a = GUARD_ALLOW \<or> a = GUARD_ALLOW_ROOT) (intersect2 s t)"
    using assms(1) by (auto simp: allow_actions_def list_all_iff intersect2_def List.map_filter_def split: option.splits)
  with assms(1) show "allow_actions (intersect2 s t)" by (simp add: allow_actions_def gm_wf_intersect2)
qed

lemma admits_foldl:
  assumes "allow_actions s" and "list_all allow_actions ss"
  shows "admits (foldl intersect2 s ss) k root \<longleftrightarrow> list_all (\<lambda>t. admits t k root) (s # ss)"
  using assms
proof (induction ss arbitrary: s)
  case (Cons t ss)
  then have t: "allow_actions t" "list_all allow_actions ss" by simp_all
  from Cons.IH [OF admits_intersect2(2) [OF Cons.prems(1) t(1)] t(2)] admits_intersect2(1) [OF Cons.prems(1) t(1)]
  show ?case by auto
qed simp

text \<open>
  C24. The intersection whitelist of several resources admits a process exactly when there is at
  least one resource and every one of them admits it, root-only allows included: a decision that
  belongs to several resources is never weaker than any of theirs.
\<close>

theorem intersectAllows_exact:
  assumes "list_all allow_actions sets"
  shows "admits (intersectAllows sets) k root \<longleftrightarrow> sets \<noteq> [] \<and> list_all (\<lambda>s. admits s k root) sets"
proof (cases sets)
  case (Cons s ss)
  with assms admits_foldl [of s ss] show ?thesis by simp
qed (simp add: admits_def)

theorem intersectAllows_exact_witness:
  "admits (intersectAllows [[(demo_file, GUARD_ALLOW)], [(demo_file, GUARD_ALLOW_ROOT)]]) demo_file True \<and>
   \<not> admits (intersectAllows [[(demo_file, GUARD_ALLOW)], [(demo_file, GUARD_ALLOW_ROOT)]]) demo_file False"
  using intersectAllows_exact [of "[[(demo_file, GUARD_ALLOW)], [(demo_file, GUARD_ALLOW_ROOT)]]" demo_file]
  by (simp add: allow_actions_def admits_def grants_def)

subsection \<open>Taint owners\<close>

definition old_rows :: "(GuardInodeKey, nat list) gomap \<Rightarrow> GuardInodeKey \<Rightarrow> nat list" where
  "old_rows m exe = (case map_of m exe of None \<Rightarrow> [] | Some rs \<Rightarrow> rs)"

lemma foldl_add_member:
  "distinct ks \<Longrightarrow> map_of (foldl (add_member res) m ks) exe =
     (if exe \<in> set ks then Some (old_rows m exe @ [res]) else map_of m exe)"
  by (induction ks arbitrary: m) (auto simp: add_member_def old_rows_def)

text \<open>The live resources whose whitelist has the binary, in table order.\<close>

definition allowing :: "allow_table \<Rightarrow> (nat, resInfo) gomap \<Rightarrow> GuardInodeKey \<Rightarrow> nat list" where
  "allowing allows info exe =
     map fst (filter (\<lambda>(r, s). map_of info r \<noteq> None \<and> map_of s exe \<noteq> None) allows)"

lemma taint_members_lookup:
  assumes "list_all (\<lambda>(r, s). gm_wf s) allows"
  shows "map_of (taint_members allows info) exe =
     (if allowing allows info exe = [] then None else Some (allowing allows info exe))"
proof -
  let ?F = "\<lambda>members (res, s). if map_of info res = None then members
       else foldl (add_member res) members (map fst s)"
  have "map_of (foldl ?F m allows) exe =
      (if allowing allows info exe = [] then map_of m exe else Some (old_rows m exe @ allowing allows info exe))" for m
    using assms
  proof (induction allows arbitrary: m)
    case (Cons p allows)
    obtain r s where p: "p = (r, s)" by (cases p)
    from Cons.prems p have s: "gm_wf s" "list_all (\<lambda>(r, s). gm_wf s) allows" by simp_all
    show ?case
      using Cons.IH [OF s(2)] p
      by (auto simp: foldl_add_member [OF s(1)] allowing_def old_rows_def dom_map_of_conv_image_fst [symmetric] dom_def
          split: option.splits)
  qed (simp add: allowing_def)
  then show ?thesis by (simp add: taint_members_def old_rows_def)
qed

definition taint_res :: "allow_table \<Rightarrow> (nat, resInfo) gomap \<Rightarrow> GuardInodeKey \<Rightarrow> nat set" where
  "taint_res allows info exe = {r \<in> set (allowing allows info exe). \<not> ri_readonly (the (map_of info r))}"

lemma owner_of_distinct:
  assumes "distinct rs" and "rs \<noteq> []" and T: "T = {r \<in> set rs. \<not> ri_readonly (the (map_of info r))}"
  shows "owner_of info rs =
     (if T = {} then \<lparr>to_res = Min (set rs), to_setKey = []\<rparr>
      else if card T = 1 then \<lparr>to_res = the_elem T, to_setKey = []\<rparr>
      else \<lparr>to_res = 0, to_setKey = setKeyOf (sorted_list_of_set ((\<lambda>r. ri_path (the (map_of info r))) ` T))\<rparr>)"
proof -
  let ?t = "filter (\<lambda>r. \<not> ri_readonly (the (map_of info r))) (sort rs)"
  have set_t: "set ?t = T" and dist: "distinct ?t" using T assms(1) by auto
  then have card: "card T = length ?t" using distinct_card by force
  have min: "hd (sort rs) = Min (set rs)"
  proof -
    obtain x xs where x: "sort rs = x # xs" using assms(2) by (metis length_0_conv length_sort list.exhaust)
    then have "sorted (x # xs)" "set rs = set (x # xs)" by (metis sorted_sort, metis set_sort)
    then have "Min (set rs) = x" by (auto intro: Min_eqI)
    with x show ?thesis by simp
  qed
  consider "?t = []" | r where "?t = [r]" | r q ts where "?t = r # q # ts"
    by (metis list.exhaust)
  then show ?thesis
  proof cases
    case 1
    then show ?thesis using set_t min by (simp add: owner_of_def Let_def)
  next
    case 2
    then have "T = {r}" using set_t by simp
    with 2 show ?thesis by (simp add: owner_of_def Let_def)
  next
    case 3
    then have "card T \<noteq> 1" "T \<noteq> {}" using card set_t by auto
    have "owner_of info rs = \<lparr>to_res = 0, to_setKey =
        setKeyOf (remdups_adj (sort (map (\<lambda>r. ri_path (the (map_of info r))) (r # q # ts))))\<rparr>"
      using 3 by (simp add: owner_of_def Let_def)
    moreover have "set (map (\<lambda>r. ri_path (the (map_of info r))) (r # q # ts)) =
        (\<lambda>r. ri_path (the (map_of info r))) ` T"
      using 3 set_t by (metis set_map)
    ultimately show ?thesis
      using \<open>card T \<noteq> 1\<close> \<open>T \<noteq> {}\<close> by (simp only: sort_compact if_False)
  qed
qed

text \<open>
  C25. The taint owner of a binary: none if no live resource whitelists it; otherwise read-only
  resources step back, a single remaining resource owns it, several own it together as the set of
  their paths (sorted, each once), and a binary only read-only resources allow keeps the lowest of
  them.
\<close>

theorem planTaintOwners_correct:
  assumes "gm_wf allows" and "list_all (\<lambda>(r, s). gm_wf s) allows"
  shows "map_of (planTaintOwners allows info) exe =
     (let R = {r. \<exists>s ri. map_of allows r = Some s \<and> map_of info r = Some ri \<and> map_of s exe \<noteq> None};
          T = {r \<in> R. \<not> ri_readonly (the (map_of info r))} in
      if R = {} then None
      else Some (if T = {} then \<lparr>to_res = Min R, to_setKey = []\<rparr>
        else if card T = 1 then \<lparr>to_res = the_elem T, to_setKey = []\<rparr>
        else \<lparr>to_res = 0, to_setKey = setKeyOf (sorted_list_of_set ((\<lambda>r. ri_path (the (map_of info r))) ` T))\<rparr>))"
proof -
  let ?rs = "allowing allows info exe"
  let ?R = "{r. \<exists>s ri. map_of allows r = Some s \<and> map_of info r = Some ri \<and> map_of s exe \<noteq> None}"
  have look: "map_of allows r = Some s \<longleftrightarrow> (r, s) \<in> set allows" for r s
    using assms(1) by simp
  have R: "set ?rs = ?R"
    by (force simp: allowing_def look)
  have d: "distinct ?rs"
    using assms(1) unfolding allowing_def by (rule distinct_map_filter)
  have m: "map_of (planTaintOwners allows info) exe = map_option (owner_of info) (map_of (taint_members allows info) exe)"
    unfolding planTaintOwners_def by (simp add: map_of_map)
  show ?thesis
  proof (cases "?rs = []")
    case True
    with R have "?R = {}" by simp
    with True show ?thesis unfolding m taint_members_lookup [OF assms(2)] Let_def by simp
  next
    case False
    with R have "?R \<noteq> {}" by (metis set_empty)
    with False show ?thesis
      unfolding m taint_members_lookup [OF assms(2)] Let_def
      by (simp only: owner_of_distinct [OF d False refl] R if_False option.map)
  qed
qed

theorem planTaintOwners_correct_witness:
  "map_of (planTaintOwners [(1, [(demo_file, GUARD_ALLOW)]), (2, [(demo_file, GUARD_ALLOW)])]
       [(1, \<lparr>ri_path = ''/b'', ri_readonly = False\<rparr>), (2, \<lparr>ri_path = ''/a'', ri_readonly = True\<rparr>)]) demo_file =
     Some \<lparr>to_res = 1, to_setKey = []\<rparr>"
proof -
  let ?al = "[(1 :: nat, [(demo_file, GUARD_ALLOW)]), (2, [(demo_file, GUARD_ALLOW)])]"
  let ?in = "[(1 :: nat, \<lparr>ri_path = ''/b'', ri_readonly = False\<rparr>), (2, \<lparr>ri_path = ''/a'', ri_readonly = True\<rparr>)]"
  have R: "{r. \<exists>s ri. map_of ?al r = Some s \<and> map_of ?in r = Some ri \<and> map_of s demo_file \<noteq> None} = {1, 2}"
    by auto
  have T: "{r \<in> {1, 2}. \<not> ri_readonly (the (map_of ?in r))} = {1}" by auto
  show ?thesis
    using planTaintOwners_correct [of ?al ?in demo_file] unfolding R Let_def T by simp
qed

end
