(* ===== verification/Guard_State.thy ===== *)
theory Guard_State
  imports Taint_Plan Daemon_Config
begin

text \<open>
  The state the guard package works on: the kernel's BPF maps, the shared engine, and the guards,
  with the map operations every component uses.

  Every map operation may fail. The record \<open>world\<close> carries an oracle \<open>faults\<close> and a counter
  \<open>tick\<close> of map operations; the operation at a tick the oracle names returns an error and leaves the
  map alone. A theorem for every oracle covers every place a call can fail, and, for code that stops
  at the first error, every moment between two writes.

  An operation is a function from a world to a result (\<open>Inl\<close> the error) and the world it leaves. A
  guard is a number into a heap, so that a grant can hold on to a guard that was stopped since.
\<close>

subsection \<open>Data\<close>

datatype Mode = ModeBlacklist | ModeWhitelist | ModeReadOnly

record BinaryEntry =
  be_Path :: string
  be_Hash :: bytes
  be_Comm :: string

record BinaryStat =
  bs_Key :: GuardInodeKey
  bs_Size :: int
  bs_MtimeNs :: int
  bs_CtimeNs :: int

record verifyState =
  vs_key :: GuardInodeKey
  vs_stat :: BinaryStat
  vs_hash :: bytes
  vs_hashed :: bool
  vs_demoted :: bool

text \<open>A superseded mark: the exec counter it was set at, and nonzero once the inode is freed.\<close>

record exeSupersede =
  su_Seq :: u64
  su_Freed :: u64

record durableStat =
  ds_stat :: BinaryStat
  ds_BtimeNs :: int
  ds_Fsid :: u64

record deferredBinary =
  db_rule :: BinaryRule
  db_attempts :: nat

record Guard =
  g_resID :: nat
  g_path :: string
  g_mode :: Mode
  g_stopped :: bool
  g_pinPrefix :: string
  g_binaries :: "BinaryEntry list"
  g_exeEvents :: "(string, event_type list) gomap"
  g_canonicalPaths :: "(string, string) gomap"
  g_deferred :: "deferredBinary list"
  g_selfKey :: "GuardInodeKey option" \<comment> \<open>\<open>selfKey\<close> once \<open>selfKeySet\<close>\<close>
  g_selfEvents :: "event_type list"
  g_selfGranted :: bool
  g_verifyStates :: "(string, verifyState) gomap"
  g_verifying :: bool \<comment> \<open>\<open>verifyStop != nil\<close>\<close>
  g_pinning :: bool \<comment> \<open>\<open>binaryVerifyStates != nil\<close>\<close>
  g_deployed :: "(string, GuardInodeKey) gomap"
  g_keyPaths :: "(GuardInodeKey, string) gomap"
  g_retired :: "(string, GuardInodeKey) gomap"
  g_links :: "(string, string) gomap"
  g_vetted :: "(string, GuardInodeKey) gomap"
  g_canonicalRoot :: bool
  g_held :: "(string, nat) gomap" \<comment> \<open>open files of the vetted inodes not yet written\<close>
  g_systemPatterns :: "BinaryRule list"
  g_refused :: "(string, GuardInodeKey) gomap" \<comment> \<open>replacements already reported\<close>

record GuardResConfig =
  rc_Active :: bool
  rc_Mode :: Mode
  rc_Root :: GuardInodeKey
  rc_TaintSet :: bool

type_synonym rkey = "nat \<times> GuardInodeKey" \<comment> \<open>\<open>GuardResInodeKey\<close>: slot and exe\<close>

text \<open>The rows of one trusted file: its flags and, where it has one, its owner, updater, glob-writer and
  library-directory bits.\<close>

record trustRows =
  tr_flags :: u8
  tr_bits :: "u64 option list"

record world =
  tick :: nat
  faults :: "nat \<Rightarrow> bool"
  GuardExeActions :: "(rkey, u8) gomap"
  GuardExeEvents :: "(rkey, u32) gomap"
  GuardExeUnion :: "(GuardInodeKey, nat) gomap"
  GuardTaintMembers :: "(nat \<times> nat, unit) gomap"
  GuardTaintSuccessor :: "(nat, nat) gomap"
  ResConfigs :: "(nat, GuardResConfig) gomap"
  GuardInodes :: "(GuardInodeKey, nat) gomap"
  GuardInspectors :: "(GuardInodeKey, unit) gomap"
  GuardMulticall :: "(GuardInodeKey, unit) gomap"
  GuardMulticallNames :: "(GuardInodeKey \<times> string, u32) gomap"
  GuardQuietAllow :: "(nat, u8) gomap"
  GuardTrustedFiles :: "(GuardInodeKey, u8) gomap"
  ExeSuperseded :: "(GuardInodeKey, exeSupersede) gomap"
  ExeSeq :: "(nat, u64) gomap"
  GuardBinOwner :: "(GuardInodeKey, u64) gomap"
  GuardBinUpdaters :: "(GuardInodeKey, u64) gomap"
  GuardGlobWriters :: "(GuardInodeKey, u64) gomap"
  GuardLibdirUsers :: "(GuardInodeKey, u64) gomap"
  GuardTrustedDirs :: "(GuardInodeKey, u64) gomap"
  GuardBinOrigin :: "(GuardInodeKey, GuardInodeKey \<times> bool) gomap" \<comment> \<open>creating exe, and whether tainted since\<close>
  GuardVouchedDevs :: "(u64, u64) gomap"
  GuardDeadDevs :: "(u64, u64) gomap"
  e_started :: bool
  e_slots :: "(nat, nat) gomap" \<comment> \<open>slot to guard\<close>
  e_prevOwner :: "(GuardInodeKey, nat) gomap"
  e_refs :: nat
  e_allows :: allow_table
  e_sets :: "(string, nat) gomap"
  e_setRows :: "(nat, allow_set) gomap"
  e_unionRows :: "(GuardInodeKey, nat) gomap"
  e_memberRows :: "(nat \<times> nat) list"
  e_successor :: "(nat, nat) gomap"
  e_inspectors :: "(GuardInodeKey, string) gomap"
  e_mcNames :: "(GuardInodeKey, string list) gomap"
  w_mcReg :: mcRegistry
  w_guards :: "nat \<Rightarrow> Guard"
  w_trust :: "nat option" \<comment> \<open>the live trust guard\<close>
  t_ownerByPath :: "(string, u64) gomap"
  t_ownerByRes :: "(string, u64) gomap"
  t_retired :: "(GuardInodeKey, trustRows) gomap"
  s_freedAt :: "(GuardInodeKey, int) gomap" \<comment> \<open>when a prune first saw the key freed\<close>
  w_sharedHashes :: "(GuardInodeKey, BinaryStat \<times> bytes) gomap"
  w_hasStore :: bool
  w_hashStore :: "(durableStat, bytes) gomap" \<comment> \<open>the persistent hash store\<close>
  w_sweep :: "(string, string \<times> GuardInodeKey \<times> int) gomap"
  w_check :: bool \<comment> \<open>a replacement check is installed\<close>

definition GuardMaxRes :: nat where "GuardMaxRes = 512"
abbreviation (input) resGlobal :: nat where "resGlobal \<equiv> 0"

text \<open>What the code reads from the system besides the maps.\<close>

record guard_env = exe_env +
  ge_EvalSymlinks :: "string \<Rightarrow> string option"
  ge_Missing :: "string \<Rightarrow> bool" \<comment> \<open>\<open>os.Lstat\<close> says \<open>ErrNotExist\<close>\<close>
  ge_btrfsLayout :: bool
  ge_onBtrfs :: "string \<Rightarrow> bool"
  ge_StatInode :: "string \<Rightarrow> GuardInodeKey option"
  ge_Hash :: "nat \<Rightarrow> bytes option" \<comment> \<open>content hash of an open file\<close>
  ge_StatBinary :: "string \<Rightarrow> BinaryStat option"
  ge_OpenPath :: "string \<Rightarrow> nat option" \<comment> \<open>\<open>open(path, O_PATH)\<close>, symlinks followed\<close>
  ge_StatBinaryFile :: "nat \<Rightarrow> BinaryStat option"
  ge_StatDurable :: "nat \<Rightarrow> BinaryStat \<Rightarrow> durableStat option"
  ge_SyncFile :: "nat \<Rightarrow> bool"
  ge_Now :: int \<comment> \<open>nanoseconds\<close>
  ge_Admit :: "BinaryRule \<Rightarrow> string \<Rightarrow> nat \<Rightarrow> GuardInodeKey \<Rightarrow> bytes \<Rightarrow> bool" \<comment> \<open>the admission check of a guard\<close>
  ge_Glob :: "string \<Rightarrow> string list" \<comment> \<open>\<open>GlobSystemPlaced\<close>, at most \<open>maxPatternMatches\<close>\<close>
  ge_Hold :: bool \<comment> \<open>\<open>SetSupersedeHold\<close>: a catalog refresh is pending or running\<close>
  ge_OpenSystemPlaced :: "string \<Rightarrow> nat option"
  ge_SuperblockDev :: "nat \<Rightarrow> u64 option"
  ge_isFuse :: "nat \<Rightarrow> bool" \<comment> \<open>unknown counts as FUSE\<close>
  ge_runtimeClass :: "nat \<Rightarrow> string \<Rightarrow> u8"

text \<open>The system as it is at each tick: nothing is assumed about how it changes in between.\<close>

type_synonym system = "nat \<Rightarrow> guard_env"

datatype gerr = MapFault | WrongMode | Stopped | NotPlain | BadExe exe_err | StatFailed open_err
  | BadMask mask_err | NeverClassified | TooManyNames | OnBtrfs string | RowMoved | TrustNotRunning
  | SelfBinary | IsInspector | IsBlocked | NoSelfBinary | EditGrantActive | TooManyInspectorInodes
  | EventRange event_type | NoFreeSlot | NotTrusted | HashFailed

type_synonym 'a act = "world \<Rightarrow> (gerr + 'a) \<times> world"

subsection \<open>Sequencing\<close>

definition ret :: "'a \<Rightarrow> 'a act" where
  "ret x w = (Inr x, w)"

definition fail :: "gerr \<Rightarrow> 'a act" where
  "fail e w = (Inl e, w)"

definition and_then :: "'a act \<Rightarrow> ('a \<Rightarrow> 'b act) \<Rightarrow> 'b act" where
  "and_then m f w = (case m w of (Inl e, w') \<Rightarrow> (Inl e, w') | (Inr x, w') \<Rightarrow> f x w')"

definition get :: "(world \<Rightarrow> 'a) \<Rightarrow> 'a act" where
  "get f w = (Inr (f w), w)"

definition modify :: "(world \<Rightarrow> world) \<Rightarrow> unit act" where
  "modify f w = (Inr (), f w)"

text \<open>A loop that returns at the first error.\<close>

fun for_each :: "'a list \<Rightarrow> ('a \<Rightarrow> unit act) \<Rightarrow> unit act" where
  "for_each [] f = ret ()"
| "for_each (x # xs) f = and_then (f x) (\<lambda>_. for_each xs f)"

text \<open>A call whose error is only logged.\<close>

definition logged :: "unit act \<Rightarrow> unit act" where
  "logged m w = (Inr (), snd (m w))"

text \<open>The outcome as a value, for callers that go on after an error.\<close>

definition attempt :: "'a act \<Rightarrow> (gerr + 'a) act" where
  "attempt m w = (case m w of (x, w') \<Rightarrow> (Inr x, w'))"

definition lift_sum :: "('e \<Rightarrow> gerr) \<Rightarrow> 'e + 'a \<Rightarrow> 'a act" where
  "lift_sum g r = (case r of Inl e \<Rightarrow> fail (g e) | Inr x \<Rightarrow> ret x)"

subsection \<open>Map operations\<close>

definition step_tick :: "world \<Rightarrow> world" where
  "step_tick w = w\<lparr>tick := Suc (tick w)\<rparr>"

definition map_put ::
    "((('k, 'v) gomap \<Rightarrow> ('k, 'v) gomap) \<Rightarrow> world \<Rightarrow> world) \<Rightarrow> 'k \<Rightarrow> 'v \<Rightarrow> unit act" where
  "map_put upd k v w = (if faults w (tick w) then (Inl MapFault, step_tick w)
     else (Inr (), upd (AList.update k v) (step_tick w)))"

text \<open>A deletion: an absent key is no error for any caller (\<open>ErrKeyNotExist\<close> is ignored).\<close>

definition map_del ::
    "((('k, 'v) gomap \<Rightarrow> ('k, 'v) gomap) \<Rightarrow> world \<Rightarrow> world) \<Rightarrow> 'k \<Rightarrow> unit act" where
  "map_del upd k w = (if faults w (tick w) then (Inl MapFault, step_tick w)
     else (Inr (), upd (AList.delete k) (step_tick w)))"

definition map_get :: "(world \<Rightarrow> ('k, 'v) gomap) \<Rightarrow> 'k \<Rightarrow> 'v option act" where
  "map_get sel k w = (if faults w (tick w) then (Inl MapFault, step_tick w)
     else (Inr (map_of (sel w) k), step_tick w))"

text \<open>A walk over all rows.\<close>

definition map_rows :: "(world \<Rightarrow> ('k, 'v) gomap) \<Rightarrow> ('k, 'v) gomap act" where
  "map_rows sel w = (if faults w (tick w) then (Inl MapFault, step_tick w) else (Inr (sel w), step_tick w))"

text \<open>A lookup whose error counts as absent.\<close>

definition map_look :: "(world \<Rightarrow> ('k, 'v) gomap) \<Rightarrow> 'k \<Rightarrow> 'v option act" where
  "map_look sel k w = (Inr (if faults w (tick w) then None else map_of (sel w) k), step_tick w)"

text \<open>A read of the system, at the moment of the call.\<close>

definition look :: "system \<Rightarrow> (guard_env \<Rightarrow> 'a) \<Rightarrow> 'a act" where
  "look X f w = (Inr (f (X (tick w))), step_tick w)"

subsection \<open>Guards\<close>

definition upd_guard :: "nat \<Rightarrow> (Guard \<Rightarrow> Guard) \<Rightarrow> world \<Rightarrow> world" where
  "upd_guard r f w = w\<lparr>w_guards := (w_guards w)(r := f (w_guards w r))\<rparr>"

definition canonicalBinaryPath :: "guard_env \<Rightarrow> string \<Rightarrow> string" where
  "canonicalBinaryPath X path = (case ge_EvalSymlinks X path of Some t \<Rightarrow> t | None \<Rightarrow> path)"

text \<open>The slots in use, in index order, with their guards.\<close>

definition live_slots :: "world \<Rightarrow> (nat \<times> nat) list" where
  "live_slots w = map (\<lambda>id. (id, the (map_of (e_slots w) id))) (sort (remdups (map fst (e_slots w))))"

definition setAt :: "world \<Rightarrow> nat \<Rightarrow> string" where
  "setAt w slot = (case find (\<lambda>(k, s). s = slot) (e_sets w) of None \<Rightarrow> [] | Some (k, _) \<Rightarrow> k)"

lemma step_tick_simps [simp]:
  "faults (step_tick w) = faults w"
  "GuardExeActions (step_tick w) = GuardExeActions w"
  "GuardExeEvents (step_tick w) = GuardExeEvents w"
  "GuardExeUnion (step_tick w) = GuardExeUnion w"
  "GuardTaintMembers (step_tick w) = GuardTaintMembers w"
  "GuardTaintSuccessor (step_tick w) = GuardTaintSuccessor w"
  "ResConfigs (step_tick w) = ResConfigs w"
  "GuardInodes (step_tick w) = GuardInodes w"
  "GuardInspectors (step_tick w) = GuardInspectors w"
  "GuardMulticall (step_tick w) = GuardMulticall w"
  "GuardMulticallNames (step_tick w) = GuardMulticallNames w"
  "GuardQuietAllow (step_tick w) = GuardQuietAllow w"
  "GuardTrustedFiles (step_tick w) = GuardTrustedFiles w"
  "ExeSuperseded (step_tick w) = ExeSuperseded w"
  "e_started (step_tick w) = e_started w"
  "e_slots (step_tick w) = e_slots w"
  "e_prevOwner (step_tick w) = e_prevOwner w"
  "e_refs (step_tick w) = e_refs w"
  "e_allows (step_tick w) = e_allows w"
  "e_sets (step_tick w) = e_sets w"
  "e_setRows (step_tick w) = e_setRows w"
  "e_unionRows (step_tick w) = e_unionRows w"
  "e_memberRows (step_tick w) = e_memberRows w"
  "e_successor (step_tick w) = e_successor w"
  "e_inspectors (step_tick w) = e_inspectors w"
  "e_mcNames (step_tick w) = e_mcNames w"
  "w_mcReg (step_tick w) = w_mcReg w"
  "w_guards (step_tick w) = w_guards w"
  "w_trust (step_tick w) = w_trust w"
  "GuardBinOwner (step_tick w) = GuardBinOwner w"
  "GuardBinUpdaters (step_tick w) = GuardBinUpdaters w"
  "GuardGlobWriters (step_tick w) = GuardGlobWriters w"
  "GuardLibdirUsers (step_tick w) = GuardLibdirUsers w"
  "GuardTrustedDirs (step_tick w) = GuardTrustedDirs w"
  "GuardBinOrigin (step_tick w) = GuardBinOrigin w"
  "GuardVouchedDevs (step_tick w) = GuardVouchedDevs w"
  "GuardDeadDevs (step_tick w) = GuardDeadDevs w"
  "t_ownerByPath (step_tick w) = t_ownerByPath w"
  "t_ownerByRes (step_tick w) = t_ownerByRes w"
  "t_retired (step_tick w) = t_retired w"
  "s_freedAt (step_tick w) = s_freedAt w"
  "w_sharedHashes (step_tick w) = w_sharedHashes w"
  "ExeSeq (step_tick w) = ExeSeq w"
  "w_hasStore (step_tick w) = w_hasStore w"
  "w_hashStore (step_tick w) = w_hashStore w"
  "w_sweep (step_tick w) = w_sweep w"
  "w_check (step_tick w) = w_check w"
  by (simp_all add: step_tick_def)

subsection \<open>Reasoning: outcomes of an operation\<close>

text \<open>
  \<open>run P m Q E\<close>: started in a state satisfying \<open>P\<close>, \<open>m\<close> ends with a result and state satisfying
  \<open>Q\<close>, or with an error in a state satisfying \<open>E\<close>.
\<close>

definition run :: "(world \<Rightarrow> bool) \<Rightarrow> 'a act \<Rightarrow> ('a \<Rightarrow> world \<Rightarrow> bool) \<Rightarrow> (world \<Rightarrow> bool) \<Rightarrow> bool" where
  "run P m Q E = (\<forall>w. P w \<longrightarrow> (case m w of (Inl _, w') \<Rightarrow> E w' | (Inr x, w') \<Rightarrow> Q x w'))"

abbreviation keeps :: "(world \<Rightarrow> bool) \<Rightarrow> 'a act \<Rightarrow> bool" where
  "keeps I m \<equiv> run I m (\<lambda>_. I) I"

named_theorems run_intros "rules that decompose an operation"

lemma runI: "(\<And>w x w'. P w \<Longrightarrow> m w = (Inr x, w') \<Longrightarrow> Q x w') \<Longrightarrow> (\<And>w e w'. P w \<Longrightarrow> m w = (Inl e, w') \<Longrightarrow> E w') \<Longrightarrow>
    run P m Q E"
  by (auto simp: run_def split: prod.splits sum.splits)

lemma run_Inr: "run P m Q E \<Longrightarrow> P w \<Longrightarrow> m w = (Inr x, w') \<Longrightarrow> Q x w'"
  by (auto simp: run_def)

lemma run_Inl: "run P m Q E \<Longrightarrow> P w \<Longrightarrow> m w = (Inl e, w') \<Longrightarrow> E w'"
  by (auto simp: run_def)

lemma run_pre: "run P m Q E \<Longrightarrow> (\<And>w. P' w \<Longrightarrow> P w) \<Longrightarrow> run P' m Q E"
  by (simp add: run_def)

lemma run_post:
  assumes "run P m Q E" and "\<And>x w. Q x w \<Longrightarrow> Q' x w" and "\<And>w. E w \<Longrightarrow> E' w"
  shows "run P m Q' E'"
  by (rule runI) (use assms in \<open>auto dest: run_Inr run_Inl\<close>)

lemma run_and_then [run_intros]:
  assumes "run P m R E" and "\<And>x. run (R x) (f x) Q E"
  shows "run P (and_then m f) Q E"
proof (rule runI)
  fix w x w' assume P: "P w" and m: "and_then m f w = (Inr x, w')"
  then obtain y v where "m w = (Inr y, v)" "f y v = (Inr x, w')"
    by (auto simp: and_then_def split: prod.splits sum.splits)
  with run_Inr [OF assms(1) P] run_Inr [OF assms(2)] show "Q x w'" by blast
next
  fix w e w' assume P: "P w" and m: "and_then m f w = (Inl e, w')"
  then consider "m w = (Inl e, w')" | y v where "m w = (Inr y, v)" "f y v = (Inl e, w')"
    by (auto simp: and_then_def split: prod.splits sum.splits)
  then show "E w'"
  proof cases
    case 1
    with run_Inl [OF assms(1) P] show ?thesis by blast
  next
    case 2
    with run_Inr [OF assms(1) P] run_Inl [OF assms(2)] show ?thesis by blast
  qed
qed

lemma run_for_each:
  assumes "\<And>x. x \<in> set xs \<Longrightarrow> run I (f x) (\<lambda>_. I) E"
  shows "run I (for_each xs f) (\<lambda>_. I) E"
  using assms
proof (induction xs)
  case Nil
  show ?case by (simp add: run_def ret_def)
next
  case (Cons x xs)
  have "run I (f x) (\<lambda>_. I) E" by (rule Cons.prems) simp
  moreover have "run I (for_each xs f) (\<lambda>_. I) E" by (rule Cons.IH) (rule Cons.prems, simp)
  ultimately show ?case by (simp add: run_and_then)
qed

text \<open>A loop whose invariant grows with the elements done.\<close>

lemma run_for_each_done:
  assumes "\<And>ys x zs. xs = ys @ x # zs \<Longrightarrow> run (I ys) (f x) (\<lambda>_. I (ys @ [x])) E"
  shows "run (I []) (for_each xs f) (\<lambda>_. I xs) E"
proof -
  have "xs = ys @ zs \<Longrightarrow> run (I ys) (for_each zs f) (\<lambda>_. I xs) E" for ys zs
  proof (induction zs arbitrary: ys)
    case Nil
    then show ?case by (simp add: run_def ret_def)
  next
    case (Cons z zs)
    from assms [OF Cons.prems] have "run (I ys) (f z) (\<lambda>_. I (ys @ [z])) E" .
    moreover have "run (I (ys @ [z])) (for_each zs f) (\<lambda>_. I xs) E"
      by (rule Cons.IH) (simp add: Cons.prems)
    ultimately show ?case by (simp add: run_and_then)
  qed
  from this [of "[]" xs] show ?thesis by simp
qed

lemma for_each_map: "for_each (map h xs) f = for_each xs (\<lambda>x. f (h x))"
  by (induction xs) auto

lemma run_conj:
  "run P m Q E \<Longrightarrow> run P' m Q' E' \<Longrightarrow> run (\<lambda>w. P w \<and> P' w) m (\<lambda>x w. Q x w \<and> Q' x w) (\<lambda>w. E w \<and> E' w)"
  by (rule runI) (auto dest: run_Inr run_Inl)

lemma run_pure: "(A \<Longrightarrow> run P m Q E) \<Longrightarrow> run (\<lambda>w. P w \<and> A) m Q E"
  by (auto simp: run_def)

lemma run_ret [run_intros]: "(\<And>w. P w \<Longrightarrow> Q x w) \<Longrightarrow> run P (ret x) Q E"
  by (simp add: run_def ret_def)

lemma run_fail [run_intros]: "(\<And>w. P w \<Longrightarrow> E w) \<Longrightarrow> run P (fail e) Q E"
  by (simp add: run_def fail_def)

lemma run_get: "(\<And>w. P w \<Longrightarrow> Q (f w) w) \<Longrightarrow> run P (get f) Q E"
  by (simp add: run_def get_def)

lemma run_modify: "(\<And>w. P w \<Longrightarrow> Q () (f w)) \<Longrightarrow> run P (modify f) Q E"
  by (simp add: run_def modify_def)

lemma run_logged: "run P m (\<lambda>_. Q) Q \<Longrightarrow> run P (logged m) (\<lambda>_. Q) E"
  unfolding run_def logged_def by (auto split: prod.splits sum.splits) (metis prod.collapse)

lemma run_lift_sum: "(\<And>x w. P w \<Longrightarrow> r = Inr x \<Longrightarrow> Q x w) \<Longrightarrow> (\<And>w. P w \<Longrightarrow> E w) \<Longrightarrow> run P (lift_sum g r) Q E"
  by (auto simp: lift_sum_def run_def ret_def fail_def split: sum.splits)

lemma run_map_put:
  "(\<And>w. P w \<Longrightarrow> E (step_tick w)) \<Longrightarrow> (\<And>w. P w \<Longrightarrow> Q () (upd (AList.update k v) (step_tick w))) \<Longrightarrow>
     run P (map_put upd k v) Q E"
  by (simp add: run_def map_put_def)

lemma run_map_del:
  "(\<And>w. P w \<Longrightarrow> E (step_tick w)) \<Longrightarrow> (\<And>w. P w \<Longrightarrow> Q () (upd (AList.delete k) (step_tick w))) \<Longrightarrow>
     run P (map_del upd k) Q E"
  by (simp add: run_def map_del_def)

lemma run_map_get:
  "(\<And>w. P w \<Longrightarrow> E (step_tick w)) \<Longrightarrow> (\<And>w. P w \<Longrightarrow> Q (map_of (sel w) k) (step_tick w)) \<Longrightarrow>
     run P (map_get sel k) Q E"
  by (simp add: run_def map_get_def)

lemma run_map_rows:
  "(\<And>w. P w \<Longrightarrow> E (step_tick w)) \<Longrightarrow> (\<And>w. P w \<Longrightarrow> Q (sel w) (step_tick w)) \<Longrightarrow>
     run P (map_rows sel) Q E"
  by (simp add: run_def map_rows_def)

text \<open>An invariant of every part is one of the whole.\<close>

named_theorems keep_rules "rules that carry an invariant through an operation"

lemma keeps_and_then [keep_rules]: "keeps I m \<Longrightarrow> (\<And>x. keeps I (f x)) \<Longrightarrow> keeps I (and_then m f)"
  by (rule run_and_then)

lemma keeps_for_each [keep_rules]: "(\<And>x. x \<in> set xs \<Longrightarrow> keeps I (f x)) \<Longrightarrow> keeps I (for_each xs f)"
  by (rule run_for_each)

lemma keeps_ret [keep_rules]: "keeps I (ret x)" and keeps_fail [keep_rules]: "keeps I (fail e)"
  and keeps_get [keep_rules]: "keeps I (get f)"
  by (simp_all add: run_def ret_def fail_def get_def)

lemma keeps_if [keep_rules]: "(b \<Longrightarrow> keeps I m) \<Longrightarrow> (\<not> b \<Longrightarrow> keeps I n) \<Longrightarrow> keeps I (if b then m else n)"
  by simp

lemma keeps_option [keep_rules]: "keeps I m \<Longrightarrow> (\<And>x. keeps I (f x)) \<Longrightarrow> keeps I (case o' of None \<Rightarrow> m | Some x \<Rightarrow> f x)"
  by (simp split: option.split)

lemma keeps_prod [keep_rules]: "(\<And>x y. p = (x, y) \<Longrightarrow> keeps I (f x y)) \<Longrightarrow> keeps I (case p of (x, y) \<Rightarrow> f x y)"
  by (simp split: prod.split)

lemma keeps_logged [keep_rules]: "keeps I m \<Longrightarrow> keeps I (logged m)"
  by (rule run_logged)

lemma keeps_lift_sum [keep_rules]: "keeps I (lift_sum g r)"
  by (simp add: run_lift_sum)

lemma keeps_map_rows [keep_rules]: "(\<And>w. I w \<Longrightarrow> I (step_tick w)) \<Longrightarrow> keeps I (map_rows sel)"
  by (simp add: run_map_rows)

lemma keeps_map_get [keep_rules]: "(\<And>w. I w \<Longrightarrow> I (step_tick w)) \<Longrightarrow> keeps I (map_get sel k)"
  by (simp add: run_map_get)

lemma keeps_map_look [keep_rules]: "(\<And>w. I w \<Longrightarrow> I (step_tick w)) \<Longrightarrow> keeps I (map_look sel k)"
  by (simp add: run_def map_look_def)

lemma keeps_look [keep_rules]: "(\<And>w. I w \<Longrightarrow> I (step_tick w)) \<Longrightarrow> keeps I (look X f)"
  by (simp add: run_def look_def)

lemma keeps_Inr: "keeps I m \<Longrightarrow> I w \<Longrightarrow> m w = (r, w') \<Longrightarrow> I w'"
  by (cases r) (auto dest: run_Inr run_Inl)

subsection \<open>The interface of a BPF map\<close>

text \<open>
  What the components rely on: a write changes the map it names by that write, and nothing is
  visible of a failed one. \<open>view\<close> is the map as a partial function.
\<close>

locale bpf_map =
  fixes sel :: "world \<Rightarrow> ('k, 'v) gomap" and upd :: "(('k, 'v) gomap \<Rightarrow> ('k, 'v) gomap) \<Rightarrow> world \<Rightarrow> world"
  assumes sel_upd: "sel (upd f w) = f (sel w)" and sel_tick: "sel (step_tick w) = sel w"
    and upd_erase: "upd (\<lambda>_. []) (upd f w) = upd (\<lambda>_. []) w"
    and upd_tick: "upd g (w\<lparr>tick := n\<rparr>) = (upd g w)\<lparr>tick := n\<rparr>"
begin

definition view :: "world \<Rightarrow> 'k \<rightharpoonup> 'v" where
  "view w = map_of (sel w)"

text \<open>Everything but this map and the counter.\<close>

definition others :: "world \<Rightarrow> world" where
  "others w = upd (\<lambda>_. []) (w\<lparr>tick := 0\<rparr>)"

lemma others_upd: "others (upd f w) = others w" and others_tick: "others (step_tick w) = others w"
proof -
  have "upd (\<lambda>_. []) ((upd f w)\<lparr>tick := 0\<rparr>) = upd (\<lambda>_. []) (upd f (w\<lparr>tick := 0\<rparr>))" by (simp add: upd_tick)
  then show "others (upd f w) = others w" by (simp add: others_def upd_erase)
  show "others (step_tick w) = others w" by (simp add: others_def step_tick_def)
qed

lemma put_others: "keeps (\<lambda>w. others w = c) (map_put upd k v)"
  by (rule run_map_put) (simp_all add: others_upd others_tick)

lemma del_others: "keeps (\<lambda>w. others w = c) (map_del upd k)"
  by (rule run_map_del) (simp_all add: others_upd others_tick)

lemma put_view:
  "run (\<lambda>w. view w = m) (map_put upd k v) (\<lambda>_ w. view w = m(k \<mapsto> v)) (\<lambda>w. view w = m)"
  by (rule run_map_put) (simp_all add: view_def sel_upd sel_tick)

lemma del_view:
  "run (\<lambda>w. view w = m) (map_del upd k) (\<lambda>_ w. view w = m(k := None)) (\<lambda>w. view w = m)"
  by (rule run_map_del) (simp_all add: view_def sel_upd sel_tick)

text \<open>A loop of puts that skips rows known to be there: every key holds its old value or, once the
  loop is through, the value wanted.\<close>

lemma put_loop:
  assumes "gm_wf kvs" and skip: "\<And>k v. (k, v) \<in> set kvs \<Longrightarrow> c k v \<Longrightarrow> m k = Some v"
  shows "run (\<lambda>w. view w = m) (for_each kvs (\<lambda>(k, v). if c k v then ret () else map_put upd k v))
     (\<lambda>_ w. view w = m ++ map_of kvs) (\<lambda>w. \<forall>k. view w k = m k \<or> view w k = map_of kvs k \<and> view w k \<noteq> None)"
  using assms
proof (induction kvs arbitrary: m)
  case Nil
  show ?case by (simp add: run_def ret_def)
next
  case (Cons p kvs)
  obtain k v where p: "p = (k, v)" by (cases p)
  let ?f = "\<lambda>(k, v). if c k v then ret () else map_put upd k v"
  let ?E = "\<lambda>w. \<forall>k. view w k = m k \<or> view w k = map_of (p # kvs) k \<and> view w k \<noteq> None"
  have wf: "gm_wf kvs" and fresh: "k \<notin> fst ` set kvs" using Cons.prems(1) p by auto
  then have none: "map_of kvs k = None" by (simp add: map_of_eq_None_iff)
  have ne: "k' \<noteq> k" if "(k', v') \<in> set kvs" for k' v' using fresh that by force
  have "run (\<lambda>w. view w = m) (?f p) (\<lambda>_ w. view w = m(k \<mapsto> v)) ?E"
  proof (cases "c k v")
    case True
    with Cons.prems(2) [of k v] p have "m k = Some v" by simp
    then have "m(k \<mapsto> v) = m" by (simp add: fun_upd_idem)
    with True p show ?thesis by (simp add: run_def ret_def)
  next
    case False
    with p show ?thesis by (auto intro: run_post [OF put_view])
  qed
  moreover have "run (\<lambda>w. view w = m(k \<mapsto> v)) (for_each kvs ?f) (\<lambda>_ w. view w = m ++ map_of (p # kvs)) ?E"
  proof (rule run_post)
    show "run (\<lambda>w. view w = m(k \<mapsto> v)) (for_each kvs ?f) (\<lambda>_ w. view w = (m(k \<mapsto> v)) ++ map_of kvs)
        (\<lambda>w. \<forall>k'. view w k' = (m(k \<mapsto> v)) k' \<or> view w k' = map_of kvs k' \<and> view w k' \<noteq> None)"
      using Cons.prems(2) ne by (intro Cons.IH [OF wf]) (auto simp: p)
    have "(m(k \<mapsto> v)) ++ map_of kvs = m ++ map_of (p # kvs)"
      using none p by (auto simp: map_add_def fun_eq_iff split: option.splits)
    then show "view w = (m(k \<mapsto> v)) ++ map_of kvs \<Longrightarrow> view w = m ++ map_of (p # kvs)" for w by simp
    show "\<forall>k'. view w k' = (m(k \<mapsto> v)) k' \<or> view w k' = map_of kvs k' \<and> view w k' \<noteq> None \<Longrightarrow> ?E w" for w
      using p none by (auto split: if_splits)
  qed
  ultimately show ?case unfolding for_each.simps by (rule run_and_then)
qed

lemma del_loop:
  "run (\<lambda>w. view w = m) (for_each ks (\<lambda>k. if c k then ret () else map_del upd k))
     (\<lambda>_ w. view w = m |` (- {k \<in> set ks. \<not> c k}))
     (\<lambda>w. \<forall>k. view w k = m k \<or> view w k = None \<and> k \<in> set ks \<and> \<not> c k)"
proof (induction ks arbitrary: m)
  case Nil
  show ?case by (simp add: run_def ret_def)
next
  case (Cons k ks)
  let ?f = "\<lambda>k. if c k then ret () else map_del upd k"
  let ?E = "\<lambda>w. \<forall>k'. view w k' = m k' \<or> view w k' = None \<and> k' \<in> set (k # ks) \<and> \<not> c k'"
  let ?m = "if c k then m else m(k := None)"
  have "run (\<lambda>w. view w = m) (?f k) (\<lambda>_ w. view w = ?m) ?E"
  proof (cases "c k")
    case False
    then show ?thesis by (simp, intro run_post [OF del_view]) auto
  qed (simp add: run_def ret_def)
  moreover have "run (\<lambda>w. view w = ?m) (for_each ks ?f) (\<lambda>_ w. view w = m |` (- {k' \<in> set (k # ks). \<not> c k'})) ?E"
  proof (rule run_post [OF Cons.IH])
    have "?m |` (- {k \<in> set ks. \<not> c k}) = m |` (- {k' \<in> set (k # ks). \<not> c k'})"
      by (auto simp: restrict_map_def fun_eq_iff)
    then show "view w = ?m |` (- {k \<in> set ks. \<not> c k}) \<Longrightarrow> view w = m |` (- {k' \<in> set (k # ks). \<not> c k'})" for w
      by simp
  qed (auto split: if_splits)
  ultimately show ?case unfolding for_each.simps by (rule run_and_then)
qed

end

interpretation actions: bpf_map GuardExeActions GuardExeActions_update
  by unfold_locales simp_all

interpretation events: bpf_map GuardExeEvents GuardExeEvents_update
  by unfold_locales simp_all

interpretation unions: bpf_map GuardExeUnion GuardExeUnion_update
  by unfold_locales simp_all

interpretation inodes: bpf_map GuardInodes GuardInodes_update
  by unfold_locales simp_all

interpretation inspectors: bpf_map GuardInspectors GuardInspectors_update
  by unfold_locales simp_all

interpretation trusted: bpf_map GuardTrustedFiles GuardTrustedFiles_update
  by unfold_locales simp_all

end
