(* ===== verification/Guard_Engine.thy ===== *)
theory Guard_Engine
  imports Guard_State
begin

text \<open>
  The shared engine (\<open>internal/guard/engine.go\<close>, \<open>taintset.go\<close>, parts of \<open>multicall.go\<close>,
  \<open>inspectors.go\<close> and \<open>guard.go\<close>): the whitelist rows of every resource and the views derived from
  them, which are the slot judging each binary's taint, the whitelists of the taint sets and the
  intersection in the reserved slot.
\<close>

subsection \<open>Diffed writes\<close>

text \<open>\<open>syncU32Map\<close>: puts first, then deletes, so no key passes through absent.\<close>

definition syncU32Map ::
    "(((GuardInodeKey, nat) gomap \<Rightarrow> (GuardInodeKey, nat) gomap) \<Rightarrow> world \<Rightarrow> world) \<Rightarrow>
     (GuardInodeKey, nat) gomap \<Rightarrow> (GuardInodeKey, nat) gomap \<Rightarrow> unit act" where
  "syncU32Map upd have want =
     and_then (for_each want (\<lambda>(k, v). if map_of have k = Some v then ret () else map_put upd k v))
       (\<lambda>_. for_each have (\<lambda>(k, _). if map_of want k \<noteq> None then ret () else map_del upd k))"

definition syncSetMap :: "(nat \<times> nat) list \<Rightarrow> (nat \<times> nat) list \<Rightarrow> unit act" where
  "syncSetMap have want =
     and_then (for_each want (\<lambda>k. if k \<in> set have then ret () else map_put GuardTaintMembers_update k ()))
       (\<lambda>_. for_each have (\<lambda>k. if k \<in> set want then ret () else map_del GuardTaintMembers_update k))"

subsection \<open>Taint sets\<close>

definition liveResInfoLocked :: "world \<Rightarrow> (nat, resInfo) gomap" where
  "liveResInfoLocked w = map (\<lambda>(rid, g). (rid, \<lparr>ri_path = g_path (w_guards w g),
     ri_readonly = (g_mode (w_guards w g) = ModeReadOnly)\<rparr>)) (live_slots w)"

definition free_slot :: "world \<Rightarrow> nat \<Rightarrow> bool" where
  "free_slot w rid = (map_of (e_slots w) rid = None \<and> setAt w rid = [])"

definition allocSetSlotLocked :: "string \<Rightarrow> nat act" where
  "allocSetSlotLocked key =
     and_then (get (\<lambda>w. find (free_slot w) (rev [1..<GuardMaxRes]))) (\<lambda>found.
       case found of
         None \<Rightarrow> ret 0
       | Some slot \<Rightarrow>
           and_then (map_put ResConfigs_update slot \<lparr>rc_Active = True, rc_Mode = ModeWhitelist,
               rc_Root = \<lparr>Dev = 0, Ino = 0\<rparr>, rc_TaintSet = True\<rparr>) (\<lambda>_.
           and_then (modify (\<lambda>w. w\<lparr>e_sets := AList.update key slot (e_sets w)\<rparr>)) (\<lambda>_. ret slot)))"

text \<open>The slot of every planned owner, allocating the sets that have none; without a free slot the
  reserved one, which is stricter.\<close>

definition set_slot :: "string \<Rightarrow> nat act" where
  "set_slot key = and_then (get (\<lambda>w. map_of (e_sets w) key)) (\<lambda>known.
     case known of Some slot \<Rightarrow> ret slot
     | None \<Rightarrow> and_then (allocSetSlotLocked key) (\<lambda>slot. ret (if slot = 0 then resGlobal else slot)))"

fun build_union :: "(GuardInodeKey, taintOwner) gomap \<Rightarrow> (GuardInodeKey, nat) gomap act" where
  "build_union [] = ret []"
| "build_union ((exe, o') # os) =
     and_then (if to_setKey o' = [] then ret (to_res o') else set_slot (to_setKey o')) (\<lambda>slot.
       and_then (build_union os) (\<lambda>rest. ret ((exe, slot) # rest)))"

definition syncSetRowsLocked :: "nat \<Rightarrow> allow_set \<Rightarrow> unit act" where
  "syncSetRowsLocked slot want =
     and_then (get (\<lambda>w. case map_of (e_setRows w) slot of None \<Rightarrow> [] | Some r \<Rightarrow> r)) (\<lambda>have.
     and_then (for_each have (\<lambda>(exe, _).
       if map_of want exe \<noteq> None then ret () else map_del GuardExeActions_update (slot, exe))) (\<lambda>_.
     and_then (for_each want (\<lambda>(exe, a).
       if map_of have exe = Some a then ret () else map_put GuardExeActions_update (slot, exe) a)) (\<lambda>_.
     modify (\<lambda>w. w\<lparr>e_setRows := AList.update slot want (e_setRows w)\<rparr>))))"

definition set_allows :: "world \<Rightarrow> (nat, resInfo) gomap \<Rightarrow> string \<Rightarrow> allow_set list" where
  "set_allows w info key =
     map (\<lambda>(res, _). case map_of (e_allows w) res of None \<Rightarrow> [] | Some s \<Rightarrow> s)
       (filter (\<lambda>(_, ri). ri_path ri \<in> set (setPaths key)) info)"

definition syncSetsLocked :: "(nat, resInfo) gomap \<Rightarrow> (GuardInodeKey, nat) gomap \<Rightarrow> unit act" where
  "syncSetsLocked info uni =
     and_then (get e_sets) (\<lambda>sets.
     and_then (for_each sets (\<lambda>(key, slot).
       and_then (get (\<lambda>w. intersectAllows (set_allows w info key))) (syncSetRowsLocked slot))) (\<lambda>_.
     let used = filter (\<lambda>s. s \<in> snd ` set sets) (map snd uni);
         members = planMemberRows sets info used in
     and_then (get e_memberRows) (\<lambda>have.
     and_then (syncSetMap have members) (\<lambda>_.
     modify (\<lambda>w. w\<lparr>e_memberRows := members\<rparr>)))))"

definition syncTaintLocked :: "unit act" where
  "syncTaintLocked =
     and_then (get e_started) (\<lambda>started. if \<not> started then ret () else
     and_then (get liveResInfoLocked) (\<lambda>info.
     and_then (get (\<lambda>w. planTaintOwners (withRealKeys (e_allows w)) info)) (\<lambda>plan.
     and_then (build_union plan) (\<lambda>uni.
     and_then (syncSetsLocked info uni) (\<lambda>_.
     and_then (get e_unionRows) (\<lambda>have.
     and_then (syncU32Map GuardExeUnion_update have uni) (\<lambda>_.
     modify (\<lambda>w. w\<lparr>e_unionRows := uni\<rparr>))))))))"

subsection \<open>The reserved slot\<close>

definition clearGlobalAllowsLocked :: "unit act" where
  "clearGlobalAllowsLocked =
     and_then (map_rows GuardExeActions) (\<lambda>rows.
     for_each (filter (\<lambda>k. fst k = resGlobal) (map fst rows)) (map_del GuardExeActions_update))"

definition allowIntersectionLocked :: "world \<Rightarrow> allow_set" where
  "allowIntersectionLocked w = intersectAllows (map snd (e_allows w))"

definition refreshGlobalLocked :: "unit act" where
  "refreshGlobalLocked =
     and_then (get e_started) (\<lambda>started. if \<not> started then ret () else
     and_then clearGlobalAllowsLocked (\<lambda>_.
     and_then (get allowIntersectionLocked) (\<lambda>rows.
     for_each rows (\<lambda>(exe, a). map_put GuardExeActions_update (resGlobal, exe) a))))"

definition syncSharedLocked :: "unit act" where
  "syncSharedLocked = and_then syncTaintLocked (\<lambda>_. refreshGlobalLocked)"

subsection \<open>Allows\<close>

definition res_allows :: "world \<Rightarrow> nat \<Rightarrow> allow_set" where
  "res_allows w res = (case map_of (e_allows w) res of None \<Rightarrow> [] | Some s \<Rightarrow> s)"

definition noteAllow :: "nat \<Rightarrow> GuardInodeKey \<Rightarrow> u8 \<Rightarrow> unit act" where
  "noteAllow res exe action =
     and_then (modify (\<lambda>w. w\<lparr>e_allows := AList.update res (AList.update exe action (res_allows w res)) (e_allows w)\<rparr>))
       (\<lambda>_. syncSharedLocked)"

definition noteDeny :: "nat \<Rightarrow> GuardInodeKey \<Rightarrow> unit act" where
  "noteDeny res exe =
     and_then (get (\<lambda>w. map_of (res_allows w res) exe)) (\<lambda>had.
       if had = None then ret () else
       and_then (modify (\<lambda>w. w\<lparr>e_allows := AList.update res (AList.delete exe (res_allows w res)) (e_allows w)\<rparr>))
         (\<lambda>_. syncSharedLocked))"

definition isInspector :: "world \<Rightarrow> GuardInodeKey \<Rightarrow> bool" where
  "isInspector w exe = (map_of (e_inspectors w) exe \<noteq> None)"

definition admitsExe :: "world \<Rightarrow> GuardInodeKey \<Rightarrow> bool" where
  "admitsExe w exe = (isInspector w exe \<or> list_ex (\<lambda>(_, s). list_ex (\<lambda>(k, _). Real k = exe) s) (e_allows w))"

text \<open>The code skips the refresh while no binary was ever allowed; there is nothing to refresh then.\<close>

definition forgetResource :: "nat \<Rightarrow> unit act" where
  "forgetResource res =
     and_then (modify (\<lambda>w. w\<lparr>e_allows := AList.delete res (e_allows w)\<rparr>)) (\<lambda>_. logged syncSharedLocked)"

subsection \<open>Rows of one binary\<close>

fun put_names :: "GuardInodeKey \<Rightarrow> string list \<Rightarrow> unit act" where
  "put_names file [] = ret ()"
| "put_names file (a # as) =
     and_then (\<lambda>w. case appletTag (w_mcReg w) a of
         (None, R) \<Rightarrow> (Inl TooManyNames, w\<lparr>w_mcReg := R\<rparr>)
       | (Some t, R) \<Rightarrow> (Inr t, w\<lparr>w_mcReg := R\<rparr>)) (\<lambda>tag.
     and_then (map_put GuardMulticallNames_update (mcNameKey file a) tag) (\<lambda>_. put_names file as))"

definition syncMulticallNamesLocked :: "GuardInodeKey \<Rightarrow> string list \<Rightarrow> string list \<Rightarrow> unit act" where
  "syncMulticallNamesLocked file prev applets =
     and_then (put_names file applets) (\<lambda>_.
       for_each prev (\<lambda>a. if a \<in> set applets then ret ()
         else map_del GuardMulticallNames_update (mcNameKey file a)))"

definition ensureMulticall :: "GuardInodeKey \<Rightarrow> unit act" where
  "ensureMulticall file =
     and_then (get (\<lambda>w. buildOf (w_mcReg w) file)) (\<lambda>build. case build of
       None \<Rightarrow> fail NeverClassified
     | Some applets \<Rightarrow>
         and_then (get (\<lambda>w. map_of (e_mcNames w) file)) (\<lambda>prev.
         and_then (if prev = Some applets then ret ()
             else and_then (syncMulticallNamesLocked file (case prev of None \<Rightarrow> [] | Some p \<Rightarrow> p) applets)
               (\<lambda>_. modify (\<lambda>w. w\<lparr>e_mcNames := AList.update file applets (e_mcNames w)\<rparr>)))
           (\<lambda>_. map_put GuardMulticall_update file ())))"

definition putExeAction :: "nat \<Rightarrow> GuardInodeKey \<Rightarrow> u8 \<Rightarrow> unit act" where
  "putExeAction r ik action =
     and_then (get (\<lambda>w. w_guards w r)) (\<lambda>g.
     and_then (if \<not> tagged ik then ret () else
       and_then (ensureMulticall (Real ik)) (\<lambda>_.
         if action = GUARD_BLOCK \<and> g_mode g = ModeBlacklist
         then map_put GuardExeActions_update (g_resID g, withTag ik mcTagNone) action else ret ())) (\<lambda>_.
     and_then (map_put GuardExeActions_update (g_resID g, ik) action) (\<lambda>_.
     if action = GUARD_ALLOW \<or> action = GUARD_ALLOW_ROOT then noteAllow (g_resID g) ik action
     else noteDeny (g_resID g) ik)))"

definition deleteExeRows :: "nat \<Rightarrow> GuardInodeKey \<Rightarrow> unit act" where
  "deleteExeRows r k =
     and_then (get (\<lambda>w. w_guards w r)) (\<lambda>g.
     and_then (for_each (k # (if tagged k \<and> g_mode g = ModeBlacklist then [withTag k mcTagNone] else []))
       (\<lambda>row. map_del GuardExeActions_update (g_resID g, row))) (\<lambda>_.
     and_then (map_del GuardExeEvents_update (g_resID g, k)) (\<lambda>_.
     noteDeny (g_resID g) k)))"

text \<open>\<open>deleteInoKeys\<close> and \<open>deleteResKeys\<close>: one walk, then the deletions.\<close>

definition delete_rows ::
    "(((rkey, 'v) gomap \<Rightarrow> (rkey, 'v) gomap) \<Rightarrow> world \<Rightarrow> world) \<Rightarrow> (world \<Rightarrow> (rkey, 'v) gomap) \<Rightarrow> (rkey \<Rightarrow> bool) \<Rightarrow> unit act" where
  "delete_rows upd sel stale =
     and_then (map_rows sel) (\<lambda>rows. for_each (filter stale (map fst rows)) (map_del upd))"

definition deleteInoKeys ::
    "(((rkey, 'v) gomap \<Rightarrow> (rkey, 'v) gomap) \<Rightarrow> world \<Rightarrow> world) \<Rightarrow> (world \<Rightarrow> (rkey, 'v) gomap) \<Rightarrow> GuardInodeKey \<Rightarrow> unit act" where
  "deleteInoKeys upd sel exe = delete_rows upd sel (\<lambda>k. Real (snd k) = exe)"

definition deleteResKeys ::
    "(((rkey, 'v) gomap \<Rightarrow> (rkey, 'v) gomap) \<Rightarrow> world \<Rightarrow> world) \<Rightarrow> (world \<Rightarrow> (rkey, 'v) gomap) \<Rightarrow> nat \<Rightarrow> unit act" where
  "deleteResKeys upd sel res = delete_rows upd sel (\<lambda>k. fst k = res)"

text \<open>What one guard remembers of a binary whose inode was freed.\<close>

definition guard_forgetExe :: "GuardInodeKey \<Rightarrow> Guard \<Rightarrow> Guard" where
  "guard_forgetExe k g = g\<lparr>
     g_retired := foldl (\<lambda>m (p, key). if Real key = k then AList.update p k m else m) (g_retired g) (g_deployed g),
     g_deployed := gm_keep (\<lambda>p key. Real key \<noteq> k) (g_deployed g),
     g_verifyStates := gm_keep (\<lambda>p st. Real (vs_key st) \<noteq> k) (g_verifyStates g),
     g_keyPaths := gm_keep (\<lambda>key p. Real key \<noteq> k) (g_keyPaths g)\<rparr>"

definition forget_guards :: "GuardInodeKey \<Rightarrow> world \<Rightarrow> world" where
  "forget_guards exe w = foldl (\<lambda>w (_, r). upd_guard r (guard_forgetExe exe) w) w (live_slots w)"

definition forget_rows :: "GuardInodeKey \<Rightarrow> unit act" where
  "forget_rows exe =
     and_then syncSharedLocked (\<lambda>_.
     and_then (deleteInoKeys GuardExeActions_update GuardExeActions exe) (\<lambda>_.
     deleteInoKeys GuardExeEvents_update GuardExeEvents exe))"

definition forgetExe :: "GuardInodeKey \<Rightarrow> unit act" where
  "forgetExe exe =
     and_then (modify (\<lambda>w. w\<lparr>e_inspectors := AList.delete exe (e_inspectors w)\<rparr>)) (\<lambda>_.
     and_then (get e_started) (\<lambda>started. if \<not> started then ret () else
     and_then (map_del GuardInspectors_update exe) (\<lambda>_.
     and_then (modify (\<lambda>w. w\<lparr>e_allows := map (\<lambda>(res, s). (res, gm_keep (\<lambda>k _. Real k \<noteq> exe) s)) (e_allows w)\<rparr>))
       (\<lambda>_ w. case forget_rows exe w of (r, w') \<Rightarrow> (r, forget_guards exe w')))))"

subsection \<open>Inspectors\<close>

definition maxInspectors :: nat where "maxInspectors = 64"

definition syncInspectorsLocked :: "(GuardInodeKey, string) gomap \<Rightarrow> unit act" where
  "syncInspectorsLocked want =
     and_then (for_each want (\<lambda>(k, _). map_put GuardInspectors_update k ())) (\<lambda>_.
     and_then (map_rows GuardInspectors) (\<lambda>rows.
     for_each (filter (\<lambda>k. map_of want k = None) (map fst rows)) (map_del GuardInspectors_update)))"

text \<open>What stays of the inspectors so far: listed ones whose inode lost its last link and is not freed. A
  mark that cannot be read counts as none.\<close>

fun want_inspectors ::
    "string list \<Rightarrow> (GuardInodeKey, string) gomap \<Rightarrow> (GuardInodeKey, string) gomap \<Rightarrow> (GuardInodeKey, string) gomap act" where
  "want_inspectors listed want [] = ret want"
| "want_inspectors listed want ((k, path) # ins) =
     (if map_of want k \<noteq> None \<or> path \<notin> set listed then want_inspectors listed want ins
      else and_then (map_look ExeSuperseded (Real k)) (\<lambda>mark.
        want_inspectors listed
          (if (case mark of None \<Rightarrow> False | Some v \<Rightarrow> su_Freed v = 0) then AList.update k path want else want) ins))"

definition setInspectors :: "(string \<times> GuardInodeKey) list \<Rightarrow> string list \<Rightarrow> unit act" where
  "setInspectors admitted listed =
     and_then (get e_inspectors) (\<lambda>ins.
     and_then (want_inspectors listed (foldl (\<lambda>m (path, k). AList.update k path m) [] admitted) ins) (\<lambda>want.
       if length want > maxInspectors then fail TooManyInspectorInodes
       else and_then (get e_started) (\<lambda>started.
         and_then (if started then syncInspectorsLocked want else ret ()) (\<lambda>_.
         modify (\<lambda>w. w\<lparr>e_inspectors := want\<rparr>)))))"

subsection \<open>Slots\<close>

definition allocSlotLocked :: "nat \<Rightarrow> nat act" where
  "allocSlotLocked r =
     and_then (get (\<lambda>w. find (free_slot w) [1..<GuardMaxRes])) (\<lambda>found. case found of
       None \<Rightarrow> fail NoFreeSlot
     | Some rid \<Rightarrow> and_then (modify (\<lambda>w. w\<lparr>e_slots := AList.update rid r (e_slots w)\<rparr>)) (\<lambda>_. ret rid))"

definition FreeResourceSlots :: "world \<Rightarrow> nat" where
  "FreeResourceSlots w = length (filter (free_slot w) [1..<GuardMaxRes])"

text \<open>A failed successor write is only logged: the taint then merges to the stricter slot.\<close>

definition link_one :: "nat \<Rightarrow> nat \<Rightarrow> unit act" where
  "link_one old rid w = (case map_put GuardTaintSuccessor_update old rid w of
      (Inl _, w') \<Rightarrow> (Inr (), w')
    | (Inr _, w') \<Rightarrow> (Inr (), w'\<lparr>e_successor := AList.update old rid (e_successor w')\<rparr>))"

definition linkReloadTwinLocked :: "nat \<Rightarrow> nat \<Rightarrow> unit act" where
  "linkReloadTwinLocked r rid =
     and_then (get (\<lambda>w. filter (\<lambda>(old, o'). old \<noteq> rid \<and> Clean (g_path (w_guards w o')) = Clean (g_path (w_guards w r)))
       (live_slots w))) (\<lambda>twins. for_each twins (\<lambda>(old, _). link_one old rid))"

definition unlinkReloadTwinLocked :: "nat \<Rightarrow> unit act" where
  "unlinkReloadTwinLocked rid =
     and_then (get (\<lambda>w. filter (\<lambda>(old, nx). old = rid \<or> nx = rid) (e_successor w))) (\<lambda>rows.
     for_each rows (\<lambda>(old, _). and_then (logged (map_put GuardTaintSuccessor_update old 0)) (\<lambda>_.
       modify (\<lambda>w. w\<lparr>e_successor := AList.delete old (e_successor w)\<rparr>))))"

definition reloadTwins :: "world \<Rightarrow> nat \<Rightarrow> nat list" where
  "reloadTwins w r = map snd (filter (\<lambda>(rid, o'). o' \<noteq> r \<and> Clean (g_path (w_guards w o')) = Clean (g_path (w_guards w r)))
     (live_slots w))"

text \<open>Closing the objects destroys the maps; \<open>startLocked\<close>, which loads them, is a parameter.\<close>

definition stopLocked :: "world \<Rightarrow> world" where
  "stopLocked w = w\<lparr>GuardExeActions := [], GuardExeEvents := [], GuardExeUnion := [], GuardTaintMembers := [],
     GuardTaintSuccessor := [], ResConfigs := [], GuardInodes := [], GuardInspectors := [],
     GuardMulticall := [], GuardMulticallNames := [], GuardQuietAllow := [],
     e_started := False, e_refs := 0, e_sets := [], e_setRows := [], e_unionRows := [], e_memberRows := [],
     e_prevOwner := [], e_successor := [], e_mcNames := []\<rparr>"

definition acquire :: "unit act \<Rightarrow> nat \<Rightarrow> nat act" where
  "acquire startLocked r =
     and_then (get e_started) (\<lambda>started.
     and_then (if started then ret () else startLocked) (\<lambda>_ w.
       case allocSlotLocked r w of
         (Inl e, w') \<Rightarrow> (Inl e, if e_refs w' = 0 then stopLocked w' else w')
       | (Inr rid, w') \<Rightarrow>
           and_then (modify (\<lambda>w. w\<lparr>e_refs := Suc (e_refs w)\<rparr>)) (\<lambda>_.
           and_then (linkReloadTwinLocked r rid) (\<lambda>_. ret rid)) w'))"

definition empty_config_row :: GuardResConfig where
  "empty_config_row = \<lparr>rc_Active = False, rc_Mode = ModeBlacklist, rc_Root = \<lparr>Dev = 0, Ino = 0\<rparr>, rc_TaintSet = False\<rparr>"

definition release :: "nat \<Rightarrow> unit act" where
  "release rid =
     and_then (get (\<lambda>w. rid < GuardMaxRes \<and> map_of (e_slots w) rid \<noteq> None)) (\<lambda>live.
     and_then (if \<not> live then ret () else
       and_then (modify (\<lambda>w. w\<lparr>e_slots := AList.delete rid (e_slots w)\<rparr>)) (\<lambda>_.
       and_then (get e_started) (\<lambda>started.
       and_then (if \<not> started then ret () else
         and_then (logged (map_put ResConfigs_update rid empty_config_row)) (\<lambda>_.
         and_then (logged (map_put GuardQuietAllow_update rid 0)) (\<lambda>_.
         and_then (unlinkReloadTwinLocked rid) (\<lambda>_. logged syncTaintLocked)))) (\<lambda>_.
       modify (\<lambda>w. w\<lparr>e_refs := e_refs w - 1\<rparr>))))) (\<lambda>_.
     modify (\<lambda>w. if e_refs w = 0 then stopLocked w else w)))"

end
