(* ===== verification/Guard_Trust.thy ===== *)
theory Guard_Trust
  imports Guard_Engine
begin

text \<open>
  The daemon-wide trust rows (\<open>internal/guard/trust.go\<close>, \<open>trust_update.go\<close>) and the superseded marks
  (\<open>supersede.go\<close>): which binaries and libraries are protected, which executable may replace which,
  and what happens to the rows of a binary whose inode was freed. File and map operations are those
  of the moment they happen: each read of the system takes its own tick.
\<close>

definition trustedBinary :: u8 where "trustedBinary = 1"
definition trustedLib :: u8 where "trustedLib = 2"

definition maxRetiredRows :: nat where "maxRetiredRows = 1024"

definition zero_key :: GuardInodeKey where "zero_key = \<lparr>Dev = 0, Ino = 0\<rparr>"

subsection \<open>The rows of one file\<close>

type_synonym bit_map =
  "(world \<Rightarrow> (GuardInodeKey, u64) gomap) \<times> (((GuardInodeKey, u64) gomap \<Rightarrow> (GuardInodeKey, u64) gomap) \<Rightarrow> world \<Rightarrow> world)"

definition trustBitMaps :: "bit_map list" where
  "trustBitMaps = [(GuardBinOwner, GuardBinOwner_update), (GuardBinUpdaters, GuardBinUpdaters_update),
     (GuardGlobWriters, GuardGlobWriters_update), (GuardLibdirUsers, GuardLibdirUsers_update)]"

fun read_bits :: "bit_map list \<Rightarrow> GuardInodeKey \<Rightarrow> u64 option list act" where
  "read_bits [] key = ret []"
| "read_bits (m # ms) key = and_then (map_look (fst m) key) (\<lambda>b. and_then (read_bits ms key) (\<lambda>bs. ret (b # bs)))"

definition trusts :: "GuardInodeKey \<Rightarrow> bool act" where
  "trusts k = and_then (map_look GuardTrustedFiles k) (\<lambda>f. ret (f \<noteq> None))"

definition retire :: "GuardInodeKey \<Rightarrow> unit act" where
  "retire key =
     and_then (map_look GuardTrustedFiles key) (\<lambda>flags. case flags of
       None \<Rightarrow> ret ()
     | Some f \<Rightarrow> and_then (read_bits trustBitMaps key) (\<lambda>bs.
         modify (\<lambda>w. if length (t_retired w) < maxRetiredRows
           then w\<lparr>t_retired := AList.update key \<lparr>tr_flags = f, tr_bits = bs\<rparr> (t_retired w)\<rparr> else w)))"

definition trust_forgetExe :: "GuardInodeKey \<Rightarrow> unit act" where
  "trust_forgetExe k =
     and_then (retire k) (\<lambda>_.
     and_then (map_del GuardTrustedFiles_update k) (\<lambda>_.
     for_each trustBitMaps (\<lambda>m. map_del (snd m) k)))"

definition rowsOf :: "GuardInodeKey \<Rightarrow> trustRows option act" where
  "rowsOf key =
     and_then (map_look GuardTrustedFiles key) (\<lambda>flags. case flags of
       Some f \<Rightarrow> and_then (read_bits trustBitMaps key) (\<lambda>bs. ret (Some \<lparr>tr_flags = f, tr_bits = bs\<rparr>))
     | None \<Rightarrow> get (\<lambda>w. map_of (t_retired w) key))"

text \<open>Every row of \<open>old\<close> goes to \<open>newKey\<close>, bits before the flag; a failed copy takes back what was
  written, as far as the deletions succeed.\<close>

definition rollback :: "GuardInodeKey \<Rightarrow> unit act" where
  "rollback newKey =
     and_then (logged (map_del GuardTrustedFiles_update newKey)) (\<lambda>_.
       for_each trustBitMaps (\<lambda>m. logged (map_del (snd m) newKey)))"

definition or_undo :: "GuardInodeKey \<Rightarrow> unit act \<Rightarrow> unit act" where
  "or_undo newKey m w = (case m w of (Inr _, w') \<Rightarrow> (Inr (), w')
     | (Inl e, w') \<Rightarrow> and_then (rollback newKey) (\<lambda>_. fail e) w')"

definition adoptRows :: "GuardInodeKey \<Rightarrow> GuardInodeKey \<Rightarrow> unit act" where
  "adoptRows old newKey =
     and_then (rowsOf old) (\<lambda>r. case r of
       None \<Rightarrow> and_then (map_look GuardTrustedFiles newKey) (\<lambda>flags. case flags of
           Some f \<Rightarrow> (if f AND trustedBinary \<noteq> 0 then ret () else fail NotTrusted)
         | None \<Rightarrow> fail NotTrusted)
     | Some r \<Rightarrow>
         if tr_flags r AND trustedBinary = 0 then fail NotTrusted else
         and_then (for_each (zip trustBitMaps (tr_bits r)) (\<lambda>(m, b). case b of
             None \<Rightarrow> ret () | Some bits \<Rightarrow> or_undo newKey (map_put (snd m) newKey bits))) (\<lambda>_.
         or_undo newKey (map_put GuardTrustedFiles_update newKey (tr_flags r))))"

subsection \<open>Freed inodes\<close>

definition exeGone :: "GuardInodeKey \<Rightarrow> bool act" where
  "exeGone k = and_then (map_look ExeSuperseded (Real k)) (\<lambda>v. ret (case v of None \<Rightarrow> False | Some m \<Rightarrow> su_Freed m \<noteq> 0))"

text \<open>Rows first, then the mark; the first error is logged and ends it.\<close>

definition dropSupersededLocked :: "GuardInodeKey \<Rightarrow> unit act" where
  "dropSupersededLocked k = logged (
     and_then (forgetExe k) (\<lambda>_.
     and_then (get w_trust) (\<lambda>t.
     and_then (if t = None then ret () else trust_forgetExe k) (\<lambda>_.
     map_del ExeSuperseded_update k))))"

definition liftSuperseded :: "GuardInodeKey \<Rightarrow> unit act" where
  "liftSuperseded k =
     and_then (exeGone (Real k)) (\<lambda>gone. if gone then dropSupersededLocked (Real k) else ret ())"

subsection \<open>Replacing a whitelisted binary\<close>

definition updaterCreated :: "string \<Rightarrow> GuardInodeKey \<Rightarrow> GuardInodeKey \<Rightarrow> bool act" where
  "updaterCreated path old nk =
     (if old = zero_key \<or> Dev old \<noteq> Dev nk then ret False else
      and_then (get (\<lambda>w. case map_of (t_ownerByPath w) path of None \<Rightarrow> 0 | Some o' \<Rightarrow> o')) (\<lambda>owner.
      if owner = 0 then ret False else
      and_then (map_look GuardBinOrigin nk) (\<lambda>origin. case origin of
        None \<Rightarrow> ret False
      | Some (exe, tainted) \<Rightarrow> if tainted then ret False else
          and_then (map_look GuardBinUpdaters exe) (\<lambda>upd.
            ret (case upd of None \<Rightarrow> False | Some u \<Rightarrow> u AND owner \<noteq> 0)))))"

definition CreatedByUpdater :: "system \<Rightarrow> nat option \<Rightarrow> GuardInodeKey \<Rightarrow> string \<Rightarrow> string list \<Rightarrow> bool act" where
  "CreatedByUpdater X f nk res ownerPaths =
     and_then (get (\<lambda>w. foldl (\<lambda>o' p. o' OR (case map_of (t_ownerByPath w) p of None \<Rightarrow> 0 | Some b \<Rightarrow> b))
       (case map_of (t_ownerByRes w) res of None \<Rightarrow> 0 | Some b \<Rightarrow> b) ownerPaths)) (\<lambda>owner.
     case f of None \<Rightarrow> ret False | Some fd \<Rightarrow>
     if owner = 0 then ret False else
     and_then (map_look GuardBinOrigin nk) (\<lambda>origin. case origin of
       None \<Rightarrow> ret False
     | Some (exe, tainted) \<Rightarrow> if tainted \<or> Dev exe \<noteq> Dev nk then ret False else
         and_then (look X (\<lambda>s. ge_isFuse s fd)) (\<lambda>fuse. if fuse then ret False else
         and_then (map_look GuardBinUpdaters exe) (\<lambda>upd.
           ret (case upd of None \<Rightarrow> False | Some u \<Rightarrow> u AND owner \<noteq> 0)))))"

text \<open>A name only root could have placed, still on the inode \<open>f\<close> holds, on a superblock root vouches
  for that did not die since.\<close>

definition systemFile :: "system \<Rightarrow> string \<Rightarrow> nat option \<Rightarrow> GuardInodeKey \<Rightarrow> bool act" where
  "systemFile X path f k =
     (if f = None then ret False else
      and_then (look X (\<lambda>s. ge_OpenSystemPlaced s path)) (\<lambda>sp. case sp of None \<Rightarrow> ret False | Some sp \<Rightarrow>
      and_then (look X (\<lambda>s. StatFile (x_kern s) 0 sp)) (\<lambda>key. if key \<noteq> Some k then ret False else
      and_then (look X (\<lambda>s. ge_SuperblockDev s sp)) (\<lambda>sbdev. case sbdev of None \<Rightarrow> ret False | Some sbdev \<Rightarrow>
      and_then (map_look GuardVouchedDevs sbdev) (\<lambda>synced. case synced of None \<Rightarrow> ret False | Some synced \<Rightarrow>
      and_then (map_look GuardDeadDevs sbdev) (\<lambda>died.
        ret (case died of None \<Rightarrow> True | Some d \<Rightarrow> d \<le> synced)))))))"

text \<open>An error of the row copy is logged and refuses the replacement.\<close>

definition succeeds :: "unit act \<Rightarrow> bool act" where
  "succeeds m w = (case m w of (Inl _, w') \<Rightarrow> (Inr False, w') | (Inr _, w') \<Rightarrow> (Inr True, w'))"

definition AllowReplacement :: "system \<Rightarrow> string \<Rightarrow> nat option \<Rightarrow> GuardInodeKey \<Rightarrow> GuardInodeKey \<Rightarrow> bool act" where
  "AllowReplacement X path f old newKey =
     and_then (updaterCreated path old newKey) (\<lambda>created. if created then
       and_then (liftSuperseded newKey) (\<lambda>_. succeeds (adoptRows old newKey))
     else and_then (systemFile X path f newKey) (\<lambda>sys. if \<not> sys then ret False else
       and_then (liftSuperseded newKey) (\<lambda>_.
       and_then (if old = zero_key then ret False else trusts old) (\<lambda>known.
       if known then succeeds (adoptRows old newKey)
       else and_then (look X (\<lambda>s. case f of None \<Rightarrow> 0 | Some fd \<Rightarrow> ge_runtimeClass s fd path)) (\<lambda>rt.
         succeeds (map_put GuardTrustedFiles_update newKey (trustedBinary OR rt)))))))"

end
