(* ===== verification/Guard_Policy.thy ===== *)
theory Guard_Policy
  imports Guard_Trust
begin

text \<open>
  One guard's policy (\<open>internal/guard/policy.go\<close> and the binary handling of \<open>guard.go\<close>): writing a
  binary's rows, replacing the whole list in place, deferred entries, and the access the program's
  own binary is given. A guard \<open>r\<close> is its number in the heap. Held file descriptors, which only keep
  inode numbers from being reused, and log output are left out.
\<close>

type_synonym event_lists = "(string, event_type list) gomap"

subsection \<open>Keys\<close>

text \<open>\<open>ExeKey\<close> as an operation: it may register a multicall build.\<close>

definition exe_key :: "system \<Rightarrow> string \<Rightarrow> nat option \<Rightarrow> GuardInodeKey \<Rightarrow> GuardInodeKey act" where
  "exe_key X path f file w =
     (case ExeKey (exe_env.truncate (X (tick w))) (w_mcReg w) path f file of
        (Inl e, R) \<Rightarrow> (Inl (BadExe e), (step_tick w)\<lparr>w_mcReg := R\<rparr>)
      | (Inr k, R) \<Rightarrow> (Inr k, (step_tick w)\<lparr>w_mcReg := R\<rparr>))"

definition stat_confined :: "system \<Rightarrow> string \<Rightarrow> GuardInodeKey act" where
  "stat_confined X path =
     and_then (look X (\<lambda>s. StatConfined (x_kern s) (x_homes s) path)) (\<lambda>r. case r of
       Inl e \<Rightarrow> fail (StatFailed e) | Inr (d, i) \<Rightarrow> ret \<lparr>Dev = d, Ino = i\<rparr>)"

definition binaryKey :: "system \<Rightarrow> nat \<Rightarrow> string \<Rightarrow> GuardInodeKey act" where
  "binaryKey X r path =
     and_then (get (\<lambda>w. map_of (g_vetted (w_guards w r)) path)) (\<lambda>v. case v of
       Some key \<Rightarrow> ret key | None \<Rightarrow> stat_confined X path)"

subsection \<open>Rows of a binary\<close>

fun checkBinaryEvents :: "Mode \<Rightarrow> BinaryEntry list \<Rightarrow> event_lists \<Rightarrow> gerr + unit" where
  "checkBinaryEvents m [] events = Inr ()"
| "checkBinaryEvents m (b # bs) events =
     (case map_of events (be_Path b) of
        None \<Rightarrow> checkBinaryEvents m bs events
      | Some types \<Rightarrow>
          if types = [] then checkBinaryEvents m bs events
          else if m \<noteq> ModeWhitelist then Inl WrongMode
          else (case eventMask types of Inl e \<Rightarrow> Inl (BadMask e) | Inr _ \<Rightarrow> checkBinaryEvents m bs events))"

definition putBinaryKey :: "nat \<Rightarrow> GuardInodeKey \<Rightarrow> string \<Rightarrow> event_lists \<Rightarrow> unit act" where
  "putBinaryKey r key path events =
     and_then (get (\<lambda>w. w_guards w r)) (\<lambda>g.
     and_then (if g_mode g \<noteq> ModeWhitelist then ret () else
       (case map_of events path of
          None \<Rightarrow> ret ()
        | Some types \<Rightarrow> if types = [] then ret ()
            else and_then (lift_sum BadMask (eventMask types)) (\<lambda>msk.
              map_put GuardExeEvents_update (g_resID g, key) msk))) (\<lambda>_.
     putExeAction r key (if g_mode g = ModeWhitelist \<or> g_mode g = ModeReadOnly then GUARD_ALLOW else GUARD_BLOCK)))"

definition holdLocked :: "string \<Rightarrow> nat option \<Rightarrow> Guard \<Rightarrow> Guard" where
  "holdLocked path f g = g\<lparr>g_held := (case f of None \<Rightarrow> AList.delete path (g_held g) | Some fd \<Rightarrow> AList.update path fd (g_held g))\<rparr>"

definition note_deployed :: "nat \<Rightarrow> string \<Rightarrow> GuardInodeKey \<Rightarrow> string \<Rightarrow> world \<Rightarrow> world" where
  "note_deployed r canonical key path = upd_guard r (\<lambda>g. holdLocked path None (g\<lparr>g_deployed := AList.update canonical key (g_deployed g),
     g_keyPaths := AList.update key path (g_keyPaths g)\<rparr>))"

definition addBinaryAction :: "system \<Rightarrow> nat \<Rightarrow> event_lists \<Rightarrow> BinaryEntry \<Rightarrow> unit act" where
  "addBinaryAction X r events b =
     and_then (binaryKey X r (be_Path b)) (\<lambda>file.
     and_then (exe_key X (be_Path b) None file) (\<lambda>key.
     and_then (liftSuperseded key) (\<lambda>_.
     and_then (putBinaryKey r key (be_Path b) events) (\<lambda>_.
     and_then (look X (\<lambda>s. canonicalBinaryPath s (be_Path b))) (\<lambda>canonical.
     modify (note_deployed r canonical key (be_Path b)))))))"

definition addBinaryActions :: "system \<Rightarrow> nat \<Rightarrow> BinaryEntry list \<Rightarrow> event_lists \<Rightarrow> unit act" where
  "addBinaryActions X r binaries events =
     and_then (get (\<lambda>w. checkBinaryEvents (g_mode (w_guards w r)) binaries events)) (\<lambda>c.
     and_then (lift_sum id c) (\<lambda>_. for_each binaries (addBinaryAction X r events)))"

definition checkBtrfsKeys :: "system \<Rightarrow> string \<Rightarrow> BinaryEntry list \<Rightarrow> unit act" where
  "checkBtrfsKeys X root bins =
     and_then (look X (\<lambda>s. if ge_btrfsLayout s then None else find (ge_onBtrfs s) (root # map be_Path bins))) (\<lambda>p.
       case p of None \<Rightarrow> ret () | Some p \<Rightarrow> fail (OnBtrfs p))"

lemma holdLocked_simps [simp]:
  "g_resID (holdLocked path f g) = g_resID g" "g_mode (holdLocked path f g) = g_mode g"
  "g_stopped (holdLocked path f g) = g_stopped g" "g_binaries (holdLocked path f g) = g_binaries g"
  "g_deployed (holdLocked path f g) = g_deployed g" "g_keyPaths (holdLocked path f g) = g_keyPaths g"
  "g_verifyStates (holdLocked path f g) = g_verifyStates g" "g_vetted (holdLocked path f g) = g_vetted g"
  "g_selfKey (holdLocked path f g) = g_selfKey g" "g_path (holdLocked path f g) = g_path g"
  by (simp_all add: holdLocked_def)

subsection \<open>The verifier's states\<close>

definition empty_stat :: BinaryStat where
  "empty_stat = \<lparr>bs_Key = zero_key, bs_Size = 0, bs_MtimeNs = 0, bs_CtimeNs = 0\<rparr>"

definition newVerifyState :: "world \<Rightarrow> GuardInodeKey \<Rightarrow> bytes \<Rightarrow> verifyState" where
  "newVerifyState w key hash =
     (case map_of (w_sharedHashes w) (Real key) of
        Some (st, h) \<Rightarrow> if h = hash then \<lparr>vs_key = key, vs_stat = st, vs_hash = hash, vs_hashed = True, vs_demoted = False\<rparr>
          else \<lparr>vs_key = key, vs_stat = empty_stat, vs_hash = hash, vs_hashed = False, vs_demoted = False\<rparr>
      | None \<Rightarrow> \<lparr>vs_key = key, vs_stat = empty_stat, vs_hash = hash, vs_hashed = False, vs_demoted = False\<rparr>)"

definition pin_state :: "nat \<Rightarrow> string \<Rightarrow> bytes \<Rightarrow> world \<Rightarrow> world" where
  "pin_state r canonical hash w =
     (case map_of (g_deployed (w_guards w r)) canonical of
        None \<Rightarrow> w
      | Some key \<Rightarrow> upd_guard r (\<lambda>g. g\<lparr>g_verifyStates := AList.update canonical (newVerifyState w key hash) (g_verifyStates g)\<rparr>) w)"

definition startBinaryHashVerifier :: "system \<Rightarrow> nat \<Rightarrow> unit act" where
  "startBinaryHashVerifier X r =
     and_then (modify (upd_guard r (\<lambda>g. g\<lparr>g_verifyStates := []\<rparr>))) (\<lambda>_.
     and_then (get (\<lambda>w. g_binaries (w_guards w r))) (\<lambda>bs.
     and_then (for_each bs (\<lambda>b. and_then (look X (\<lambda>s. canonicalBinaryPath s (be_Path b))) (\<lambda>c. modify (pin_state r c (be_Hash b))))) (\<lambda>_.
     modify (upd_guard r (\<lambda>g. g\<lparr>g_verifying := True, g_pinning := True\<rparr>)))))"

subsection \<open>Replacing the list in place\<close>

definition diffBinaries :: "BinaryEntry list \<Rightarrow> BinaryEntry list \<Rightarrow> BinaryEntry list \<times> BinaryEntry list" where
  "diffBinaries cur nx = (filter (\<lambda>n. n \<notin> set cur) nx, filter (\<lambda>c. c \<notin> set nx) cur)"

definition note_added :: "nat \<Rightarrow> BinaryEntry \<Rightarrow> string \<Rightarrow> world \<Rightarrow> world" where
  "note_added r b canonical w =
     (let w' = upd_guard r (\<lambda>g. g\<lparr>g_binaries := g_binaries g @ [b],
            g_canonicalPaths := AList.update (be_Path b) canonical (g_canonicalPaths g)\<rparr>) w in
      if g_verifying (w_guards w' r) then pin_state r canonical (be_Hash b) w' else w')"

definition addBinaries :: "system \<Rightarrow> nat \<Rightarrow> BinaryEntry list \<Rightarrow> unit act" where
  "addBinaries X r added =
     (if added = [] then ret () else
      and_then (get (\<lambda>w. g_path (w_guards w r))) (\<lambda>path.
      and_then (checkBtrfsKeys X path added) (\<lambda>_.
      and_then (addBinaryActions X r added []) (\<lambda>_.
      and_then (for_each added (\<lambda>b. and_then (look X (\<lambda>s. canonicalBinaryPath s (be_Path b))) (\<lambda>c. modify (note_added r b c)))) (\<lambda>_.
      and_then (get (\<lambda>w. g_mode (w_guards w r) = ModeWhitelist \<and> \<not> g_verifying (w_guards w r))) (\<lambda>start.
      if start then startBinaryHashVerifier X r else ret ()))))))"

text \<open>Every key the guard wrote for a path: the deployed one and superseded ones.\<close>

definition entry_keys :: "Guard \<Rightarrow> string \<Rightarrow> string \<Rightarrow> GuardInodeKey list" where
  "entry_keys g canonical path =
     (let dep = (case map_of (g_deployed g) canonical of None \<Rightarrow> [] | Some k \<Rightarrow> [k]) in
      dep @ filter (\<lambda>k. k \<notin> set dep) (map fst (filter (\<lambda>(k, p). p = path) (g_keyPaths g))))"

definition entryKeysLocked :: "system \<Rightarrow> nat \<Rightarrow> string \<Rightarrow> GuardInodeKey list act" where
  "entryKeysLocked X r path =
     and_then (look X (\<lambda>s. canonicalBinaryPath s path)) (\<lambda>c. get (\<lambda>w. entry_keys (w_guards w r) c path))"

record keptEntries =
  ke_owners :: "(GuardInodeKey, string) gomap"
  ke_canonical :: "string list"
  ke_paths :: "string list"

fun kept_entries :: "system \<Rightarrow> nat \<Rightarrow> keptEntries \<Rightarrow> BinaryEntry list \<Rightarrow> keptEntries act" where
  "kept_entries X r K [] = ret K"
| "kept_entries X r K (e # es) =
     and_then (entryKeysLocked X r (be_Path e)) (\<lambda>ks.
     and_then (look X (\<lambda>s. canonicalBinaryPath s (be_Path e))) (\<lambda>c.
     kept_entries X r (K\<lparr>ke_owners := foldl (\<lambda>m k. AList.update k (be_Path e) m) (ke_owners K) ks,
       ke_canonical := c # ke_canonical K, ke_paths := be_Path e # ke_paths K\<rparr>) es))"

definition keptLocked :: "system \<Rightarrow> nat \<Rightarrow> BinaryEntry list \<Rightarrow> keptEntries act" where
  "keptLocked X r keep = kept_entries X r \<lparr>ke_owners = [], ke_canonical = [], ke_paths = []\<rparr> keep"

fun removed_keys :: "system \<Rightarrow> nat \<Rightarrow> keptEntries \<Rightarrow> GuardInodeKey list \<Rightarrow> BinaryEntry list \<Rightarrow> GuardInodeKey list act" where
  "removed_keys X r K acc [] = ret acc"
| "removed_keys X r K acc (b # bs) =
     and_then (entryKeysLocked X r (be_Path b)) (\<lambda>ks.
     removed_keys X r K (foldl (\<lambda>acc k. if map_of (ke_owners K) k \<noteq> None \<or> k \<in> set acc then acc else acc @ [k]) acc ks) bs)"

definition forget_entry :: "system \<Rightarrow> nat \<Rightarrow> keptEntries \<Rightarrow> BinaryEntry \<Rightarrow> unit act" where
  "forget_entry X r K b =
     and_then (modify (upd_guard r (\<lambda>g. g\<lparr>g_binaries := filter (\<lambda>e. e \<noteq> b) (g_binaries g)\<rparr>))) (\<lambda>_.
     if be_Path b \<in> set (ke_paths K) then ret () else
     and_then (modify (upd_guard r (\<lambda>g. holdLocked (be_Path b) None (g\<lparr>g_canonicalPaths := AList.delete (be_Path b) (g_canonicalPaths g)\<rparr>)))) (\<lambda>_.
     and_then (look X (\<lambda>s. canonicalBinaryPath s (be_Path b))) (\<lambda>c.
     if c \<in> set (ke_canonical K) then ret () else
     modify (upd_guard r (\<lambda>g. g\<lparr>g_deployed := AList.delete c (g_deployed g), g_verifyStates := AList.delete c (g_verifyStates g)\<rparr>)))))"

definition forgetLocked :: "system \<Rightarrow> nat \<Rightarrow> BinaryEntry list \<Rightarrow> GuardInodeKey list \<Rightarrow> keptEntries \<Rightarrow> unit act" where
  "forgetLocked X r removed keys K =
     and_then (for_each removed (forget_entry X r K)) (\<lambda>_.
     modify (upd_guard r (\<lambda>g. g\<lparr>g_keyPaths :=
       foldl (\<lambda>m (k, p). case map_of m k of None \<Rightarrow> m | Some cur \<Rightarrow> if cur \<in> set (ke_paths K) then m else AList.update k p m)
         (foldl (\<lambda>m k. AList.delete k m) (g_keyPaths g) keys) (ke_owners K)\<rparr>)))"

definition removeBinaries :: "system \<Rightarrow> nat \<Rightarrow> BinaryEntry list \<Rightarrow> BinaryEntry list \<Rightarrow> unit act" where
  "removeBinaries X r removed keep =
     (if removed = [] then ret () else
      and_then (keptLocked X r keep) (\<lambda>K.
      and_then (removed_keys X r K [] removed) (\<lambda>keys.
      and_then (for_each keys (deleteExeRows r)) (\<lambda>_.
      forgetLocked X r removed keys K))))"

definition SetBinaries :: "system \<Rightarrow> nat \<Rightarrow> BinaryEntry list \<Rightarrow> unit act" where
  "SetBinaries X r entries =
     and_then (get (\<lambda>w. w_guards w r)) (\<lambda>g.
     if g_mode g \<noteq> ModeWhitelist \<and> g_mode g \<noteq> ModeBlacklist then fail WrongMode
     else if g_stopped g then fail Stopped
     else if g_pinPrefix g \<noteq> [] \<or> g_deferred g \<noteq> [] \<or> g_selfKey g \<noteq> None then fail NotPlain
     else let (added, removed) = diffBinaries (g_binaries g) entries in
       if g_mode g = ModeWhitelist then
         and_then (removeBinaries X r removed (filter (\<lambda>e. e \<notin> set added) entries)) (\<lambda>_. addBinaries X r added)
       else
         and_then (addBinaries X r added) (\<lambda>_. removeBinaries X r removed entries))"

end
