(* ===== verification/Temp_Grant.thy ===== *)
theory Temp_Grant
  imports Guard_Policy
begin

text \<open>
  Temporary grants (\<open>internal/guard/tempgrant.go\<close>): an authenticated session adds whitelist rows, or
  narrows existing ones, for its lifetime. A grant is planned against the current rows, applied only
  while they are still the same, and taken back only where they still hold what it wrote.
\<close>

record TempBinary =
  tb_Path :: string
  tb_Key :: GuardInodeKey
  tb_SystemPlaced :: bool
  tb_Runtime :: u8
  tb_file :: "nat option" \<comment> \<open>the open file, \<open>None\<close> once closed\<close>
  tb_hash :: bytes
  tb_stat :: BinaryStat

record TempRule =
  ru_Allow :: bool
  ru_Events :: "event_type list"

text \<open>One key's whitelist state on a resource; an absent mask is every event.\<close>

record exeRow =
  er_action :: "u8 option"
  er_mask :: "u32 option"

datatype tempMaskOp = maskKeep | maskPut | maskDelete

record tempRow =
  tw_bin :: TempBinary
  tw_prior :: exeRow
  tw_newAction :: u8 \<comment> \<open>0 leaves the action alone\<close>
  tw_maskOp :: tempMaskOp
  tw_newMask :: u32
  tw_applied :: bool
  tw_trust :: "nat option"
  tw_trustHad :: bool
  tw_trustPrior :: u8
  tw_trustAdded :: u8

record tempGrant =
  tg_g :: nat
  tg_rows :: "tempRow list"
  tg_report :: "string list" \<comment> \<open>one line for each binary left alone\<close>
  tg_revoked :: bool

definition allEventBits :: u32 where "allEventBits = NOT 0"

subsection \<open>Binaries\<close>

text \<open>What \<open>fstat\<close> says of an open file; seconds and nanoseconds apart, as the kernel has them.\<close>

record unix_stat =
  us_Mode :: u32
  us_Major :: u32
  us_Minor :: u32
  us_Ino :: u64
  us_Size :: int
  us_Mtim :: "int \<times> int"
  us_Ctim :: "int \<times> int"

record temp_env = guard_env +
  te_Fstat :: "nat \<Rightarrow> unix_stat option"
  te_SystemPlacedInode :: "string \<Rightarrow> GuardInodeKey \<Rightarrow> bool"

definition unix_nano :: "int \<times> int \<Rightarrow> int" where
  "unix_nano ts = sint (word_of_int (fst ts * 1000000000 + snd ts) :: 64 word)"

definition binaryStatOf :: "unix_stat \<Rightarrow> BinaryStat" where
  "binaryStatOf st = \<lparr>bs_Key = \<lparr>Dev = KernelDev (us_Major st) (us_Minor st), Ino = us_Ino st\<rparr>, bs_Size = us_Size st,
     bs_MtimeNs = unix_nano (us_Mtim st), bs_CtimeNs = unix_nano (us_Ctim st)\<rparr>"

definition executable_file :: "unix_stat \<Rightarrow> bool" where
  "executable_file st \<longleftrightarrow> us_Mode st AND 0xF000 = 0x8000 \<and> us_Mode st AND 73 \<noteq> 0"

definition env_look :: "(nat \<Rightarrow> temp_env) \<Rightarrow> (temp_env \<Rightarrow> 'a) \<Rightarrow> 'a act" where
  "env_look X f w = (Inr (f (X (tick w))), step_tick w)"

definition ResolveTempBinary :: "(nat \<Rightarrow> temp_env) \<Rightarrow> string \<Rightarrow> TempBinary act" where
  "ResolveTempBinary X path =
     and_then (env_look X (\<lambda>s. OpenConfined (x_kern s) (x_homes s) path)) (\<lambda>opened.
     and_then (lift_sum StatFailed opened) (\<lambda>f.
     and_then (env_look X (\<lambda>s. te_Fstat s f)) (\<lambda>st. case st of None \<Rightarrow> fail (StatFailed FstatFailed) | Some st \<Rightarrow>
     if \<not> executable_file st then fail NotPlain else
     let stat = binaryStatOf st; file = bs_Key stat in
     and_then (env_look X (\<lambda>s. ge_Hash s f)) (\<lambda>h. case h of None \<Rightarrow> fail HashFailed | Some h \<Rightarrow>
     and_then (env_look X (\<lambda>s. te_SystemPlacedInode s path file)) (\<lambda>placed.
     and_then (env_look X (\<lambda>s. ge_runtimeClass s f path)) (\<lambda>rt.
     and_then (exe_key (\<lambda>t. guard_env.truncate (X t)) path (Some f) file) (\<lambda>key.
     ret \<lparr>tb_Path = path, tb_Key = key, tb_SystemPlaced = placed, tb_Runtime = rt, tb_file = Some f,
       tb_hash = h, tb_stat = stat\<rparr>)))))))"

definition runtime_names :: "(u8 \<times> string) list" where
  "runtime_names = [(4, ''Node''), (32, ''Electron''), (16, ''Chromium''), (8, ''JVM''), (64, ''Bun'')]"

definition RuntimeNames :: "TempBinary \<Rightarrow> string list" where
  "RuntimeNames b = map snd (filter (\<lambda>(bit, _). tb_Runtime b AND bit \<noteq> 0) runtime_names)"

definition TempBinary_Close :: "TempBinary \<Rightarrow> TempBinary" where
  "TempBinary_Close b = b\<lparr>tb_file := None\<rparr>"

text \<open>\<open>Changed\<close>: an unreadable file counts as changed; the state remembers a new fingerprint of the
  same content.\<close>

definition Changed :: "(nat \<Rightarrow> unix_stat option) \<Rightarrow> (nat \<Rightarrow> bytes option) \<Rightarrow> TempBinary \<Rightarrow> bool \<times> TempBinary" where
  "Changed fstat hash_of b =
     (case tb_file b of
        None \<Rightarrow> (False, b)
      | Some f \<Rightarrow>
          (case fstat f of
             None \<Rightarrow> (True, b)
           | Some st \<Rightarrow>
               let fp = binaryStatOf st in
               if fp = tb_stat b then (False, b)
               else (case hash_of f of
                       None \<Rightarrow> (True, b)
                     | Some h \<Rightarrow> if h \<noteq> tb_hash b then (True, b) else (False, b\<lparr>tb_stat := fp\<rparr>))))"

subsection \<open>Planning\<close>

definition readExeRow :: "nat \<Rightarrow> GuardInodeKey \<Rightarrow> exeRow act" where
  "readExeRow r k =
     and_then (get (\<lambda>w. g_resID (w_guards w r))) (\<lambda>res.
     and_then (map_get GuardExeActions (res, k)) (\<lambda>a.
     and_then (map_get GuardExeEvents (res, k)) (\<lambda>m.
     ret \<lparr>er_action = a, er_mask = m\<rparr>)))"

definition new_row :: "TempBinary \<Rightarrow> exeRow \<Rightarrow> tempRow" where
  "new_row b prior = \<lparr>tw_bin = b, tw_prior = prior, tw_newAction = 0, tw_maskOp = maskKeep, tw_newMask = 0,
     tw_applied = False, tw_trust = None, tw_trustHad = False, tw_trustPrior = 0, tw_trustAdded = 0\<rparr>"

text \<open>\<open>None\<close>: nothing to change.\<close>

definition planTempAllow :: "tempRow \<Rightarrow> event_type list \<Rightarrow> gerr + tempRow option" where
  "planTempAllow row events =
     (case er_action (tw_prior row) of
        Some a \<Rightarrow> if a = GUARD_ALLOW then Inr None else Inl IsBlocked
      | None \<Rightarrow>
          let row = row\<lparr>tw_newAction := GUARD_ALLOW\<rparr> in
          if events \<noteq> [] then
            (case eventMask events of
               Inl e \<Rightarrow> Inl (BadMask e)
             | Inr msk \<Rightarrow> Inr (Some (row\<lparr>tw_newMask := msk, tw_maskOp := maskPut\<rparr>)))
          else if er_mask (tw_prior row) \<noteq> None then Inr (Some (row\<lparr>tw_maskOp := maskDelete\<rparr>))
          else Inr (Some row))"

definition deny_step :: "u32 \<Rightarrow> event_type \<Rightarrow> gerr + u32" where
  "deny_step deny t = (if t < 0 \<or> t \<ge> 32 then Inl (EventRange t) else Inr (deny OR push_bit (nat t) 1))"

definition planTempBlock :: "tempRow \<Rightarrow> event_type list \<Rightarrow> gerr + tempRow option" where
  "planTempBlock row events =
     (if er_action (tw_prior row) \<noteq> Some GUARD_ALLOW then Inr None
      else if events = [] then Inr (Some (row\<lparr>tw_newAction := GUARD_BLOCK\<rparr>))
      else case rfold deny_step 0 events of
        Inl e \<Rightarrow> Inl e
      | Inr deny \<Rightarrow>
          let base = (case er_mask (tw_prior row) of None \<Rightarrow> allEventBits | Some m \<Rightarrow> m) in
          Inr (Some (row\<lparr>tw_newMask := base AND NOT deny, tw_maskOp := maskPut\<rparr>)))"

definition plan_binary :: "nat \<Rightarrow> TempRule \<Rightarrow> GuardInodeKey option \<Rightarrow> TempBinary \<Rightarrow> tempRow option act" where
  "plan_binary r rule selfKey b =
     (if selfKey = Some (tb_Key b) then fail SelfBinary else
      and_then (get (\<lambda>w. isInspector w (tb_Key b))) (\<lambda>insp. if insp then fail IsInspector else
      and_then (readExeRow r (tb_Key b)) (\<lambda>prior.
      lift_sum id ((if ru_Allow rule then planTempAllow else planTempBlock) (new_row b prior) (ru_Events rule)))))"

text \<open>The dash of the messages, in UTF-8.\<close>

definition tempSkipReason :: "string \<Rightarrow> TempBinary \<Rightarrow> TempRule \<Rightarrow> string" where
  "tempSkipReason gpath b rule =
     (let dash = [CHR 0xE2, CHR 0x80, CHR 0x94] in
      if ru_Allow rule then gpath @ '': '' @ tb_Path b @ '' is already whitelisted '' @ dash @ '' left unchanged''
      else gpath @ '': '' @ tb_Path b @ '' is not whitelisted '' @ dash @ '' already denied'')"

fun plan_rows :: "nat \<Rightarrow> TempRule \<Rightarrow> GuardInodeKey option \<Rightarrow> tempGrant \<Rightarrow> TempBinary list \<Rightarrow> tempGrant act" where
  "plan_rows r rule selfKey t [] = ret t"
| "plan_rows r rule selfKey t (b # bs) =
     and_then (plan_binary r rule selfKey b) (\<lambda>row.
     and_then (get (\<lambda>w. g_path (w_guards w r))) (\<lambda>gpath.
     plan_rows r rule selfKey (case row of
       None \<Rightarrow> t\<lparr>tg_report := tg_report t @ [tempSkipReason gpath b rule]\<rparr>
     | Some row \<Rightarrow> t\<lparr>tg_rows := tg_rows t @ [row]\<rparr>) bs))"

definition PlanTemporaryGrant :: "nat \<Rightarrow> TempBinary list \<Rightarrow> TempRule \<Rightarrow> tempGrant act" where
  "PlanTemporaryGrant r bins rule =
     and_then (get (\<lambda>w. w_guards w r)) (\<lambda>g.
     if g_mode g \<noteq> ModeWhitelist then fail WrongMode
     else if g_stopped g then fail Stopped
     else plan_rows r rule (g_selfKey g) \<lparr>tg_g = r, tg_rows = [], tg_report = [], tg_revoked = False\<rparr> bins)"

definition JournalRows :: "world \<Rightarrow> tempGrant \<Rightarrow> rkey list" where
  "JournalRows w t = map (\<lambda>row. (g_resID (w_guards w (tg_g t)), tb_Key (tw_bin row)))
     (filter (\<lambda>row. tw_newAction row = GUARD_ALLOW) (tg_rows t))"

subsection \<open>Applying\<close>

definition restoreMask :: "nat \<Rightarrow> GuardInodeKey \<Rightarrow> u32 option \<Rightarrow> unit act" where
  "restoreMask r k had =
     and_then (get (\<lambda>w. g_resID (w_guards w r))) (\<lambda>res. case had of
       Some m \<Rightarrow> map_put GuardExeEvents_update (res, k) m
     | None \<Rightarrow> map_del GuardExeEvents_update (res, k))"

definition trustTempRuntime :: "tempRow \<Rightarrow> nat option \<Rightarrow> tempRow act" where
  "trustTempRuntime row t =
     (case t of None \<Rightarrow> fail TrustNotRunning | Some _ \<Rightarrow>
      if tb_Runtime (tw_bin row) = 0 then ret row else
      let k = Real (tb_Key (tw_bin row)); rt = tb_Runtime (tw_bin row) in
      and_then (map_get GuardTrustedFiles k) (\<lambda>cur. case cur of
        Some flags \<Rightarrow>
          if flags AND trustedBinary \<noteq> 0 \<or> flags AND rt = rt then ret row
          else and_then (map_put GuardTrustedFiles_update k (flags OR rt)) (\<lambda>_.
            ret (row\<lparr>tw_trust := t, tw_trustHad := True, tw_trustPrior := flags, tw_trustAdded := rt AND NOT flags\<rparr>))
      | None \<Rightarrow> and_then (map_put GuardTrustedFiles_update k rt) (\<lambda>_.
          ret (row\<lparr>tw_trust := t, tw_trustHad := False, tw_trustPrior := 0, tw_trustAdded := rt\<rparr>))))"

text \<open>Block first and allow last, the mask in between.\<close>

definition write_masks :: "nat \<Rightarrow> tempRow \<Rightarrow> unit act" where
  "write_masks r row =
     and_then (if tw_newAction row = GUARD_BLOCK then putExeAction r (tb_Key (tw_bin row)) GUARD_BLOCK else ret ()) (\<lambda>_.
     case tw_maskOp row of
       maskPut \<Rightarrow> restoreMask r (tb_Key (tw_bin row)) (Some (tw_newMask row))
     | maskDelete \<Rightarrow> restoreMask r (tb_Key (tw_bin row)) None
     | maskKeep \<Rightarrow> ret ())"

definition writeTempRow :: "nat \<Rightarrow> nat option \<Rightarrow> tempRow \<Rightarrow> (tempRow \<times> gerr option) act" where
  "writeTempRow r trust row =
     and_then (attempt (write_masks r row)) (\<lambda>x. case x of
       Inl e \<Rightarrow> ret (row, Some e)
     | Inr _ \<Rightarrow>
         if tw_newAction row \<noteq> GUARD_ALLOW then ret (row, None)
         else and_then (attempt (trustTempRuntime row trust)) (\<lambda>y. case y of
           Inl e \<Rightarrow> ret (row, Some e)
         | Inr row' \<Rightarrow> and_then (attempt (putExeAction r (tb_Key (tw_bin row)) GUARD_ALLOW)) (\<lambda>z.
             ret (row', case z of Inl e \<Rightarrow> Some e | Inr _ \<Rightarrow> None))))"

definition applyTempRow :: "nat \<Rightarrow> nat option \<Rightarrow> tempRow \<Rightarrow> (tempRow \<times> gerr option) act" where
  "applyTempRow r trust row =
     and_then (attempt (readExeRow r (tb_Key (tw_bin row)))) (\<lambda>x. case x of
       Inl e \<Rightarrow> ret (row, Some e)
     | Inr cur \<Rightarrow> if cur \<noteq> tw_prior row then ret (row, Some RowMoved)
         else writeTempRow r trust (row\<lparr>tw_applied := True\<rparr>))"

fun apply_rows :: "nat \<Rightarrow> nat option \<Rightarrow> tempRow list \<Rightarrow> (tempRow list \<times> gerr option) act" where
  "apply_rows r trust [] = ret ([], None)"
| "apply_rows r trust (row # rows) =
     and_then (applyTempRow r trust row) (\<lambda>(row', e). case e of
       Some e \<Rightarrow> ret (row' # rows, Some e)
     | None \<Rightarrow> and_then (apply_rows r trust rows) (\<lambda>(rows', e). ret (row' # rows', e)))"

subsection \<open>Revoking\<close>

definition deployedKeyLocked :: "Guard \<Rightarrow> GuardInodeKey \<Rightarrow> bool" where
  "deployedKeyLocked g k = list_ex (\<lambda>(_, key). key = k) (g_deployed g)"

definition demotedKeyLocked :: "Guard \<Rightarrow> GuardInodeKey \<Rightarrow> bool" where
  "demotedKeyLocked g k = list_ex (\<lambda>(_, st). vs_key st = k \<and> vs_demoted st) (g_verifyStates g)"

definition restoreTempAction :: "nat \<Rightarrow> tempRow \<Rightarrow> exeRow \<Rightarrow> bool \<Rightarrow> unit act" where
  "restoreTempAction r row cur permanent =
     and_then (get (\<lambda>w. w_guards w r)) (\<lambda>g. let k = tb_Key (tw_bin row) in
       if tw_newAction row = GUARD_ALLOW \<and> er_action cur = Some GUARD_ALLOW then
         and_then (map_del GuardExeActions_update (g_resID g, k)) (\<lambda>_. noteDeny (g_resID g) k)
       else if tw_newAction row = GUARD_BLOCK \<and> er_action cur = Some GUARD_BLOCK \<and> permanent \<and> \<not> demotedKeyLocked g k then
         putExeAction r k GUARD_ALLOW
       else ret ())"

definition restoreTempRowLocked :: "nat \<Rightarrow> tempRow \<Rightarrow> unit act" where
  "restoreTempRowLocked r row =
     (let k = tb_Key (tw_bin row) in
      and_then (readExeRow r k) (\<lambda>cur.
      and_then (get (\<lambda>w. deployedKeyLocked (w_guards w r) k)) (\<lambda>permanent.
      if tw_newAction row = GUARD_ALLOW \<and> permanent then ret () else
      and_then (restoreTempAction r row cur permanent) (\<lambda>_.
      if tw_maskOp row = maskPut \<and> er_mask cur = Some (tw_newMask row) \<or> tw_maskOp row = maskDelete \<and> er_mask cur = None
      then restoreMask r k (er_mask (tw_prior row)) else ret ()))))"

definition untrustTempRuntime :: "tempRow \<Rightarrow> nat option \<Rightarrow> unit act" where
  "untrustTempRuntime row live =
     (let k = Real (tb_Key (tw_bin row)) in
      and_then (get (\<lambda>w. admitsExe w k)) (\<lambda>adm.
      if tw_trustAdded row = 0 \<or> tw_trust row \<noteq> live \<or> adm then ret () else
      and_then (map_get GuardTrustedFiles k) (\<lambda>cur. case cur of
        None \<Rightarrow> ret ()
      | Some c \<Rightarrow>
          if c \<noteq> tw_trustPrior row OR tw_trustAdded row then ret ()
          else if tw_trustHad row then map_put GuardTrustedFiles_update k (tw_trustPrior row)
          else map_del GuardTrustedFiles_update k)))"

text \<open>Errors are collected; a row is undone once.\<close>

definition revoke_row :: "nat \<Rightarrow> nat option \<Rightarrow> tempRow \<Rightarrow> (tempRow \<times> gerr list) act" where
  "revoke_row r live row =
     (if \<not> tw_applied row then ret (row, []) else
      and_then (get (\<lambda>w. g_stopped (w_guards w r))) (\<lambda>stopped.
      and_then (if stopped then ret (Inr ()) else attempt (restoreTempRowLocked r row)) (\<lambda>x.
      and_then (attempt (untrustTempRuntime row live)) (\<lambda>y.
      ret (row\<lparr>tw_trust := None, tw_trustAdded := 0\<rparr>,
        (case x of Inl e \<Rightarrow> [e] | Inr _ \<Rightarrow> []) @ (case y of Inl e \<Rightarrow> [e] | Inr _ \<Rightarrow> []))))))"

fun revoke_rows :: "nat \<Rightarrow> nat option \<Rightarrow> tempRow list \<Rightarrow> (tempRow list \<times> gerr list) act" where
  "revoke_rows r live [] = ret ([], [])"
| "revoke_rows r live (row # rows) =
     and_then (revoke_rows r live rows) (\<lambda>(rows', es).
     and_then (revoke_row r live row) (\<lambda>(row', e). ret (row' # rows', es @ e)))"

definition revokeLocked :: "tempGrant \<Rightarrow> nat option \<Rightarrow> (tempGrant \<times> gerr list) act" where
  "revokeLocked t trust =
     (if tg_revoked t then ret (t, []) else
      and_then (revoke_rows (tg_g t) trust (tg_rows t)) (\<lambda>(rows, es). ret (t\<lparr>tg_rows := rows, tg_revoked := True\<rparr>, es)))"

definition Revoke :: "tempGrant \<Rightarrow> (tempGrant \<times> gerr list) act" where
  "Revoke t = and_then (get w_trust) (revokeLocked t)"

text \<open>An error takes back what was written; only the first error is reported.\<close>

definition Apply :: "tempGrant \<Rightarrow> (tempGrant \<times> gerr option) act" where
  "Apply t =
     and_then (get w_trust) (\<lambda>trust.
     and_then (get (\<lambda>w. g_stopped (w_guards w (tg_g t)))) (\<lambda>stopped. if stopped then ret (t, Some Stopped) else
     and_then (apply_rows (tg_g t) trust (tg_rows t)) (\<lambda>(rows, e). case e of
       None \<Rightarrow> ret (t\<lparr>tg_rows := rows\<rparr>, None)
     | Some e \<Rightarrow> and_then (revokeLocked (t\<lparr>tg_rows := rows\<rparr>) trust) (\<lambda>(t', _). ret (t', Some e)))))"

subsection \<open>After a crash\<close>

text \<open>Whether the row was stripped, and the error: a row whose mask could not be deleted is stripped all
  the same. \<open>events\<close> says whether the mask map is pinned.\<close>

definition stripPinnedAllow :: "bool \<Rightarrow> rkey \<Rightarrow> (bool \<times> gerr option) act" where
  "stripPinnedAllow events k =
     and_then (attempt (map_get GuardExeActions k)) (\<lambda>x. case x of
       Inl e \<Rightarrow> ret (False, Some e)
     | Inr action \<Rightarrow>
         if action \<noteq> Some GUARD_ALLOW then ret (False, None) else
         and_then (attempt (map_del GuardExeActions_update k)) (\<lambda>y. case y of
           Inl e \<Rightarrow> ret (False, Some e)
         | Inr _ \<Rightarrow>
             if \<not> events then ret (True, None) else
             and_then (attempt (map_del GuardExeEvents_update k)) (\<lambda>z.
               ret (True, case z of Inl e \<Rightarrow> Some e | Inr _ \<Rightarrow> None))))"

fun strip_rows :: "bool \<Rightarrow> rkey list \<Rightarrow> (nat \<times> gerr list) act" where
  "strip_rows events [] = ret (0, [])"
| "strip_rows events (k # ks) =
     and_then (stripPinnedAllow events k) (\<lambda>(ok, e).
     and_then (strip_rows events ks) (\<lambda>(n, es).
     ret ((if ok then Suc n else n), (case e of None \<Rightarrow> es | Some e \<Rightarrow> e # es))))"

text \<open>The pinned maps: an error, nothing pinned, or the action map with or without the mask map.\<close>

datatype pinned = PinError gerr | Unpinned | Pinned bool

text \<open>\<open>loadPinnedExeMaps\<close> from the two loads: \<open>Inl None\<close> is \<open>ErrNotExist\<close>, \<open>Inl (Some e)\<close> another error.\<close>

definition loadPinnedExeMaps :: "gerr option + unit \<Rightarrow> gerr option + unit \<Rightarrow> pinned" where
  "loadPinnedExeMaps actions events =
     (case actions of
        Inl None \<Rightarrow> Unpinned
      | Inl (Some e) \<Rightarrow> PinError e
      | Inr _ \<Rightarrow> (case events of Inl (Some e) \<Rightarrow> PinError e | Inl None \<Rightarrow> Pinned False | Inr _ \<Rightarrow> Pinned True))"

definition StripPinnedTempAllows :: "(string \<Rightarrow> pinned) \<Rightarrow> string \<Rightarrow> rkey list \<Rightarrow> (nat \<times> gerr list) act" where
  "StripPinnedTempAllows load sharedPrefix rows =
     (if sharedPrefix = [] \<or> rows = [] then ret (0, []) else
      case load sharedPrefix of
        PinError e \<Rightarrow> ret (0, [e])
      | Unpinned \<Rightarrow> ret (0, [])
      | Pinned events \<Rightarrow> strip_rows events rows)"

end
