(* ===== verification/Engine_Facts.thy ===== *)
theory Engine_Facts
  imports Guard_Engine
begin

text \<open>
  The views the engine derives are exact: after a successful refresh the kernel's exe union, the
  taint sets' whitelists and the reserved slot say what the per-resource whitelists imply, and a
  refresh, whether it succeeds or fails, never touches a resource's own rows.
\<close>

subsection \<open>Diffed writes\<close>

lemma map_of_Some_fst: "map_of m k = Some v \<Longrightarrow> k \<in> fst ` set m"
  by (force dest: map_of_SomeD)

lemma syncU32Map_run:
  assumes "gm_wf have" and "gm_wf want"
  shows "run (\<lambda>w. unions.view w = map_of have) (syncU32Map GuardExeUnion_update have want)
     (\<lambda>_ w. unions.view w = map_of want)
     (\<lambda>w. \<forall>k. (unions.view w k = map_of have k \<or> unions.view w k = map_of want k) \<and>
        (map_of have k \<noteq> None \<and> map_of want k \<noteq> None \<longrightarrow> unions.view w k \<noteq> None))"
    (is "run ?P _ ?Q ?E")
  unfolding syncU32Map_def
proof (rule run_and_then)
  let ?m = "map_of have ++ map_of want"
  show "run ?P (for_each want (\<lambda>(k, v). if map_of have k = Some v then ret () else map_put GuardExeUnion_update k v))
      (\<lambda>_ w. unions.view w = ?m) ?E"
    by (rule run_post [OF unions.put_loop [OF assms(2)]]) (auto, metis not_None_eq)
  have "run (\<lambda>w. unions.view w = ?m)
      (for_each (map fst have) (\<lambda>k. if map_of want k \<noteq> None then ret () else map_del GuardExeUnion_update k)) ?Q ?E"
  proof (rule run_post [OF unions.del_loop])
    have "?m |` (- {k \<in> set (map fst have). \<not> map_of want k \<noteq> None}) = map_of want"
    proof
      fix k
      show "(?m |` (- {k \<in> set (map fst have). \<not> map_of want k \<noteq> None})) k = map_of want k"
      proof (cases "map_of want k")
        case None
        then show ?thesis
          by (cases "map_of have k") (auto simp: restrict_map_def map_add_def dest: map_of_Some_fst)
      qed (simp add: restrict_map_def map_add_def)
    qed
    then show "unions.view w = ?m |` (- {k \<in> set (map fst have). \<not> map_of want k \<noteq> None}) \<Longrightarrow> unions.view w = map_of want"
      for w by simp
    show "?E w" if "\<forall>k. unions.view w k = ?m k \<or> unions.view w k = None \<and> k \<in> set (map fst have) \<and> \<not> map_of want k \<noteq> None"
      for w
    proof (rule allI)
      fix k
      from that [rule_format, of k] show "(unions.view w k = map_of have k \<or> unions.view w k = map_of want k) \<and>
          (map_of have k \<noteq> None \<and> map_of want k \<noteq> None \<longrightarrow> unions.view w k \<noteq> None)"
        by (cases "map_of want k") (auto simp: map_add_def)
    qed
  qed
  then show "run (\<lambda>w. unions.view w = ?m)
      (for_each have (\<lambda>(k, _). if map_of want k \<noteq> None then ret () else map_del GuardExeUnion_update k)) ?Q ?E" for x
    by (simp add: for_each_map split_def)
qed

text \<open>
  C26. Rewriting the exe union: started with the map as recorded, success leaves exactly the rows
  wanted; wherever a write fails, every binary still has its old or its new slot, and one that is in
  both tables is never without a row.
\<close>

theorem syncU32Map_exact:
  assumes "gm_wf have" and "gm_wf want" and "map_of (GuardExeUnion w) = map_of have"
    and "syncU32Map GuardExeUnion_update have want w = (r, w')"
  shows "(r = Inr () \<longrightarrow> map_of (GuardExeUnion w') = map_of want) \<and>
     (map_of (GuardExeUnion w') k = map_of have k \<or> map_of (GuardExeUnion w') k = map_of want k) \<and>
     (map_of have k \<noteq> None \<and> map_of want k \<noteq> None \<longrightarrow> map_of (GuardExeUnion w') k \<noteq> None)"
proof (cases r)
  case (Inl e)
  with run_Inl [OF syncU32Map_run [OF assms(1,2)] _ assms(4) [unfolded Inl]] assms(3) show ?thesis
    by (simp add: unions.view_def)
next
  case (Inr u)
  with run_Inr [OF syncU32Map_run [OF assms(1,2)] _ assms(4) [unfolded Inr]] assms(3) show ?thesis
    by (simp add: unions.view_def)
qed

subsection \<open>The rows of one taint set\<close>

abbreviation rows :: "world \<Rightarrow> nat \<Rightarrow> GuardInodeKey \<Rightarrow> u8 option" where
  "rows w slot exe \<equiv> map_of (GuardExeActions w) (slot, exe)"

definition set_rows :: "world \<Rightarrow> nat \<Rightarrow> allow_set" where
  "set_rows w slot = (case map_of (e_setRows w) slot of None \<Rightarrow> [] | Some r \<Rightarrow> r)"

definition key_rows :: "nat \<Rightarrow> allow_set \<Rightarrow> (rkey, u8) gomap" where
  "key_rows slot s = map (\<lambda>(exe, a). ((slot, exe), a)) s"

lemma map_of_key_rows: "map_of (key_rows slot s) k = (if fst k = slot then map_of s (snd k) else None)"
  by (induction s) (auto simp: key_rows_def)

lemma gm_wf_key_rows:
  assumes "gm_wf s"
  shows "gm_wf (key_rows slot s)"
proof -
  have "map fst (key_rows slot s) = map (Pair slot) (map fst s)"
    by (auto simp: key_rows_def)
  with assms show ?thesis by (simp add: distinct_map inj_on_def)
qed

lemma set_write_run:
  assumes "gm_wf want"
  shows "run (\<lambda>w. actions.view w = m \<and> (\<forall>exe. m (slot, exe) = map_of have exe))
     (and_then (for_each have (\<lambda>(exe, _).
         if map_of want exe \<noteq> None then ret () else map_del GuardExeActions_update (slot, exe))) (\<lambda>_.
       for_each want (\<lambda>(exe, a).
         if map_of have exe = Some a then ret () else map_put GuardExeActions_update (slot, exe) a)))
     (\<lambda>_ w. \<forall>k. actions.view w k = (if fst k = slot then map_of want (snd k) else m k))
     (\<lambda>w. \<forall>k. fst k \<noteq> slot \<longrightarrow> actions.view w k = m k)"
    (is "run _ _ ?Q ?E")
proof -
  let ?c = "\<lambda>k :: rkey. map_of want (snd k) \<noteq> None"
  let ?ks = "map (\<lambda>(exe, _). (slot, exe)) have"
  let ?m = "m |` (- {k \<in> set ?ks. \<not> ?c k})"
  have core: "run (\<lambda>w. actions.view w = m) (and_then
      (for_each ?ks (\<lambda>k. if ?c k then ret () else map_del GuardExeActions_update k)) (\<lambda>_.
       for_each (key_rows slot want) (\<lambda>(k, v). if map_of have (snd k) = Some v then ret () else map_put GuardExeActions_update k v)))
      ?Q ?E" if m: "\<forall>exe. m (slot, exe) = map_of have exe"
  proof (rule run_and_then)
    show "run (\<lambda>w. actions.view w = m) (for_each ?ks (\<lambda>k. if ?c k then ret () else map_del GuardExeActions_update k))
        (\<lambda>_ w. actions.view w = ?m) ?E"
      by (rule run_post [OF actions.del_loop]) auto
    have skip: "?m k = Some v" if "(k, v) \<in> set (key_rows slot want)" "map_of have (snd k) = Some v" for k v
    proof -
      from that(1) obtain exe where k: "k = (slot, exe)" "(exe, v) \<in> set want" by (auto simp: key_rows_def)
      then have "map_of want exe \<noteq> None" by (metis map_of_eq_None_iff image_eqI fst_conv)
      with k m that(2) show ?thesis by (simp add: restrict_map_def)
    qed
    show "run (\<lambda>w. actions.view w = ?m) (for_each (key_rows slot want)
        (\<lambda>(k, v). if map_of have (snd k) = Some v then ret () else map_put GuardExeActions_update k v)) ?Q ?E" for x
    proof (rule run_post [OF actions.put_loop [OF gm_wf_key_rows [OF assms] skip]])
      have fin: "(?m ++ map_of (key_rows slot want)) k = (if fst k = slot then map_of want (snd k) else m k)" for k
      proof (cases "fst k = slot")
        case True
        then obtain exe where k: "k = (slot, exe)" by (cases k) auto
        show ?thesis
        proof (cases "map_of want exe")
          case None
          have "?m (slot, exe) = None"
          proof (cases "map_of have exe")
            case (Some a)
            then have "(slot, exe) \<in> set ?ks" by (force dest: map_of_SomeD)
            with None show ?thesis by (simp add: restrict_map_def)
          qed (use m in \<open>simp add: restrict_map_def\<close>)
          with None k show ?thesis by (simp add: map_add_def map_of_key_rows)
        qed (use k in \<open>simp add: map_add_def map_of_key_rows\<close>)
      next
        case False
        then show ?thesis by (auto simp: map_add_def map_of_key_rows restrict_map_def)
      qed
      then show "?Q x w" if "actions.view w = ?m ++ map_of (key_rows slot want)" for x w
        using that by simp
      show "?E w" if "\<forall>k. actions.view w k = ?m k \<or> actions.view w k = map_of (key_rows slot want) k \<and> actions.view w k \<noteq> None" for w
      proof (intro allI impI)
        fix k :: rkey assume "fst k \<noteq> slot"
        with that [rule_format, of k] show "actions.view w k = m k"
          by (auto simp: map_of_key_rows restrict_map_def split: if_splits)
      qed
    qed
  qed
  have "run (\<lambda>w. actions.view w = m \<and> (\<forall>exe. m (slot, exe) = map_of have exe)) (and_then
      (for_each ?ks (\<lambda>k. if ?c k then ret () else map_del GuardExeActions_update k)) (\<lambda>_.
       for_each (key_rows slot want) (\<lambda>(k, v). if map_of have (snd k) = Some v then ret () else map_put GuardExeActions_update k v)))
      ?Q ?E"
    by (rule run_pure) (rule core)
  then show ?thesis by (simp only: key_rows_def for_each_map split_def fst_conv snd_conv)
qed

subsection \<open>What a refresh leaves alone\<close>

lemma others_simps [simp]:
  "e_slots (actions.others w) = e_slots w" "e_allows (actions.others w) = e_allows w"
  "w_guards (actions.others w) = w_guards w" "e_started (actions.others w) = e_started w"
  "e_sets (actions.others w) = e_sets w" "e_setRows (actions.others w) = e_setRows w"
  "e_unionRows (actions.others w) = e_unionRows w" "GuardExeUnion (actions.others w) = GuardExeUnion w"
  "GuardExeEvents (actions.others w) = GuardExeEvents w" "w_mcReg (actions.others w) = w_mcReg w"
  "GuardTrustedFiles (actions.others w) = GuardTrustedFiles w" "ExeSuperseded (actions.others w) = ExeSuperseded w"
  "e_inspectors (actions.others w) = e_inspectors w" "w_trust (actions.others w) = w_trust w"
  "faults (actions.others w) = faults w" "GuardInodes (actions.others w) = GuardInodes w"
  "e_memberRows (actions.others w) = e_memberRows w" "e_prevOwner (actions.others w) = e_prevOwner w"
  by (simp_all add: actions.others_def)

text \<open>The part of the state a refresh only reads.\<close>

definition core :: "world \<Rightarrow> world" where
  "core w = w\<lparr>tick := 0, GuardExeActions := [], GuardExeUnion := [], GuardTaintMembers := [], ResConfigs := [],
     e_sets := [], e_setRows := [], e_unionRows := [], e_memberRows := []\<rparr>"

lemma core_simps [simp]:
  "core (step_tick w) = core w" "core (GuardExeActions_update a w) = core w" "core (GuardExeUnion_update b w) = core w"
  "core (GuardTaintMembers_update d w) = core w" "core (ResConfigs_update e w) = core w"
  "core (e_sets_update f w) = core w" "core (e_setRows_update g w) = core w"
  "core (e_unionRows_update h w) = core w" "core (e_memberRows_update i w) = core w"
  by (simp_all add: core_def step_tick_def)

lemma core_sel:
  assumes "core w = core v"
  shows "e_slots w = e_slots v" "e_allows w = e_allows v" "w_guards w = w_guards v" "e_started w = e_started v"
    "GuardExeEvents w = GuardExeEvents v" "GuardInodes w = GuardInodes v" "GuardTrustedFiles w = GuardTrustedFiles v"
    "ExeSuperseded w = ExeSuperseded v" "e_inspectors w = e_inspectors v" "w_mcReg w = w_mcReg v"
    "w_trust w = w_trust v" "faults w = faults v" "GuardInspectors w = GuardInspectors v" "e_mcNames w = e_mcNames v"
    "e_prevOwner w = e_prevOwner v"
  using arg_cong [OF assms, of e_slots] arg_cong [OF assms, of e_allows] arg_cong [OF assms, of w_guards]
    arg_cong [OF assms, of e_started] arg_cong [OF assms, of GuardExeEvents] arg_cong [OF assms, of GuardInodes]
    arg_cong [OF assms, of GuardTrustedFiles] arg_cong [OF assms, of ExeSuperseded] arg_cong [OF assms, of e_inspectors]
    arg_cong [OF assms, of w_mcReg] arg_cong [OF assms, of w_trust] arg_cong [OF assms, of faults]
    arg_cong [OF assms, of GuardInspectors] arg_cong [OF assms, of e_mcNames] arg_cong [OF assms, of e_prevOwner]
  by (simp_all add: core_def)

lemma core_others: "actions.others w = actions.others v \<Longrightarrow> core w = core v"
proof -
  assume "actions.others w = actions.others v"
  from arg_cong [OF this, of core] show ?thesis by (simp add: actions.others_def core_def)
qed

text \<open>Set slots are no resource's, pairwise distinct and in range.\<close>

definition sets_ok :: "world \<Rightarrow> bool" where
  "sets_ok w \<longleftrightarrow> gm_wf (e_sets w) \<and> distinct (map snd (e_sets w)) \<and>
     (\<forall>(key, slot) \<in> set (e_sets w). key \<noteq> [] \<and> 0 < slot \<and> slot < GuardMaxRes \<and> map_of (e_slots w) slot = None)"

definition set_slots :: "world \<Rightarrow> nat set" where
  "set_slots w = snd ` set (e_sets w)"

text \<open>The kernel rows are what was last written, and free slots have none.\<close>

definition recorded :: "world \<Rightarrow> bool" where
  "recorded w \<longleftrightarrow> map_of (GuardExeUnion w) = map_of (e_unionRows w) \<and> gm_wf (e_unionRows w) \<and>
     (\<forall>slot \<in> set_slots w. \<forall>exe. rows w slot exe = map_of (set_rows w slot) exe) \<and>
     (\<forall>slot exe. slot \<noteq> 0 \<longrightarrow> free_slot w slot \<longrightarrow> rows w slot exe = None \<and> set_rows w slot = [])"

lemma setAt_free: "sets_ok w \<Longrightarrow> setAt w slot = [] \<longleftrightarrow> slot \<notin> set_slots w"
proof -
  assume ok: "sets_ok w"
  show ?thesis
  proof (cases "find (\<lambda>(k, s). s = slot) (e_sets w)")
    case None
    then have "slot \<notin> set_slots w" by (auto simp: find_None_iff set_slots_def)
    with None show ?thesis by (simp add: setAt_def)
  next
    case (Some p)
    then obtain key where p: "p = (key, slot)" "(key, slot) \<in> set (e_sets w)"
      by (auto simp: find_Some_iff in_set_conv_nth)
    with ok have "key \<noteq> []" by (auto simp: sets_ok_def)
    with p Some show ?thesis by (force simp: setAt_def set_slots_def)
  qed
qed

text \<open>\<open>kept m c\<close>: nothing but the derived views moved, and resource rows are still \<open>m\<close>.\<close>

definition kept :: "(rkey \<rightharpoonup> u8) \<Rightarrow> world \<Rightarrow> world \<Rightarrow> bool" where
  "kept m c w \<longleftrightarrow> core w = c \<and> sets_ok w \<and> (\<forall>slot exe. map_of (e_slots w) slot \<noteq> None \<longrightarrow> rows w slot exe = m (slot, exe))"

lemma kept_tick [simp]: "kept m c (step_tick w) = kept m c w"
  by (simp add: kept_def sets_ok_def)

lemma recorded_tick [simp]: "recorded (step_tick w) = recorded w"
  by (simp add: recorded_def set_slots_def set_rows_def free_slot_def setAt_def)

subsection \<open>Allocating taint sets\<close>

lemma find_free_slot:
  assumes "find (free_slot w) (rev [1..<GuardMaxRes]) = Some slot"
  shows "free_slot w slot" "0 < slot" "slot < GuardMaxRes"
proof -
  from assms obtain i where i: "i < length (rev [1..<GuardMaxRes])" "free_slot w slot" "slot = rev [1..<GuardMaxRes] ! i"
    by (auto simp: find_Some_iff)
  then have "slot \<in> set (rev [1..<GuardMaxRes])" by (metis nth_mem)
  with i show "free_slot w slot" "0 < slot" "slot < GuardMaxRes" by auto
qed

text \<open>No free slot for another set.\<close>

definition full :: "world \<Rightarrow> bool" where
  "full w \<longleftrightarrow> find (free_slot w) (rev [1..<GuardMaxRes]) = None"

lemma full_cong: "e_slots w = e_slots v \<Longrightarrow> e_sets w = e_sets v \<Longrightarrow> full w = full v"
  by (simp add: full_def free_slot_def [abs_def] setAt_def)

text \<open>\<open>grown S w\<close>: the sets of \<open>S\<close> kept their slots.\<close>

definition grown :: "(string, nat) gomap \<Rightarrow> world \<Rightarrow> bool" where
  "grown S w \<longleftrightarrow> map_of S \<subseteq>\<^sub>m map_of (e_sets w)"

definition with_set :: "string \<Rightarrow> nat \<Rightarrow> GuardResConfig \<Rightarrow> world \<Rightarrow> world" where
  "with_set key slot row w = (ResConfigs_update (AList.update slot row) (step_tick w))
     \<lparr>e_sets := AList.update key slot (e_sets w)\<rparr>"

lemma with_set_simps [simp]:
  "core (with_set key slot row w) = core w" "e_slots (with_set key slot row w) = e_slots w"
  "GuardExeActions (with_set key slot row w) = GuardExeActions w"
  "GuardExeUnion (with_set key slot row w) = GuardExeUnion w"
  "e_unionRows (with_set key slot row w) = e_unionRows w"
  "set_rows (with_set key slot row w) s = set_rows w s"
  "e_sets (with_set key slot row w) = AList.update key slot (e_sets w)"
  by (simp_all add: with_set_def set_rows_def)

lemma with_set_ok:
  assumes "sets_ok w" and "map_of (e_sets w) key = None" and "key \<noteq> []"
    and "free_slot w slot" "0 < slot" "slot < GuardMaxRes"
  shows "sets_ok (with_set key slot row w)" and "set_slots (with_set key slot row w) = insert slot (set_slots w)"
proof -
  have new: "e_sets (with_set key slot row w) = e_sets w @ [(key, slot)]"
    using assms(2) by (simp add: update_fresh map_of_eq_None_iff)
  have "slot \<notin> set_slots w" using assms(1,4) by (simp add: free_slot_def setAt_free)
  moreover have "key \<notin> fst ` set (e_sets w)" using assms(2) by (simp add: map_of_eq_None_iff)
  ultimately show "sets_ok (with_set key slot row w)"
    using assms unfolding sets_ok_def new by (auto simp: free_slot_def set_slots_def)
  show "set_slots (with_set key slot row w) = insert slot (set_slots w)"
    unfolding set_slots_def new by auto
qed

lemma with_set_recorded:
  assumes "recorded w" "sets_ok w" "map_of (e_sets w) key = None" "key \<noteq> []"
    and "free_slot w slot" "0 < slot" "slot < GuardMaxRes"
  shows "recorded (with_set key slot row w)"
proof -
  note ws = with_set_ok [OF assms(2-7), of row]
  have "free_slot w s" if "free_slot (with_set key slot row w) s" for s
    using that ws assms(2) by (simp add: free_slot_def setAt_free)
  with assms(1,5,6) show ?thesis by (auto simp: recorded_def ws(2))
qed

lemma set_slot_run:
  assumes "key \<noteq> []"
  shows "run (\<lambda>w. kept m c w \<and> recorded w \<and> e_sets w = S \<and> full w = F) (set_slot key)
     (\<lambda>slot w. kept m c w \<and> recorded w \<and> grown S w \<and> (F \<longrightarrow> e_sets w = S \<and> full w) \<and>
        (case map_of (e_sets w) key of Some s \<Rightarrow> slot = s | None \<Rightarrow> slot = resGlobal \<and> full w \<and> e_sets w = S))
     (kept m c)" (is "run ?P _ ?Q _")
proof (rule runI)
  have main: "case set_slot key w of (Inl e, w') \<Rightarrow> kept m c w' | (Inr slot, w') \<Rightarrow> ?Q slot w'" if w: "?P w" for w
  proof (cases "map_of (e_sets w) key")
    case (Some s)
    with w show ?thesis by (simp add: set_slot_def and_then_def get_def ret_def grown_def map_le_def)
  next
    case None
    show ?thesis
    proof (cases "find (free_slot w) (rev [1..<GuardMaxRes])")
      case none: None
      with w None show ?thesis
        by (simp add: set_slot_def allocSetSlotLocked_def and_then_def get_def ret_def full_def grown_def del: upt_conv_Cons)
    next
      case (Some slot)
      note fs = find_free_slot [OF Some]
      let ?row = "\<lparr>rc_Active = True, rc_Mode = ModeWhitelist, rc_Root = \<lparr>Dev = 0, Ino = 0\<rparr>, rc_TaintSet = True\<rparr>"
      have ok: "sets_ok w" using w by (simp add: kept_def)
      have "kept m c (with_set key slot ?row w)"
        using w with_set_ok(1) [OF ok None assms fs] by (simp add: kept_def)
      moreover have "recorded (with_set key slot ?row w)"
        using w with_set_recorded [OF _ ok None assms fs] by simp
      moreover have "grown S (with_set key slot ?row w)"
        using w None by (auto simp: grown_def map_le_def)
      moreover have "set_slot key w = (if faults w (tick w) then (Inl MapFault, step_tick w)
          else (Inr slot, with_set key slot ?row w))"
        using None Some fs by (simp add: set_slot_def allocSetSlotLocked_def and_then_def get_def ret_def
            modify_def map_put_def with_set_def del: upt_conv_Cons)
      moreover have "\<not> F" using w Some by (simp add: full_def)
      ultimately show ?thesis using w by simp
    qed
  qed
  show "?Q x w'" if "?P w" "set_slot key w = (Inr x, w')" for w x w' using main [OF that(1)] that(2) by simp
  show "kept m c w'" if "?P w" "set_slot key w = (Inl e, w')" for w e w' using main [OF that(1)] that(2) by simp
qed

definition slot_of :: "(string, nat) gomap \<Rightarrow> taintOwner \<Rightarrow> nat" where
  "slot_of sets o' = (if to_setKey o' = [] then to_res o'
     else case map_of sets (to_setKey o') of Some s \<Rightarrow> s | None \<Rightarrow> resGlobal)"

definition union_of :: "(string, nat) gomap \<Rightarrow> (GuardInodeKey, taintOwner) gomap \<Rightarrow> (GuardInodeKey, nat) gomap" where
  "union_of sets plan = map (\<lambda>(exe, o'). (exe, slot_of sets o')) plan"

text \<open>Every planned set has its slot, unless none is free.\<close>

definition planned :: "(GuardInodeKey, taintOwner) gomap \<Rightarrow> world \<Rightarrow> bool" where
  "planned plan w \<longleftrightarrow> full w \<or> (\<forall>o' \<in> snd ` set plan. to_setKey o' \<noteq> [] \<longrightarrow> map_of (e_sets w) (to_setKey o') \<noteq> None)"

lemma kept_slots: "kept m c w \<Longrightarrow> e_slots w = e_slots c"
  using arg_cong [of "core w" c e_slots] by (auto simp: kept_def core_def)

lemma build_union_run:
  "run (\<lambda>w. kept m c w \<and> recorded w \<and> e_sets w = S \<and> full w = F) (build_union plan)
     (\<lambda>uni w. kept m c w \<and> recorded w \<and> grown S w \<and> (F \<longrightarrow> e_sets w = S \<and> full w) \<and> planned plan w \<and> uni = union_of (e_sets w) plan)
     (kept m c)"
proof (induction plan arbitrary: S F)
  case Nil
  show ?case by (simp add: run_def ret_def grown_def planned_def union_of_def)
next
  case (Cons p plan)
  obtain exe o' where p: "p = (exe, o')" by (cases p)
  let ?slot = "if to_setKey o' = [] then ret (to_res o') else set_slot (to_setKey o')"
  define R where "R slot w \<longleftrightarrow> kept m c w \<and> recorded w \<and> grown S w \<and> (F \<longrightarrow> e_sets w = S \<and> full w) \<and> slot = slot_of (e_sets w) o' \<and>
      (to_setKey o' \<noteq> [] \<longrightarrow> map_of (e_sets w) (to_setKey o') = None \<longrightarrow> full w)" for slot w
  have head: "run (\<lambda>w. kept m c w \<and> recorded w \<and> e_sets w = S \<and> full w = F) ?slot R (kept m c)"
  proof (cases "to_setKey o' = []")
    case True
    then show ?thesis by (simp add: run_def ret_def R_def slot_of_def grown_def)
  next
    case False
    have "run (\<lambda>w. kept m c w \<and> recorded w \<and> e_sets w = S \<and> full w = F) (set_slot (to_setKey o')) R (kept m c)"
      by (rule run_post [OF set_slot_run [OF False]])
        (use False in \<open>auto simp: R_def slot_of_def split: option.splits\<close>)
    with False show ?thesis by simp
  qed
  have tail: "run (R slot) (and_then (build_union plan) (\<lambda>rest. ret ((exe, slot) # rest)))
     (\<lambda>uni w. kept m c w \<and> recorded w \<and> grown S w \<and> (F \<longrightarrow> e_sets w = S \<and> full w) \<and> planned (p # plan) w \<and>
        uni = union_of (e_sets w) (p # plan)) (kept m c)" (is "run _ ?m ?Q _") for slot
  proof -
    define G where "G S1 F1 uni w \<longleftrightarrow> kept m c w \<and> recorded w \<and> grown S1 w \<and> (F1 \<longrightarrow> e_sets w = S1 \<and> full w) \<and>
        planned plan w \<and> uni = union_of (e_sets w) plan" for S1 F1 uni w
    have step: "run (\<lambda>w. kept m c w \<and> recorded w \<and> e_sets w = S1 \<and> full w = F1) (build_union plan) (G S1 F1) (kept m c)" for S1 F1
      using Cons.IH [of S1 F1] by (simp add: G_def [abs_def])
    have fin: "?Q ((exe, slot) # rest) w'" if "R slot w" and g: "G (e_sets w) (full w) rest w'" for w w' rest
    proof -
      have r: "grown S w" "F \<longrightarrow> e_sets w = S \<and> full w" "slot = slot_of (e_sets w) o'" "kept m c w"
        "to_setKey o' \<noteq> [] \<Longrightarrow> map_of (e_sets w) (to_setKey o') = None \<Longrightarrow> full w" and k': "kept m c w'"
        using that by (auto simp: R_def G_def)
      have same: "full w' = full w" if "e_sets w' = e_sets w"
        using full_cong [of w' w] that kept_slots [OF r(4)] kept_slots [OF k'] by simp
      have "slot = slot_of (e_sets w') o' \<and> (full w' \<or> to_setKey o' = [] \<or> map_of (e_sets w') (to_setKey o') \<noteq> None)"
      proof (cases "to_setKey o' = []")
        case False
        show ?thesis
        proof (cases "map_of (e_sets w) (to_setKey o')")
          case None
          with r(5) False have f: "full w" by simp
          with g have "e_sets w' = e_sets w" by (simp add: G_def)
          with same f r(3) show ?thesis by simp
        next
          case (Some s)
          with g have "map_of (e_sets w') (to_setKey o') = Some s"
            by (auto simp: G_def grown_def map_le_def dom_def)
          with Some r(3) show ?thesis by (simp add: slot_of_def)
        qed
      qed (use r(3) in \<open>simp add: slot_of_def\<close>)
      moreover have "grown S w'" using r(1) g by (auto simp: G_def grown_def intro: map_le_trans)
      moreover have "F \<longrightarrow> e_sets w' = S \<and> full w'" using r(2) g by (simp add: G_def)
      ultimately show ?thesis using g p by (auto simp: G_def planned_def union_of_def)
    qed
    show ?thesis
    proof (rule runI)
      fix w x w' assume R: "R slot w" and "?m w = (Inr x, w')"
      then obtain rest where b: "build_union plan w = (Inr rest, w')" and x: "x = (exe, slot) # rest"
        by (auto simp: and_then_def ret_def split: prod.splits sum.splits)
      have "G (e_sets w) (full w) rest w'"
        by (rule run_Inr [OF step [of "e_sets w" "full w"] _ b]) (use R in \<open>simp add: R_def\<close>)
      from fin [OF R this] show "?Q x w'" unfolding x .
    next
      fix w e w' assume R: "R slot w" and "?m w = (Inl e, w')"
      then have b: "build_union plan w = (Inl e, w')"
        by (auto simp: and_then_def ret_def split: prod.splits sum.splits)
      show "kept m c w'"
        by (rule run_Inl [OF step [of "e_sets w" "full w"] _ b]) (use R in \<open>simp add: R_def\<close>)
    qed
  qed
  show ?case unfolding p build_union.simps using head tail [unfolded p] by (rule run_and_then)
qed

subsection \<open>Writing the sets\<close>

text \<open>\<open>moved w v\<close>: \<open>v\<close> differs from \<open>w\<close> in the whitelist rows only.\<close>

lemma others_sel:
  assumes "actions.others v = actions.others w"
  shows "e_slots v = e_slots w" "e_sets v = e_sets w" "e_setRows v = e_setRows w" "e_unionRows v = e_unionRows w"
    "GuardExeUnion v = GuardExeUnion w" "core v = core w"
  using arg_cong [OF assms, of e_slots] arg_cong [OF assms, of e_sets] arg_cong [OF assms, of e_setRows]
    arg_cong [OF assms, of e_unionRows] arg_cong [OF assms, of GuardExeUnion] core_others [OF assms]
  by simp_all

lemma set_rows_written:
  assumes "kept m c w" "recorded w" "slot \<in> set_slots w" "actions.others v = actions.others w"
    and "\<forall>k. actions.view v k = (if fst k = slot then map_of want (snd k) else actions.view w k)"
  defines "w' \<equiv> v\<lparr>e_setRows := AList.update slot want (e_setRows v)\<rparr>"
  shows "kept m c w'" "recorded w'" "e_sets w' = e_sets w" "rows w' s exe = (if s = slot then map_of want exe else rows w s exe)"
proof -
  note o = others_sel [OF assms(4)]
  have r: "rows v s exe = (if s = slot then map_of want exe else rows w s exe)" for s exe
    using assms(5) [rule_format, of "(s, exe)"] by (simp add: actions.view_def)
  have ok: "sets_ok w" and dead: "map_of (e_slots w) slot = None"
    using assms(1,3) by (auto simp: kept_def sets_ok_def set_slots_def)
  show "kept m c w'"
    using assms(1) dead by (auto simp: w'_def kept_def sets_ok_def o r)
  have sr: "set_rows w' s = (if s = slot then want else set_rows w s)" for s
    by (simp add: w'_def set_rows_def o)
  have same: "set_slots w' = set_slots w" "free_slot w' s = free_slot w s" for s
    by (simp_all add: w'_def set_slots_def free_slot_def setAt_def o)
  have occ: "\<not> free_slot w slot" using assms(3) ok by (simp add: free_slot_def setAt_free)
  show rw: "rows w' s exe = (if s = slot then map_of want exe else rows w s exe)" for s exe
    by (simp add: w'_def r)
  show "recorded w'"
    using assms(2) occ unfolding recorded_def same sr rw by (auto simp: w'_def o)
  show "e_sets w' = e_sets w" by (simp add: w'_def o)
qed

lemma and_then_assoc: "and_then (and_then m f) g = and_then m (\<lambda>x. and_then (f x) g)"
  by (rule ext) (simp add: and_then_def split: prod.splits sum.splits)

lemma set_write_others:
  "keeps (\<lambda>w. actions.others w = v) (and_then (for_each have (\<lambda>(exe, _).
         if map_of want exe \<noteq> None then ret () else map_del GuardExeActions_update (slot, exe))) (\<lambda>_.
       for_each want (\<lambda>(exe, a).
         if map_of have exe = Some a then ret () else map_put GuardExeActions_update (slot, exe) a)))"
  by (intro keep_rules actions.put_others actions.del_others)

lemma syncSetRows_run:
  assumes "slot \<in> snd ` set S" and "gm_wf want"
  shows "run (\<lambda>w. kept m c w \<and> recorded w \<and> e_sets w = S \<and> (\<forall>s \<in> T. \<forall>exe. rows w s exe = R s exe)) (syncSetRowsLocked slot want)
     (\<lambda>_ w. kept m c w \<and> recorded w \<and> e_sets w = S \<and> (\<forall>s \<in> T - {slot}. \<forall>exe. rows w s exe = R s exe) \<and>
        (\<forall>exe. rows w slot exe = map_of want exe)) (kept m c)" (is "run ?P _ ?Q _")
proof (rule runI)
  define body where "body hv = and_then (for_each hv (\<lambda>(exe, _).
         if map_of want exe \<noteq> None then ret () else map_del GuardExeActions_update (slot, exe))) (\<lambda>_.
       for_each want (\<lambda>(exe, a).
         if map_of hv exe = Some a then ret () else map_put GuardExeActions_update (slot, exe) a))" for hv
  have unfolded: "syncSetRowsLocked slot want w =
      and_then (body (set_rows w slot)) (\<lambda>_. modify (\<lambda>w. w\<lparr>e_setRows := AList.update slot want (e_setRows w)\<rparr>)) w" for w
    unfolding syncSetRowsLocked_def body_def and_then_assoc set_rows_def by (simp add: and_then_def get_def)
  have slot: "slot \<in> set_slots w" and pre: "actions.view w = actions.view w \<and> (\<forall>exe. actions.view w (slot, exe) = map_of (set_rows w slot) exe)"
    if "?P w" for w
    using that assms(1) by (auto simp: set_slots_def recorded_def actions.view_def)
  note written = set_write_run [OF assms(2), where slot = slot, folded body_def] and stays = set_write_others [where slot = slot and want = want, folded body_def]
  { fix w x w' assume P: "?P w" and eq: "syncSetRowsLocked slot want w = (Inr x, w')"
    then obtain v where b: "body (set_rows w slot) w = (Inr (), v)"
        and w': "w' = v\<lparr>e_setRows := AList.update slot want (e_setRows v)\<rparr>"
      unfolding unfolded by (auto simp: and_then_def modify_def split: prod.splits sum.splits)
    have "actions.others v = actions.others w" by (rule run_Inr [OF stays refl b])
    from set_rows_written [OF _ _ slot [OF P] this run_Inr [OF written pre [OF P] b]] P
    show "?Q x w'" unfolding w' by auto }
  { fix w e w' assume P: "?P w" and eq: "syncSetRowsLocked slot want w = (Inl e, w')"
    then have b: "body (set_rows w slot) w = (Inl e, w')"
      unfolding unfolded by (auto simp: and_then_def modify_def split: prod.splits sum.splits)
    have o: "actions.others w' = actions.others w" by (rule run_Inl [OF stays refl b])
    have dead: "map_of (e_slots w) slot = None" using P slot [OF P] by (auto simp: kept_def sets_ok_def set_slots_def)
    have r: "rows w' s exe = rows w s exe" if "s \<noteq> slot" for s exe
      using run_Inl [OF written pre [OF P] b] that by (simp add: actions.view_def)
    have "rows w' s exe = m (s, exe)" if "map_of (e_slots w) s \<noteq> None" for s exe
      using that P dead r [of s exe] by (cases "s = slot") (auto simp: kept_def)
    moreover from P have "kept m c w" by simp
    ultimately show "kept m c w'" by (simp add: kept_def sets_ok_def others_sel [OF o]) }
qed

lemma gm_wf_intersectAllows: "list_all gm_wf ss \<Longrightarrow> gm_wf (intersectAllows ss)"
proof (induction ss rule: intersectAllows.induct)
  case (2 s ss)
  have "gm_wf (foldl intersect2 s ss)" if "gm_wf s" for s
    using that by (induction ss arbitrary: s) (auto simp: gm_wf_intersect2)
  with 2 show ?case by simp
qed simp

text \<open>The whitelist a set should have.\<close>

definition set_wanted :: "world \<Rightarrow> string \<Rightarrow> allow_set" where
  "set_wanted w key = intersectAllows (set_allows w (liveResInfoLocked w) key)"

definition allows_wf :: "world \<Rightarrow> bool" where
  "allows_wf w \<longleftrightarrow> gm_wf (e_allows w) \<and> list_all (\<lambda>(r, s). gm_wf s) (e_allows w)"

lemma gm_wf_set_allows:
  assumes "allows_wf w"
  shows "gm_wf (intersectAllows (set_allows w info key))"
proof (rule gm_wf_intersectAllows)
  show "list_all gm_wf (set_allows w info key)"
    using assms by (fastforce simp: list_all_iff set_allows_def allows_wf_def split: option.splits dest: map_of_SomeD)
qed

lemma core_reads:
  assumes "core w = c"
  shows "set_allows w info key = set_allows c info key" "liveResInfoLocked w = liveResInfoLocked c"
    "allowIntersectionLocked w = allowIntersectionLocked c" "e_started w = e_started c"
    "e_allows w = e_allows c" "e_slots w = e_slots c"
  using assms by (auto simp: core_def set_allows_def liveResInfoLocked_def live_slots_def allowIntersectionLocked_def)

text \<open>The rows of the listed sets are those wanted.\<close>

definition sets_written :: "world \<Rightarrow> (string, nat) gomap \<Rightarrow> world \<Rightarrow> bool" where
  "sets_written c ys w \<longleftrightarrow> (\<forall>(key, slot) \<in> set ys. \<forall>exe. rows w slot exe = map_of (set_wanted c key) exe)"

lemma set_loop_run:
  assumes "allows_wf c" and "distinct (map snd S)"
  shows "run (\<lambda>w. kept m c w \<and> recorded w \<and> e_sets w = S)
     (for_each S (\<lambda>(key, slot). and_then (get (\<lambda>w. intersectAllows (set_allows w (liveResInfoLocked c) key))) (syncSetRowsLocked slot)))
     (\<lambda>_ w. kept m c w \<and> recorded w \<and> e_sets w = S \<and> sets_written c S w) (kept m c)"
proof -
  define I where "I ys w \<longleftrightarrow> kept m c w \<and> recorded w \<and> e_sets w = S \<and> sets_written c ys w" for ys w
  define R where "R s exe = map_of (set_wanted c (the (map_of (map prod.swap S) s))) exe" for s exe
  have R: "R s exe = map_of (set_wanted c key) exe" if "(key, s) \<in> set S" for key s exe
  proof -
    have "map fst (map prod.swap S) = map snd S" by simp
    then have "distinct (map fst (map prod.swap S))" using assms(2) by (simp only:)
    then have "map_of (map prod.swap S) s = Some key" using that by (intro map_of_is_SomeI) force+
    then show ?thesis by (simp add: R_def)
  qed
  have "run (I []) (for_each S (\<lambda>(key, slot).
      and_then (get (\<lambda>w. intersectAllows (set_allows w (liveResInfoLocked c) key))) (syncSetRowsLocked slot))) (\<lambda>_. I S) (kept m c)"
  proof (rule run_for_each_done)
    fix ys x zs assume S: "S = ys @ x # zs"
    obtain key slot where x: "x = (key, slot)" by (cases x)
    from S x have mem: "slot \<in> snd ` set S" "(key, slot) \<in> set S" "set ys \<subseteq> set S" by force+
    from S x assms(2) have new: "slot \<notin> snd ` set ys" by auto
    have "run (\<lambda>w. kept m c w \<and> recorded w \<and> e_sets w = S \<and> (\<forall>s \<in> snd ` set ys. \<forall>exe. rows w s exe = R s exe))
        (syncSetRowsLocked slot (set_wanted c key)) (\<lambda>_. I (ys @ [x])) (kept m c)"
    proof (rule run_post [OF syncSetRows_run [OF mem(1)]])
      show "gm_wf (set_wanted c key)" unfolding set_wanted_def by (rule gm_wf_set_allows [OF assms(1)])
      fix w
      assume "kept m c w \<and> recorded w \<and> e_sets w = S \<and> (\<forall>s \<in> snd ` set ys - {slot}. \<forall>exe. rows w s exe = R s exe) \<and>
          (\<forall>exe. rows w slot exe = map_of (set_wanted c key) exe)"
      moreover have "rows w s exe = map_of (set_wanted c k) exe"
        if "(k, s) \<in> set ys" "\<forall>s \<in> snd ` set ys - {slot}. \<forall>exe. rows w s exe = R s exe" for k s exe
      proof -
        from that(1) new have "s \<in> snd ` set ys - {slot}" by force
        with that(2) R [of k s exe] that(1) mem(3) show ?thesis by auto
      qed
      ultimately show "I (ys @ [x]) w" by (auto simp: I_def sets_written_def x)
    qed
    then have step: "run (I ys) (syncSetRowsLocked slot (set_wanted c key)) (\<lambda>_. I (ys @ [x])) (kept m c)"
    proof (rule run_pre)
      fix w assume w: "I ys w"
      have "rows w s exe = R s exe" if "(k, s) \<in> set ys" for k s exe
      proof -
        from that mem(3) have "(k, s) \<in> set S" by blast
        from R [OF this] w that show ?thesis by (force simp: I_def sets_written_def)
      qed
      then show "kept m c w \<and> recorded w \<and> e_sets w = S \<and> (\<forall>s \<in> snd ` set ys. \<forall>exe. rows w s exe = R s exe)"
        using w by (auto simp: I_def)
    qed
    have "run (I ys) (and_then (get (\<lambda>w. intersectAllows (set_allows w (liveResInfoLocked c) key))) (syncSetRowsLocked slot))
        (\<lambda>_. I (ys @ [x])) (kept m c)"
    proof (rule run_and_then [where R = "\<lambda>want w. I ys w \<and> want = set_wanted c key"])
      show "run (I ys) (get (\<lambda>w. intersectAllows (set_allows w (liveResInfoLocked c) key))) (\<lambda>want w. I ys w \<and> want = set_wanted c key) (kept m c)"
      proof (rule run_get)
        fix w assume w: "I ys w"
        then have "core w = c" by (simp add: I_def kept_def)
        from core_reads(1) [OF this] w show "I ys w \<and> intersectAllows (set_allows w (liveResInfoLocked c) key) = set_wanted c key"
          by (simp only: set_wanted_def simp_thms)
      qed
      show "run (\<lambda>w. I ys w \<and> want = set_wanted c key) (syncSetRowsLocked slot want) (\<lambda>_. I (ys @ [x])) (kept m c)" for want
        by (rule run_pure) (use step in simp)
    qed
    then show "run (I ys) (case x of (key, slot) \<Rightarrow> and_then (get (\<lambda>w. intersectAllows (set_allows w (liveResInfoLocked c) key)))
        (syncSetRowsLocked slot)) (\<lambda>_. I (ys @ [x])) (kept m c)" by (simp add: x)
  qed
  then show ?thesis by (simp add: I_def [abs_def] sets_written_def)
qed

subsection \<open>The whole refresh\<close>

lemma kept_fields: "core w' = core w \<Longrightarrow> e_sets w' = e_sets w \<Longrightarrow> GuardExeActions w' = GuardExeActions w \<Longrightarrow> kept m c w \<Longrightarrow> kept m c w'"
  using core_sel(1) [of w' w] by (simp add: kept_def sets_ok_def)

lemma recorded_fields:
  "core w' = core w \<Longrightarrow> e_sets w' = e_sets w \<Longrightarrow> GuardExeActions w' = GuardExeActions w \<Longrightarrow> e_setRows w' = e_setRows w \<Longrightarrow>
   map_of (GuardExeUnion w') = map_of (e_unionRows w') \<Longrightarrow> gm_wf (e_unionRows w') \<Longrightarrow> recorded w \<Longrightarrow> recorded w'"
  using core_sel(1) [of w' w] by (simp add: recorded_def set_slots_def set_rows_def free_slot_def setAt_def)

definition synced :: "world \<Rightarrow> (rkey \<rightharpoonup> u8) \<Rightarrow> (string, nat) gomap \<Rightarrow> world \<Rightarrow> bool" where
  "synced c m S w \<longleftrightarrow> kept m c w \<and> recorded w \<and> e_sets w = S \<and> sets_written c S w"

lemma synced_members:
  "synced c m S (GuardTaintMembers_update f w) = synced c m S w" "synced c m S (step_tick w) = synced c m S w"
  "synced c m S (e_memberRows_update g w) = synced c m S w"
  by (simp_all add: synced_def kept_def recorded_def sets_ok_def set_slots_def set_rows_def free_slot_def setAt_def sets_written_def)

lemma syncSetMap_keeps: "keeps (synced c m S) (syncSetMap old new)"
  unfolding syncSetMap_def
  by (intro keep_rules run_map_put run_map_del) (simp_all add: synced_members)

lemma syncSets_run:
  assumes "allows_wf c" and "distinct (map snd S)"
  shows "run (\<lambda>w. kept m c w \<and> recorded w \<and> e_sets w = S) (syncSetsLocked (liveResInfoLocked c) uni)
     (\<lambda>_. synced c m S) (kept m c)"
proof -
  let ?P = "\<lambda>w. kept m c w \<and> recorded w \<and> e_sets w = S"
  let ?f = "\<lambda>(key, slot). and_then (get (\<lambda>w. intersectAllows (set_allows w (liveResInfoLocked c) key))) (syncSetRowsLocked slot)"
  have weak: "run (synced c m S) a (\<lambda>_. synced c m S) (kept m c)" if "keeps (synced c m S) a" for a :: "unit act"
    by (rule run_post [OF that]) (simp_all add: synced_def)
  have mem: "run (synced c m S) (and_then (get e_memberRows) (\<lambda>old. and_then (syncSetMap old new) (\<lambda>_. modify (\<lambda>w. w\<lparr>e_memberRows := new\<rparr>))))
      (\<lambda>_. synced c m S) (kept m c)" for new
    by (intro weak keep_rules syncSetMap_keeps run_modify) (simp add: synced_members)
  have "run ?P (get e_sets) (\<lambda>sets w. ?P w \<and> sets = S) (kept m c)" by (rule run_get) simp
  moreover have "run (\<lambda>w. ?P w \<and> sets = S) (and_then (for_each sets ?f) (\<lambda>_.
      let used = filter (\<lambda>s. s \<in> snd ` set sets) (map snd uni);
          members = planMemberRows sets (liveResInfoLocked c) used in
      and_then (get e_memberRows) (\<lambda>old. and_then (syncSetMap old members) (\<lambda>_. modify (\<lambda>w. w\<lparr>e_memberRows := members\<rparr>)))))
      (\<lambda>_. synced c m S) (kept m c)" for sets
  proof (rule run_pure, rule run_and_then [where R = "\<lambda>_. synced c m S"])
    assume "sets = S"
    with set_loop_run [OF assms, of m] show "run ?P (for_each sets ?f) (\<lambda>_. synced c m S) (kept m c)"
      by (simp add: synced_def [abs_def])
  qed (unfold Let_def, rule mem)
  ultimately show ?thesis unfolding syncSetsLocked_def by (rule run_and_then)
qed

text \<open>The view a refresh computes from the whitelists.\<close>

abbreviation plan_of :: "world \<Rightarrow> (GuardInodeKey, taintOwner) gomap" where
  "plan_of c \<equiv> planTaintOwners (withRealKeys (e_allows c)) (liveResInfoLocked c)"

definition tainted_as_planned :: "world \<Rightarrow> (rkey \<rightharpoonup> u8) \<Rightarrow> world \<Rightarrow> bool" where
  "tainted_as_planned c m w \<longleftrightarrow> kept m c w \<and> recorded w \<and> sets_written c (e_sets w) w \<and> planned (plan_of c) w \<and>
     map_of (GuardExeUnion w) = map_of (union_of (e_sets w) (plan_of c))"

lemma run_ex: "(\<And>x. run (P x) m Q E) \<Longrightarrow> run (\<lambda>w. \<exists>x. P x w) m Q E"
  by (rule runI) (auto dest: run_Inr run_Inl)

lemma and_then_get: "and_then (get f) k w = k (f w) w"
  by (simp add: and_then_def get_def)

lemma gm_wf_add_members: "gm_wf m \<Longrightarrow> gm_wf (foldl (add_member res) m ks)"
  by (induction ks arbitrary: m) (simp_all add: add_member_def distinct_update)

lemma gm_wf_plan: "gm_wf (planTaintOwners allows info)"
proof -
  have "gm_wf (foldl (\<lambda>members (res, s). if map_of info res = None then members
       else foldl (add_member res) members (map fst s)) m allows)" if "gm_wf m" for m
    using that by (induction allows arbitrary: m) (auto simp: gm_wf_add_members)
  then have "gm_wf (taint_members allows info)" by (simp add: taint_members_def)
  moreover have "map fst (planTaintOwners allows info) = map fst (taint_members allows info)"
    by (auto simp: planTaintOwners_def)
  ultimately show ?thesis by simp
qed

lemma gm_wf_union_of: "gm_wf plan \<Longrightarrow> gm_wf (union_of S plan)"
proof -
  have "map fst (union_of S plan) = map fst plan" by (auto simp: union_of_def)
  then show "gm_wf plan \<Longrightarrow> gm_wf (union_of S plan)" by simp
qed

lemma syncU32Map_others: "keeps (\<lambda>w. unions.others w = v) (syncU32Map GuardExeUnion_update old new)"
  unfolding syncU32Map_def by (intro keep_rules unions.put_others unions.del_others)

lemma union_others_sel:
  assumes "unions.others v = unions.others w"
  shows "e_sets v = e_sets w" "e_setRows v = e_setRows w" "e_unionRows v = e_unionRows w"
    "GuardExeActions v = GuardExeActions w" "core v = core w"
  using arg_cong [OF assms, of e_sets] arg_cong [OF assms, of e_setRows]
    arg_cong [OF assms, of e_unionRows] arg_cong [OF assms, of GuardExeActions] arg_cong [OF assms, of core]
  by (simp_all add: unions.others_def core_def)

lemma union_write_run:
  assumes wf: "gm_wf uni"
  shows "run (synced c m S) (and_then (get e_unionRows) (\<lambda>old. and_then (syncU32Map GuardExeUnion_update old uni)
       (\<lambda>_. modify (\<lambda>w. w\<lparr>e_unionRows := uni\<rparr>))))
     (\<lambda>_ w. synced c m S w \<and> map_of (GuardExeUnion w) = map_of uni) (kept m c)" (is "run _ ?a ?Q _")
proof (rule runI)
  have unf: "?a w = and_then (syncU32Map GuardExeUnion_update (e_unionRows w) uni) (\<lambda>_. modify (\<lambda>w. w\<lparr>e_unionRows := uni\<rparr>)) w" for w
    by (simp add: and_then_def get_def)
  have pre: "gm_wf (e_unionRows w)" "unions.view w = map_of (e_unionRows w)" if "synced c m S w" for w
    using that by (auto simp: synced_def recorded_def unions.view_def)
  { fix w x w' assume P: "synced c m S w" and "?a w = (Inr x, w')"
    then obtain v where b: "syncU32Map GuardExeUnion_update (e_unionRows w) uni w = (Inr (), v)" and w': "w' = v\<lparr>e_unionRows := uni\<rparr>"
      unfolding unf by (auto simp: and_then_def modify_def split: prod.splits sum.splits)
    have "unions.others v = unions.others w" by (rule run_Inr [OF syncU32Map_others refl b])
    note o = union_others_sel [OF this]
    have view: "map_of (GuardExeUnion v) = map_of uni"
      using run_Inr [OF syncU32Map_run [OF pre(1) [OF P] wf] pre(2) [OF P] b] by (simp add: unions.view_def)
    have "kept m c w'" by (rule kept_fields [of _ w]) (use P in \<open>simp_all add: w' o synced_def\<close>)
    moreover have "recorded w'" by (rule recorded_fields [of _ w]) (use P wf view in \<open>simp_all add: w' o synced_def\<close>)
    ultimately show "?Q x w'" using P view by (simp add: synced_def sets_written_def w' o) }
  { fix w e w' assume P: "synced c m S w" and "?a w = (Inl e, w')"
    then have b: "syncU32Map GuardExeUnion_update (e_unionRows w) uni w = (Inl e, w')"
      unfolding unf by (auto simp: and_then_def modify_def split: prod.splits sum.splits)
    have "unions.others w' = unions.others w" by (rule run_Inl [OF syncU32Map_others refl b])
    note o = union_others_sel [OF this]
    show "kept m c w'" by (rule kept_fields [of _ w]) (use P in \<open>simp_all add: o synced_def\<close>) }
qed

lemma syncTaint_run:
  assumes "allows_wf c" and st: "e_started c"
  shows "run (\<lambda>w. kept m c w \<and> recorded w) syncTaintLocked (\<lambda>_. tainted_as_planned c m) (kept m c)"
proof -
  let ?P = "\<lambda>w. kept m c w \<and> recorded w"
  let ?rest = "\<lambda>info uni. and_then (syncSetsLocked info uni) (\<lambda>_. and_then (get e_unionRows) (\<lambda>old.
      and_then (syncU32Map GuardExeUnion_update old uni) (\<lambda>_. modify (\<lambda>w. w\<lparr>e_unionRows := uni\<rparr>))))"
  define A where "A S \<longleftrightarrow> distinct (map snd S) \<and> planned (plan_of c) (c\<lparr>e_sets := S\<rparr>)" for S
  have pl: "planned p w = planned p (c\<lparr>e_sets := e_sets w\<rparr>)" if "kept m c w" for p w
    using full_cong [of w "c\<lparr>e_sets := e_sets w\<rparr>"] kept_slots [OF that] by (simp add: planned_def)
  have tail: "run (\<lambda>w. kept m c w \<and> recorded w \<and> e_sets w = S) (?rest (liveResInfoLocked c) (union_of S (plan_of c)))
      (\<lambda>_. tainted_as_planned c m) (kept m c)" if A: "A S" for S
  proof (rule run_and_then [OF syncSets_run [OF assms(1)]])
    show "distinct (map snd S)" using A by (simp add: A_def)
    show "run (synced c m S) (and_then (get e_unionRows) (\<lambda>old.
        and_then (syncU32Map GuardExeUnion_update old (union_of S (plan_of c))) (\<lambda>_. modify (\<lambda>w. w\<lparr>e_unionRows := union_of S (plan_of c)\<rparr>))))
        (\<lambda>_. tainted_as_planned c m) (kept m c)" for x :: unit
    proof (rule run_post [OF union_write_run [OF gm_wf_union_of [OF gm_wf_plan]]])
      fix w assume "synced c m S w \<and> map_of (GuardExeUnion w) = map_of (union_of S (plan_of c))"
      then show "tainted_as_planned c m w"
        using pl [of w] A by (auto simp: A_def tainted_as_planned_def synced_def)
    qed
  qed
  have mid: "run ?P (and_then (build_union (plan_of c)) (?rest (liveResInfoLocked c))) (\<lambda>_. tainted_as_planned c m) (kept m c)"
  proof (rule run_pre [where P = "\<lambda>w. \<exists>S F. kept m c w \<and> recorded w \<and> e_sets w = S \<and> full w = F"], rule run_ex, rule run_ex)
    fix S F
    show "run (\<lambda>w. kept m c w \<and> recorded w \<and> e_sets w = S \<and> full w = F)
       (and_then (build_union (plan_of c)) (?rest (liveResInfoLocked c))) (\<lambda>_. tainted_as_planned c m) (kept m c)"
    proof (rule run_and_then [where R = "\<lambda>uni w. \<exists>S. (kept m c w \<and> recorded w \<and> e_sets w = S) \<and> (A S \<and> uni = union_of S (plan_of c))"])
      show "run (\<lambda>w. kept m c w \<and> recorded w \<and> e_sets w = S \<and> full w = F) (build_union (plan_of c))
          (\<lambda>uni w. \<exists>S. (kept m c w \<and> recorded w \<and> e_sets w = S) \<and> (A S \<and> uni = union_of S (plan_of c))) (kept m c)"
        by (rule run_post [OF build_union_run]) (use pl in \<open>auto simp: A_def kept_def sets_ok_def\<close>)
      show "run (\<lambda>w. \<exists>S. (kept m c w \<and> recorded w \<and> e_sets w = S) \<and> (A S \<and> uni = union_of S (plan_of c))) (?rest (liveResInfoLocked c) uni)
          (\<lambda>_. tainted_as_planned c m) (kept m c)" for uni
        by (rule run_ex, rule run_pure) (use tail in simp)
    qed
  qed simp
  show ?thesis
  proof (rule runI)
    have unf: "syncTaintLocked w = and_then (build_union (plan_of c)) (?rest (liveResInfoLocked c)) w" if "?P w" for w
    proof -
      from that have "core w = c" by (simp add: kept_def)
      from core_reads(2,4,5) [OF this] st show ?thesis
        unfolding syncTaintLocked_def by (simp add: and_then_get)
    qed
    show "tainted_as_planned c m w'" if "?P w" "syncTaintLocked w = (Inr x, w')" for w x w'
      using run_Inr [OF mid that(1)] that(2) unfolding unf [OF that(1)] by blast
    show "kept m c w'" if "?P w" "syncTaintLocked w = (Inl e, w')" for w e w'
      using run_Inl [OF mid that(1)] that(2) unfolding unf [OF that(1)] by blast
  qed
qed

lemma refreshGlobal_others: "keeps (\<lambda>w. actions.others w = v) refreshGlobalLocked"
  unfolding refreshGlobalLocked_def clearGlobalAllowsLocked_def
  by (intro keep_rules actions.put_others actions.del_others) (simp add: actions.others_tick)

lemma clearGlobal_view:
  "run (\<lambda>w. actions.view w = m) clearGlobalAllowsLocked
     (\<lambda>_ w. actions.view w = (\<lambda>k. if fst k = resGlobal then None else m k))
     (\<lambda>w. \<forall>k. fst k \<noteq> resGlobal \<longrightarrow> actions.view w k = m k)"
  unfolding clearGlobalAllowsLocked_def
proof (rule run_and_then [where R = "\<lambda>rs w. actions.view w = m \<and> map_of rs = m"])
  show "run (\<lambda>w. actions.view w = m) (map_rows GuardExeActions) (\<lambda>rs w. actions.view w = m \<and> map_of rs = m)
      (\<lambda>w. \<forall>k. fst k \<noteq> resGlobal \<longrightarrow> actions.view w k = m k)"
    by (rule run_map_rows) (simp_all add: actions.view_def)
  fix rs :: "(rkey, u8) gomap"
  let ?ks = "filter (\<lambda>k. fst k = resGlobal) (map fst rs)"
  show "run (\<lambda>w. actions.view w = m \<and> map_of rs = m) (for_each ?ks (map_del GuardExeActions_update))
      (\<lambda>_ w. actions.view w = (\<lambda>k. if fst k = resGlobal then None else m k))
      (\<lambda>w. \<forall>k. fst k \<noteq> resGlobal \<longrightarrow> actions.view w k = m k)"
  proof (rule run_pure, rule run_post [OF actions.del_loop [of m ?ks "\<lambda>_. False", simplified]])
    assume rs: "map_of rs = m"
    have "m |` (- {k. k \<in> fst ` set rs \<and> fst k = resGlobal}) = (\<lambda>k. if fst k = resGlobal then None else m k)"
      using map_of_eq_None_iff [of rs] by (auto simp: fun_eq_iff restrict_map_def rs)
    then show "actions.view w = m |` (- {k. k \<in> fst ` set rs \<and> fst k = resGlobal}) \<Longrightarrow>
        actions.view w = (\<lambda>k. if fst k = resGlobal then None else m k)" for w by simp
  qed auto
qed

lemma refreshGlobal_view:
  assumes "allows_wf c" and "e_started c"
  shows "run (\<lambda>w. core w = c \<and> actions.view w = m) refreshGlobalLocked
     (\<lambda>_ w. \<forall>k. actions.view w k = (if fst k = resGlobal then map_of (allowIntersectionLocked c) (snd k) else m k))
     (\<lambda>w. \<forall>k. fst k \<noteq> resGlobal \<longrightarrow> actions.view w k = m k)" (is "run _ _ ?Q ?E")
proof -
  let ?m = "\<lambda>k. if fst k = resGlobal then None else m k"
  have wf: "gm_wf (allowIntersectionLocked c)"
    unfolding allowIntersectionLocked_def
    by (rule gm_wf_intersectAllows) (use assms(1) in \<open>auto simp: allows_wf_def list_all_iff\<close>)
  have puts: "run (\<lambda>w. actions.view w = ?m) (for_each (allowIntersectionLocked c) (\<lambda>(exe, a). map_put GuardExeActions_update (resGlobal, exe) a)) ?Q ?E"
  proof -
    have "run (\<lambda>w. actions.view w = ?m) (for_each (key_rows resGlobal (allowIntersectionLocked c))
        (\<lambda>(k, v). if False then ret () else map_put GuardExeActions_update k v)) ?Q ?E"
    proof (rule run_post [OF actions.put_loop [OF gm_wf_key_rows [OF wf]]])
      show "?Q x w" if "actions.view w = ?m ++ map_of (key_rows resGlobal (allowIntersectionLocked c))" for x :: unit and w
        unfolding that by (auto simp: map_add_def map_of_key_rows split: option.splits)
      show "?E w" if "\<forall>k. actions.view w k = ?m k \<or> actions.view w k = map_of (key_rows resGlobal (allowIntersectionLocked c)) k \<and> actions.view w k \<noteq> None" for w
      proof (intro allI impI)
        fix k :: rkey assume "fst k \<noteq> resGlobal"
        with that [rule_format, of k] show "actions.view w k = m k" by (auto simp: map_of_key_rows)
      qed
    qed simp
    then show ?thesis by (simp only: key_rows_def for_each_map split_def fst_conv snd_conv if_False)
  qed
  have core: "keeps (\<lambda>w. core w = c) clearGlobalAllowsLocked"
    unfolding clearGlobalAllowsLocked_def by (intro keep_rules run_map_del) simp_all
  have "run (\<lambda>w. core w = c \<and> actions.view w = m) clearGlobalAllowsLocked (\<lambda>_ w. core w = c \<and> actions.view w = ?m) ?E"
    by (rule run_post [OF run_conj [OF core clearGlobal_view]]) auto
  moreover have "run (\<lambda>w. core w = c \<and> actions.view w = ?m) (and_then (get allowIntersectionLocked) (\<lambda>rows.
      for_each rows (\<lambda>(exe, a). map_put GuardExeActions_update (resGlobal, exe) a))) ?Q ?E"
  proof (rule run_and_then [where R = "\<lambda>x w. actions.view w = ?m \<and> x = allowIntersectionLocked c"])
    show "run (\<lambda>w. core w = c \<and> actions.view w = ?m) (get allowIntersectionLocked) (\<lambda>x w. actions.view w = ?m \<and> x = allowIntersectionLocked c) ?E"
      by (rule run_get) (metis core_reads(3))
    show "run (\<lambda>w. actions.view w = ?m \<and> x = allowIntersectionLocked c) (for_each x (\<lambda>(exe, a). map_put GuardExeActions_update (resGlobal, exe) a)) ?Q ?E" for x
      by (rule run_pure) (use puts in simp)
  qed
  ultimately have "run (\<lambda>w. core w = c \<and> actions.view w = m) (and_then clearGlobalAllowsLocked (\<lambda>_.
      and_then (get allowIntersectionLocked) (\<lambda>rows. for_each rows (\<lambda>(exe, a). map_put GuardExeActions_update (resGlobal, exe) a)))) ?Q ?E"
    by (rule run_and_then)
  moreover have "run (\<lambda>w. core w = c \<and> actions.view w = m) (get e_started) (\<lambda>x w. (core w = c \<and> actions.view w = m) \<and> x) ?E"
    by (rule run_get) (use assms(2) in \<open>auto simp: core_def\<close>)
  ultimately show ?thesis
    unfolding refreshGlobalLocked_def by (intro run_and_then [where R = "\<lambda>x w. (core w = c \<and> actions.view w = m) \<and> x"] run_pure) auto
qed

text \<open>The invariant the engine lives in.\<close>

definition engine_ok :: "world \<Rightarrow> bool" where
  "engine_ok w \<longleftrightarrow> sets_ok w \<and> recorded w \<and> allows_wf w \<and> map_of (e_slots w) resGlobal = None"

lemma global_written:
  assumes "tainted_as_planned c m w" and "map_of (e_slots w) resGlobal = None" and "actions.others v = actions.others w"
    and r: "\<And>s exe. s \<noteq> resGlobal \<Longrightarrow> rows v s exe = rows w s exe"
  shows "tainted_as_planned c m v"
proof -
  note o = others_sel [OF assms(3)]
  have pos: "0 < slot" if "(key, slot) \<in> set (e_sets w)" for key slot
    using assms(1) that by (auto simp: tainted_as_planned_def kept_def sets_ok_def)
  have live: "rows v s exe = rows w s exe" if "map_of (e_slots w) s \<noteq> None" for s exe
    using that assms(2) r [of s exe] by (cases "s = resGlobal") auto
  have kept: "kept m c v"
    using assms(1) live by (simp add: tainted_as_planned_def kept_def sets_ok_def o)
  have inset: "rows v s exe = rows w s exe" if "(key, s) \<in> set (e_sets w)" for key s exe
    using pos [OF that] r by simp
  have "recorded v"
  proof -
    have same: "set_slots v = set_slots w" "set_rows v = set_rows w" "free_slot v = free_slot w"
      by (simp_all add: fun_eq_iff set_slots_def set_rows_def free_slot_def setAt_def o)
    have "rows v s exe = rows w s exe" if "s \<in> set_slots w" for s exe
      using that inset by (auto simp: set_slots_def)
    with assms(1) r show ?thesis by (simp add: tainted_as_planned_def recorded_def same o)
  qed
  moreover have "sets_written c (e_sets v) v"
    using assms(1) inset by (auto simp: tainted_as_planned_def sets_written_def o)
  moreover have "planned (plan_of c) v = planned (plan_of c) w"
    using full_cong [of v w] by (simp add: planned_def o)
  ultimately show ?thesis using assms(1) kept by (simp add: tainted_as_planned_def o)
qed

lemma syncShared_run:
  assumes "allows_wf c" and "e_started c" and "map_of (e_slots c) resGlobal = None"
  shows "run (\<lambda>w. kept m c w \<and> recorded w) syncSharedLocked
     (\<lambda>_ w. tainted_as_planned c m w \<and> (\<forall>exe. rows w resGlobal exe = map_of (allowIntersectionLocked c) exe))
     (kept m c)" (is "run _ _ ?Q _")
  unfolding syncSharedLocked_def
proof (rule run_and_then [OF syncTaint_run [OF assms(1,2)]], rule runI)
  fix w :: world and x w' assume t: "tainted_as_planned c m w" and b: "refreshGlobalLocked w = (Inr x, w')"
  have cw: "core w = c" using t by (simp add: tainted_as_planned_def kept_def)
  note v = run_Inr [OF refreshGlobal_view [OF assms(1,2)] conjI [OF cw refl] b]
  have o: "actions.others w' = actions.others w" by (rule run_Inr [OF refreshGlobal_others refl b])
  have "tainted_as_planned c m w'"
    by (rule global_written [OF t _ o])
      (use v assms(3) core_reads(6) [OF cw] in \<open>simp_all add: actions.view_def\<close>)
  with v show "?Q x w'" by (simp add: actions.view_def)
next
  fix w :: world and e w' assume t: "tainted_as_planned c m w" and b: "refreshGlobalLocked w = (Inl e, w')"
  have cw: "core w = c" using t by (simp add: tainted_as_planned_def kept_def)
  note v = run_Inl [OF refreshGlobal_view [OF assms(1,2)] conjI [OF cw refl] b]
  have o: "actions.others w' = actions.others w" by (rule run_Inl [OF refreshGlobal_others refl b])
  have "tainted_as_planned c m w'"
    by (rule global_written [OF t _ o])
      (use v assms(3) core_reads(6) [OF cw] in \<open>simp_all add: actions.view_def\<close>)
  then show "kept m c w'" by (simp add: tainted_as_planned_def)
qed

lemma kept_self: "sets_ok w \<Longrightarrow> kept (actions.view w) (core w) w"
  by (simp add: kept_def actions.view_def)

lemma core_core [simp]: "core (core w) = core w" "e_allows (core w) = e_allows w" "e_started (core w) = e_started w"
  "e_slots (core w) = e_slots w" "allows_wf (core w) = allows_wf w" "liveResInfoLocked (core w) = liveResInfoLocked w"
  "allowIntersectionLocked (core w) = allowIntersectionLocked w" "set_wanted (core w) key = set_wanted w key"
  by (simp_all add: core_def allows_wf_def liveResInfoLocked_def live_slots_def allowIntersectionLocked_def set_wanted_def set_allows_def)

text \<open>What a refresh does, in one fact.\<close>

lemma syncShared_outcome:
  assumes ok: "engine_ok w" and run: "syncSharedLocked w = (r, w')"
  shows "core w' = core w" "sets_ok w'" "map_of (e_slots w) slot \<noteq> None \<Longrightarrow> rows w' slot exe = rows w slot exe"
    "r = Inr () \<Longrightarrow> engine_ok w'"
    "r = Inr () \<Longrightarrow> e_started w \<Longrightarrow> tainted_as_planned (core w) (actions.view w) w' \<and>
       (\<forall>exe. rows w' resGlobal exe = map_of (allowIntersectionLocked w) exe)"
proof -
  have same: "w' = w \<and> r = Inr ()" if "\<not> e_started w"
    using that run by (simp add: syncSharedLocked_def syncTaintLocked_def refreshGlobalLocked_def and_then_def get_def ret_def)
  have pre: "kept (actions.view w) (core w) w \<and> recorded w" using ok by (simp add: engine_ok_def kept_self)
  have R: "run (\<lambda>v. kept (actions.view w) (core w) v \<and> recorded v) syncSharedLocked
     (\<lambda>_ v. tainted_as_planned (core w) (actions.view w) v \<and> (\<forall>exe. rows v resGlobal exe = map_of (allowIntersectionLocked w) exe))
     (kept (actions.view w) (core w))" if "e_started w"
    using syncShared_run [of "core w" "actions.view w"] ok that by (simp add: engine_ok_def)
  show post: "tainted_as_planned (core w) (actions.view w) w' \<and> (\<forall>exe. rows w' resGlobal exe = map_of (allowIntersectionLocked w) exe)"
    if "r = Inr ()" "e_started w"
    by (rule run_Inr [OF R [OF that(2)] pre run [unfolded that(1)]])
  have k: "kept (actions.view w) (core w) w'"
  proof (cases "e_started w")
    case True
    show ?thesis
    proof (cases r)
      case (Inl e)
      show ?thesis by (rule run_Inl [OF R [OF True] pre run [unfolded Inl]])
    next
      case (Inr u)
      with post True show ?thesis by (simp add: tainted_as_planned_def)
    qed
  qed (use same pre in simp)
  then show c: "core w' = core w" and s: "sets_ok w'" by (simp_all add: kept_def)
  show "rows w' slot exe = rows w slot exe" if "map_of (e_slots w) slot \<noteq> None"
    using k that core_sel(1) [OF c] by (simp add: kept_def actions.view_def)
  show "engine_ok w'" if "r = Inr ()"
    using same ok post that s core_sel(1,2) [OF c]
    by (cases "e_started w") (simp_all add: engine_ok_def allows_wf_def tainted_as_planned_def)
qed

subsection \<open>What the taint means\<close>

definition row_admits :: "world \<Rightarrow> nat \<Rightarrow> GuardInodeKey \<Rightarrow> bool \<Rightarrow> bool" where
  "row_admits w slot exe root = (case rows w slot exe of None \<Rightarrow> False | Some a \<Rightarrow> grants a root)"

text \<open>The whitelist of a resource has the binary, itself or through one of its applets.\<close>

definition lists_exe :: "world \<Rightarrow> nat \<Rightarrow> GuardInodeKey \<Rightarrow> bool" where
  "lists_exe w r exe = list_ex (\<lambda>(k, _). k = exe \<or> tagged k \<and> Real k = exe) (res_allows w r)"

lemma setPaths_setKeyOf: "xs \<noteq> [] \<Longrightarrow> \<forall>p \<in> set xs. CHR 0x00 \<notin> set p \<Longrightarrow> setPaths (setKeyOf xs) = xs"
  by (simp add: setPaths_def setKeyOf_def split_join_on)

lemma gm_wf_add_real: "gm_wf cp \<Longrightarrow> gm_wf (foldl add_real cp ks)"
  by (induction ks arbitrary: cp) (auto simp: add_real_def distinct_update)

lemma add_real_mono: "map_of cp exe \<noteq> None \<Longrightarrow> map_of (foldl add_real cp ks) exe \<noteq> None"
proof (induction ks arbitrary: cp)
  case (Cons p ks)
  then have "map_of (add_real cp p) exe \<noteq> None" by (auto simp: add_real_def split: prod.splits)
  with Cons.IH [of "add_real cp p"] show ?case by simp
qed simp

lemma add_real_has: "(k, a) \<in> set ks \<Longrightarrow> tagged k \<Longrightarrow> map_of (foldl add_real cp ks) (Real k) \<noteq> None"
proof (induction ks arbitrary: cp)
  case (Cons p ks)
  show ?case
  proof (cases "p = (k, a)")
    case True
    with Cons.prems have "map_of (add_real cp p) (Real k) \<noteq> None" by (auto simp: add_real_def)
    then show ?thesis using add_real_mono [of "add_real cp p" "Real k" ks] by simp
  next
    case False
    with Cons show ?thesis by simp
  qed
qed simp

lemma withRealKeys_lookup: "map_of (withRealKeys al) r = map_option (\<lambda>s. foldl add_real s s) (map_of al r)"
  by (induction al) (auto simp: withRealKeys_def)

lemma withRealKeys_wf: "allows_wf w \<Longrightarrow> gm_wf (withRealKeys (e_allows w)) \<and> list_all (\<lambda>(r, s). gm_wf s) (withRealKeys (e_allows w))"
proof -
  assume wf: "allows_wf w"
  have "map fst (withRealKeys (e_allows w)) = map fst (e_allows w)" by (auto simp: withRealKeys_def)
  with wf have "gm_wf (withRealKeys (e_allows w))" by (simp add: allows_wf_def)
  moreover have "list_all (\<lambda>(r, s). gm_wf s) (withRealKeys (e_allows w))"
    using wf by (auto simp: allows_wf_def list_all_iff withRealKeys_def gm_wf_add_real)
  ultimately show ?thesis by simp
qed

lemma live_info:
  "map_of (e_slots w) r = Some g \<Longrightarrow> map_of (liveResInfoLocked w) r =
     Some \<lparr>ri_path = g_path (w_guards w g), ri_readonly = (g_mode (w_guards w g) = ModeReadOnly)\<rparr>"
proof -
  assume g: "map_of (e_slots w) r = Some g"
  have "map_of (live_slots w) r = Some g"
    unfolding live_slots_def using map_of_Some_fst [OF g] g by (simp add: map_of_map_restrict)
  then show ?thesis by (simp add: liveResInfoLocked_def map_of_map)
qed

lemma live_info_guard: "map_of (liveResInfoLocked w) r = Some ri \<Longrightarrow> \<exists>g. map_of (e_slots w) r = Some g \<and> ri_path ri = g_path (w_guards w g)"
proof -
  assume i: "map_of (liveResInfoLocked w) r = Some ri"
  then have "r \<in> fst ` set (e_slots w)" using map_of_Some_fst [OF i] by (force simp: liveResInfoLocked_def live_slots_def)
  then obtain g where "map_of (e_slots w) r = Some g"
    using map_of_eq_None_iff [of "e_slots w" r] by (cases "map_of (e_slots w) r") auto
  with live_info [OF this] i show ?thesis by simp
qed

lemma admits_each:
  assumes "list_all allow_actions sets" and "s \<in> set sets" and "admits (intersectAllows sets) k root"
  shows "admits s k root"
proof (cases sets)
  case (Cons t ts)
  with assms admits_foldl [of t ts k root] show ?thesis by (auto simp: list_all_iff)
qed (use assms in simp)

text \<open>A binary's owner is its one writable resource, or a set with all of them.\<close>

lemma owner_covers:
  assumes "gm_wf al" "list_all (\<lambda>(r, s). gm_wf s) al" and s: "map_of al r = Some s" "map_of s exe \<noteq> None"
    and ri: "map_of info r = Some ri" "\<not> ri_readonly ri"
  shows "\<exists>o'. map_of (planTaintOwners al info) exe = Some o' \<and>
     (to_setKey o' = [] \<and> to_res o' = r \<or>
      to_res o' = 0 \<and> (\<exists>P. finite P \<and> ri_path ri \<in> P \<and> P \<subseteq> (\<lambda>r. ri_path (the (map_of info r))) ` {r. map_of info r \<noteq> None} \<and>
         to_setKey o' = setKeyOf (sorted_list_of_set P)))"
proof -
  let ?rs = "allowing al info exe"
  let ?T = "{q \<in> set ?rs. \<not> ri_readonly (the (map_of info q))}"
  have rs: "r \<in> set ?rs" "set ?rs \<subseteq> {r. map_of info r \<noteq> None}"
    using map_of_SomeD [OF s(1)] s(2) ri(1) by (force simp: allowing_def)+
  have d: "distinct ?rs" using assms(1) unfolding allowing_def by (rule distinct_map_filter)
  have "r \<in> ?T" using rs ri by simp
  have ne: "?rs \<noteq> []" using rs(1) by auto
  have "map_of (planTaintOwners al info) exe = Some (owner_of info ?rs)"
    unfolding planTaintOwners_def by (simp add: map_of_map taint_members_lookup [OF assms(2)] ne)
  moreover have "to_setKey (owner_of info ?rs) = [] \<and> to_res (owner_of info ?rs) = r" if "card ?T = 1"
  proof -
    from that \<open>r \<in> ?T\<close> have "?T = {r}" by (metis (no_types, lifting) card_1_singletonE singletonD)
    then show ?thesis unfolding owner_of_distinct [OF d ne refl] by simp
  qed
  moreover have "to_res (owner_of info ?rs) = 0 \<and> to_setKey (owner_of info ?rs) = setKeyOf (sorted_list_of_set ((\<lambda>r. ri_path (the (map_of info r))) ` ?T))"
    if "card ?T \<noteq> 1"
    using that \<open>r \<in> ?T\<close> unfolding owner_of_distinct [OF d ne refl] by auto
  moreover have "ri_path ri \<in> (\<lambda>r. ri_path (the (map_of info r))) ` ?T" using \<open>r \<in> ?T\<close> ri(1) by force
  moreover have "(\<lambda>r. ri_path (the (map_of info r))) ` ?T \<subseteq> (\<lambda>r. ri_path (the (map_of info r))) ` {r. map_of info r \<noteq> None}"
    using rs(2) by auto
  moreover have "finite ((\<lambda>r. ri_path (the (map_of info r))) ` ?T)" by simp
  ultimately show ?thesis by (cases "card ?T = 1") blast+
qed

lemma live_key_paths:
  assumes nul: "list_all (\<lambda>(_, g). CHR 0x00 \<notin> set (g_path (w_guards w g))) (e_slots w)"
    and P: "finite P" "P \<noteq> {}" "P \<subseteq> (\<lambda>r. ri_path (the (map_of (liveResInfoLocked w) r))) ` {r. map_of (liveResInfoLocked w) r \<noteq> None}"
  shows "set (setPaths (setKeyOf (sorted_list_of_set P))) = P"
proof -
  have "CHR 0x00 \<notin> set p" if "p \<in> P" for p
  proof -
    from that P(3) obtain q ri where "map_of (liveResInfoLocked w) q = Some ri" "p = ri_path ri" by auto
    with live_info_guard [of w q ri] obtain h where "map_of (e_slots w) q = Some h" "p = g_path (w_guards w h)" by auto
    with nul show ?thesis by (auto simp: list_all_iff dest: map_of_SomeD)
  qed
  then have "setPaths (setKeyOf (sorted_list_of_set P)) = sorted_list_of_set P"
    using P(1,2) by (intro setPaths_setKeyOf) auto
  with P(1) show ?thesis by simp
qed

lemma set_allows_actions:
  assumes "list_all (\<lambda>(r, s). allow_actions s) (e_allows w)"
  shows "list_all allow_actions (set_allows w info key)"
proof -
  have "allow_actions t" if "map_of (e_allows w) q = Some t" for q t
    using assms map_of_SomeD [OF that] by (auto simp: list_all_iff)
  moreover have "allow_actions []" by (simp add: allow_actions_def)
  ultimately show ?thesis by (auto simp: set_allows_def list_all_iff split: option.splits)
qed

text \<open>
  C1. The engine has started, its records of the rows it wrote are true (\<open>engine_ok\<close>; a set write that
  failed half-way can break this, see \<open>stale_set_row\<close>, and a successful refresh keeps it, see
  \<open>refresh_keeps_resources\<close>), the whitelists hold allow actions and no guarded path holds a NUL. Then
  after a successful refresh, every binary that a writable resource whitelists is judged by a slot
  that is never more generous than that resource: it is the resource itself, or whatever the slot
  admits the resource's own whitelist admits too. So a process that may hold the data of several
  resources is only ever shown to the binaries all of them trust.
\<close>

theorem taint_never_weaker:
  assumes ok: "engine_ok w" "e_started w" and act: "list_all (\<lambda>(r, s). allow_actions s) (e_allows w)"
    and nul: "list_all (\<lambda>(_, g). CHR 0x00 \<notin> set (g_path (w_guards w g))) (e_slots w)"
    and run: "syncSharedLocked w = (Inr (), w')"
    and live: "map_of (e_slots w) r = Some g" "g_mode (w_guards w g) \<noteq> ModeReadOnly" and lists: "lists_exe w r exe"
  shows "\<exists>slot. map_of (GuardExeUnion w') exe = Some slot \<and>
     (slot = r \<or> (\<forall>p root. row_admits w' slot p root \<longrightarrow> admits (res_allows w r) p root))"
proof -
  note out = syncShared_outcome(5) [OF ok(1) run refl ok(2)]
  then have un: "map_of (GuardExeUnion w') = map_of (union_of (e_sets w') (plan_of w))"
    and sw: "sets_written (core w) (e_sets w') w'" and glob: "\<And>exe. rows w' resGlobal exe = map_of (allowIntersectionLocked w) exe"
    by (simp_all add: tainted_as_planned_def)
  let ?ri = "\<lparr>ri_path = g_path (w_guards w g), ri_readonly = (g_mode (w_guards w g) = ModeReadOnly)\<rparr>"
  let ?info = "liveResInfoLocked w"
  have wf: "allows_wf w" using ok by (simp add: engine_ok_def)
  from lists obtain s where s: "map_of (e_allows w) r = Some s" and rs: "res_allows w r = s"
    by (auto simp: lists_exe_def res_allows_def split: option.splits)
  from lists rs obtain k a where k: "(k, a) \<in> set s" "k = exe \<or> tagged k \<and> Real k = exe" by (auto simp: lists_exe_def list_ex_iff)
  have "map_of s k \<noteq> None" using k(1) map_of_eq_None_iff [of s k] by force
  then have has: "map_of (foldl add_real s s) exe \<noteq> None"
    using k add_real_mono [of s k s] add_real_has [of k a s s] by auto
  have info: "map_of ?info r = Some ?ri" by (rule live_info [OF live(1)])
  obtain o' where o: "map_of (plan_of w) exe = Some o'"
    "to_setKey o' = [] \<and> to_res o' = r \<or> to_res o' = 0 \<and> (\<exists>P. finite P \<and> ri_path ?ri \<in> P \<and>
       P \<subseteq> (\<lambda>r. ri_path (the (map_of ?info r))) ` {r. map_of ?info r \<noteq> None} \<and> to_setKey o' = setKeyOf (sorted_list_of_set P))"
    using owner_covers [of "withRealKeys (e_allows w)" r "foldl add_real s s" exe ?info ?ri] withRealKeys_wf [OF wf] s has info live(2)
    by (auto simp: withRealKeys_lookup)
  have slot: "map_of (GuardExeUnion w') exe = Some (slot_of (e_sets w') o')"
    unfolding un union_of_def by (simp add: map_of_map o(1))
  have byset: "admits (res_allows w r) p root"
    if "s \<in> set sets" "list_all allow_actions sets" "\<And>exe. rows w' sl exe = map_of (intersectAllows sets) exe" "row_admits w' sl p root" for sets sl p root
    using admits_each [OF that(2,1), of p root] that(3,4) by (simp add: row_admits_def admits_def rs)
  have globally: "admits (res_allows w r) p root" if "row_admits w' resGlobal p root" for p root
    by (rule byset [OF _ _ _ that, of "map snd (e_allows w)"])
      (use map_of_SomeD [OF s] act glob in \<open>force simp: allowIntersectionLocked_def list_all_iff\<close>)+
  show ?thesis
  proof (cases "map_of (e_sets w') (to_setKey o')")
    case None
    then have "slot_of (e_sets w') o' = r \<or> slot_of (e_sets w') o' = resGlobal" using o(2) by (auto simp: slot_of_def)
    with slot globally show ?thesis by auto
  next
    case (Some sl)
    show ?thesis
    proof (cases "to_setKey o' = []")
      case True
      then have "slot_of (e_sets w') o' = r \<or> slot_of (e_sets w') o' = resGlobal" using o(2) by (auto simp: slot_of_def)
      with slot globally show ?thesis by auto
    next
      case False
      with o(2) obtain P where P: "finite P" "g_path (w_guards w g) \<in> P" "to_setKey o' = setKeyOf (sorted_list_of_set P)"
        "P \<subseteq> (\<lambda>r. ri_path (the (map_of ?info r))) ` {r. map_of ?info r \<noteq> None}" by auto
      have "set (setPaths (to_setKey o')) = P"
        unfolding P(3) by (rule live_key_paths [OF nul P(1) _ P(4)]) (use P(2) in auto)
      then have mem: "s \<in> set (set_allows w ?info (to_setKey o'))"
        using map_of_SomeD [OF info] P(2) s by (force simp: set_allows_def)
      have "rows w' sl e = map_of (intersectAllows (set_allows w ?info (to_setKey o'))) e" for e
        using sw map_of_SomeD [OF Some] unfolding set_wanted_def [symmetric] by (auto simp: sets_written_def)
      from byset [OF mem set_allows_actions [OF act] this] show ?thesis using slot Some False by (auto simp: slot_of_def)
    qed
  qed
qed

text \<open>Two resources share a binary; their set has slot 7 and no row yet.\<close>

definition demo_guard :: "nat \<Rightarrow> string \<Rightarrow> Guard" where
  "demo_guard slot path = \<lparr>g_resID = slot, g_path = path, g_mode = ModeWhitelist, g_stopped = False, g_pinPrefix = [],
     g_binaries = [], g_exeEvents = [], g_canonicalPaths = [], g_deferred = [], g_selfKey = None, g_selfEvents = [],
     g_selfGranted = False, g_verifyStates = [], g_verifying = False, g_pinning = False, g_deployed = [], g_keyPaths = [], g_retired = [],
     g_links = [], g_vetted = [], g_canonicalRoot = False, g_held = [], g_systemPatterns = [], g_refused = []\<rparr>"

definition demo_key :: string where
  "demo_key = setKeyOf [''/a'', ''/b'']"

definition demo_world :: world where
  "demo_world = \<lparr>tick = 0, faults = (\<lambda>_. False),
     GuardExeActions = [((1, demo_file), GUARD_ALLOW), ((2, demo_file), GUARD_ALLOW_ROOT)], GuardExeEvents = [],
     GuardExeUnion = [], GuardTaintMembers = [], GuardTaintSuccessor = [], ResConfigs = [], GuardInodes = [],
     GuardInspectors = [], GuardMulticall = [], GuardMulticallNames = [], GuardQuietAllow = [], GuardTrustedFiles = [],
     ExeSuperseded = [], ExeSeq = [], GuardBinOwner = [], GuardBinUpdaters = [], GuardGlobWriters = [], GuardLibdirUsers = [], GuardTrustedDirs = [], GuardBinOrigin = [], GuardVouchedDevs = [], GuardDeadDevs = [],
     e_started = True, e_slots = [(1, 1), (2, 2)], e_prevOwner = [], e_refs = 2,
     e_allows = [(1, [(demo_file, GUARD_ALLOW)]), (2, [(demo_file, GUARD_ALLOW_ROOT)])],
     e_sets = [(demo_key, 7)], e_setRows = [], e_unionRows = [], e_memberRows = [], e_successor = [], e_inspectors = [],
     e_mcNames = [], w_mcReg = demo_reg, w_guards = (\<lambda>r. demo_guard r (if r = 1 then ''/a'' else ''/b'')),
     w_trust = None, t_ownerByPath = [], t_ownerByRes = [], t_retired = [], s_freedAt = [],
     w_sharedHashes = [], w_hasStore = False, w_hashStore = [], w_sweep = [], w_check = False\<rparr>"

lemma demo_engine_ok: "engine_ok demo_world"
proof -
  have "demo_key \<noteq> []" by (simp add: demo_key_def setKeyOf_def)
  then show ?thesis
    by (auto simp: demo_world_def engine_ok_def sets_ok_def recorded_def allows_wf_def set_slots_def set_rows_def free_slot_def
        setAt_def GuardMaxRes_def split: if_splits)
qed

lemma demo_sync:
  "case syncSharedLocked demo_world of (r, w') \<Rightarrow> r = Inr () \<and> map_of (GuardExeUnion w') demo_file = Some 7 \<and>
     row_admits w' 7 demo_file True \<and> \<not> row_admits w' 7 demo_file False"
  by code_simp

lemma demo_sync_run: "syncSharedLocked demo_world = (Inr (), snd (syncSharedLocked demo_world))"
  using demo_sync by (cases "syncSharedLocked demo_world") simp

theorem taint_never_weaker_witness:
  "map_of (GuardExeUnion (snd (syncSharedLocked demo_world))) demo_file = Some 7 \<and>
   row_admits (snd (syncSharedLocked demo_world)) 7 demo_file True \<and> admits (res_allows demo_world 2) demo_file True"
proof -
  have "\<exists>slot. map_of (GuardExeUnion (snd (syncSharedLocked demo_world))) demo_file = Some slot \<and>
     (slot = 2 \<or> (\<forall>p root. row_admits (snd (syncSharedLocked demo_world)) slot p root \<longrightarrow> admits (res_allows demo_world 2) p root))"
    by (rule taint_never_weaker [OF demo_engine_ok _ _ _ demo_sync_run, where g = 2])
      (simp_all add: demo_world_def demo_guard_def allow_actions_def lists_exe_def res_allows_def)
  with demo_sync show ?thesis by (cases "syncSharedLocked demo_world") auto
qed

text \<open>
  C2. A refresh, whether it succeeds or stops at a failed write, leaves the resources alone: their own
  whitelist rows and event masks in the kernel, the inode table, the slots and the whitelists the
  engine works from are the same before and after.
\<close>

theorem refresh_keeps_resources:
  assumes "engine_ok w" and "syncSharedLocked w = (r, w')"
  shows "e_allows w' = e_allows w \<and> e_slots w' = e_slots w \<and> w_guards w' = w_guards w \<and>
     GuardExeEvents w' = GuardExeEvents w \<and> GuardInodes w' = GuardInodes w \<and>
     (map_of (e_slots w) slot \<noteq> None \<longrightarrow> rows w' slot exe = rows w slot exe) \<and> (r = Inr () \<longrightarrow> engine_ok w')"
  using syncShared_outcome(1,3,4) [OF assms] core_sel(1,2,3,5,6) [of w' w] by blast

theorem refresh_keeps_resources_witness:
  "rows (snd (syncSharedLocked demo_world)) 1 demo_file = Some GUARD_ALLOW \<and> engine_ok (snd (syncSharedLocked demo_world))"
  using refresh_keeps_resources [OF demo_engine_ok demo_sync_run, of 1 demo_file]
  by (simp add: demo_world_def)

theorem syncU32Map_exact_witness:
  "map_of (GuardExeUnion (snd (syncU32Map GuardExeUnion_update [] [(demo_file, 2)] demo_world))) demo_file = Some 2"
proof -
  have "syncU32Map GuardExeUnion_update [] [(demo_file, 2)] demo_world =
      (Inr (), snd (syncU32Map GuardExeUnion_update [] [(demo_file, 2)] demo_world))"
    by (simp add: syncU32Map_def and_then_def ret_def map_put_def demo_world_def)
  from syncU32Map_exact [OF _ _ _ this, of demo_file] show ?thesis by (simp add: demo_world_def)
qed

subsection \<open>Rows no record shows\<close>

text \<open>What the engine believes it wrote to the slot of a set.\<close>

definition set_record :: "world \<Rightarrow> nat \<Rightarrow> allow_set" where
  "set_record w slot = (case map_of (e_setRows w) slot of None \<Rightarrow> [] | Some r \<Rightarrow> r)"

lemma set_record_simps: "set_record (step_tick w) slot = set_record w slot" "set_record (GuardExeActions_update f w) slot = set_record w slot"
    "rows (step_tick w) slot k = rows w slot k"
    "set_record (w\<lparr>e_setRows := AList.update slot' want (e_setRows w)\<rparr>) slot = (if slot = slot' then want else set_record w slot)"
    "rows (w\<lparr>e_setRows := R\<rparr>) slot k = rows w slot k"
  by (simp_all add: set_record_def step_tick_def)

text \<open>A row the record does not show and the new rows do not hold is left alone.\<close>

lemma unrecorded_row_stays:
  assumes "slot' = slot \<Longrightarrow> map_of want k = None"
  shows "keeps (\<lambda>w. rows w slot k = v \<and> map_of (set_record w slot) k = None) (syncSetRowsLocked slot' want)"
proof -
  let ?I = "\<lambda>w. rows w slot k = v \<and> map_of (set_record w slot) k = None"
  have del: "keeps ?I (map_del GuardExeActions_update (slot', exe))" if "slot' = slot \<Longrightarrow> exe \<noteq> k" for exe
    by (rule run_map_del) (use that in \<open>auto simp: set_record_simps\<close>)
  have put: "keeps ?I (map_put GuardExeActions_update (slot', exe) a)" if "slot' = slot \<Longrightarrow> exe \<noteq> k" for exe a
    by (rule run_map_put) (use that in \<open>auto simp: set_record_simps\<close>)
  have other: "exe \<noteq> k" if "(exe, a) \<in> set m" "map_of m k = None" for exe a and m :: allow_set
    using that by (force simp: map_of_eq_None_iff)
  show ?thesis
    unfolding syncSetRowsLocked_def set_record_def [symmetric]
  proof (rule run_and_then [where R = "\<lambda>have w. ?I w \<and> (slot' = slot \<longrightarrow> map_of have k = None)"])
    show "run ?I (get (\<lambda>w. set_record w slot')) (\<lambda>have w. ?I w \<and> (slot' = slot \<longrightarrow> map_of have k = None)) ?I"
      by (rule run_get) simp
    show "run (\<lambda>w. ?I w \<and> (slot' = slot \<longrightarrow> map_of have k = None))
      (and_then (for_each have (\<lambda>(exe, _). if map_of want exe \<noteq> None then ret () else map_del GuardExeActions_update (slot', exe))) (\<lambda>_.
       and_then (for_each want (\<lambda>(exe, a). if map_of have exe = Some a then ret () else map_put GuardExeActions_update (slot', exe) a)) (\<lambda>_.
       modify (\<lambda>w. w\<lparr>e_setRows := AList.update slot' want (e_setRows w)\<rparr>)))) (\<lambda>_. ?I) ?I" for "have"
    proof (rule run_pure)
      assume h: "slot' = slot \<longrightarrow> map_of have k = None"
      have 1: "keeps ?I (for_each have (\<lambda>(exe, _). if map_of want exe \<noteq> None then ret () else map_del GuardExeActions_update (slot', exe)))"
        using h other by (intro keep_rules) (auto intro: keep_rules del)
      have 2: "keeps ?I (for_each want (\<lambda>(exe, a). if map_of have exe = Some a then ret () else map_put GuardExeActions_update (slot', exe) a))"
        using assms other by (intro keep_rules) (auto intro: keep_rules put)
      have 3: "keeps ?I (modify (\<lambda>w. w\<lparr>e_setRows := AList.update slot' want (e_setRows w)\<rparr>))"
        by (rule run_modify) (use assms in \<open>auto simp: set_record_simps\<close>)
      show "keeps ?I (and_then (for_each have (\<lambda>(exe, _). if map_of want exe \<noteq> None then ret () else map_del GuardExeActions_update (slot', exe))) (\<lambda>_.
         and_then (for_each want (\<lambda>(exe, a). if map_of have exe = Some a then ret () else map_put GuardExeActions_update (slot', exe) a)) (\<lambda>_.
         modify (\<lambda>w. w\<lparr>e_setRows := AList.update slot' want (e_setRows w)\<rparr>))))"
        by (intro keep_rules 1 2 3)
    qed
  qed
qed

lemma failed_sync_record:
  assumes "syncSetRowsLocked slot' want w = (Inl e, w')"
  shows "set_record w' slot = set_record w slot"
proof -
  have k: "keeps (\<lambda>v. set_record v slot = R) (map_del GuardExeActions_update x)" "keeps (\<lambda>v. set_record v slot = R) (map_put GuardExeActions_update x a)"
    for R x a by (simp_all add: run_map_del run_map_put set_record_simps)
  have "run (\<lambda>v. set_record v slot = set_record w slot) (syncSetRowsLocked slot' want) (\<lambda>_ _. True) (\<lambda>v. set_record v slot = set_record w slot)"
    unfolding syncSetRowsLocked_def
    by (rule run_and_then [OF run_get], assumption, rule run_and_then [where R = "\<lambda>_ v. set_record v slot = set_record w slot"],
        intro keep_rules, auto intro!: keep_rules k, rule run_and_then [where R = "\<lambda>_ v. set_record v slot = set_record w slot"],
        intro keep_rules, auto intro!: keep_rules k run_modify)
  from run_Inl [OF this refl assms] show ?thesis .
qed

text \<open>
  C36. A set whitelist that stops at a failed write leaves rows nothing removes any more: the rows it has written are not in
  the record, so a row that was new with it stays through every later refresh of the sets that does not list the binary,
  whether those refreshes fail or succeed.
\<close>

theorem stale_set_row:
  assumes run: "syncSetRowsLocked slot want w = (Inl e, w1)" and k: "rows w slot k = None" "rows w1 slot k = Some a" "map_of (set_record w slot) k = None"
    and later: "for_each syncs (\<lambda>(s, rs). logged (syncSetRowsLocked s rs)) w1 = (x, w2)" and out: "list_all (\<lambda>(s, rs). s = slot \<longrightarrow> map_of rs k = None) syncs"
  shows "rows w2 slot k = Some a"
proof -
  let ?I = "\<lambda>v. rows v slot k = Some a \<and> map_of (set_record v slot) k = None"
  have start: "?I w1" using k failed_sync_record [OF run, of slot] by simp
  have "keeps ?I (for_each syncs (\<lambda>(s, rs). logged (syncSetRowsLocked s rs)))"
    by (intro keep_rules) (use out in \<open>auto simp: list_all_iff intro!: keep_rules unrecorded_row_stays\<close>)
  from keeps_Inr [OF this start later] show ?thesis ..
qed

theorem stale_set_row_witness:
  "row_admits (snd (for_each [(7, [])] (\<lambda>(s, rs). logged (syncSetRowsLocked s rs))
     (snd (syncSetRowsLocked 7 [(demo_file, GUARD_ALLOW), (\<lparr>Dev = 8, Ino = 9\<rparr>, GUARD_ALLOW)] (demo_world\<lparr>faults := (\<lambda>n. n = 1)\<rparr>))))) 7 demo_file False"
proof -
  let ?w = "demo_world\<lparr>faults := (\<lambda>n. n = 1)\<rparr>" and ?want = "[(demo_file, GUARD_ALLOW), (\<lparr>Dev = 8, Ino = 9\<rparr>, GUARD_ALLOW)]"
  let ?w1 = "snd (syncSetRowsLocked 7 ?want ?w)"
  have 1: "syncSetRowsLocked 7 ?want ?w = (Inl MapFault, ?w1)" and 2: "rows ?w 7 demo_file = None" "rows ?w1 7 demo_file = Some GUARD_ALLOW"
      "map_of (set_record ?w 7) demo_file = None"
    by (simp_all add: demo_world_def demo_file_def syncSetRowsLocked_def and_then_def get_def ret_def map_put_def step_tick_def modify_def set_record_def)
  from stale_set_row [OF 1 2 prod.collapse [symmetric], of "[(7, [])]"] show ?thesis by (simp add: row_admits_def grants_def)
qed

end
