(* ===== verification/Row_Invariants.thy ===== *)
theory Row_Invariants
  imports Guard_Policy Engine_Facts
begin

text \<open>
  Invariants of the whitelist rows of live resources under every operation of a guard, errors
  included. The refreshes of the shared views never touch such a row, so an invariant is carried by
  looking at the row writes and deletions an operation makes itself.
\<close>

subsection \<open>The invariant\<close>

text \<open>\<open>A slot exe v\<close>: the row of \<open>exe\<close> at a live \<open>slot\<close> may be \<open>v\<close>.\<close>

type_synonym row_pred = "nat \<Rightarrow> GuardInodeKey \<Rightarrow> u8 option \<Rightarrow> bool"

definition guard_inv :: "nat \<Rightarrow> nat \<Rightarrow> Mode \<Rightarrow> (nat, nat) gomap \<Rightarrow> row_pred \<Rightarrow> world \<Rightarrow> bool" where
  "guard_inv r res M S A w \<longleftrightarrow> sets_ok w \<and> e_slots w = S \<and> map_of S resGlobal = None \<and>
     (\<forall>slot exe. map_of S slot \<noteq> None \<longrightarrow> A slot exe (rows w slot exe)) \<and>
     g_resID (w_guards w r) = res \<and> g_mode (w_guards w r) = M"

definition deletable :: "row_pred \<Rightarrow> bool" where
  "deletable A \<longleftrightarrow> (\<forall>slot exe. A slot exe None)"

lemma guard_inv_simps [simp]:
  "guard_inv r res M S A (step_tick w) = guard_inv r res M S A w"
  "guard_inv r res M S A (GuardExeEvents_update f1 w) = guard_inv r res M S A w"
  "guard_inv r res M S A (GuardExeUnion_update f2 w) = guard_inv r res M S A w"
  "guard_inv r res M S A (GuardTaintMembers_update f3 w) = guard_inv r res M S A w"
  "guard_inv r res M S A (ResConfigs_update f4 w) = guard_inv r res M S A w"
  "guard_inv r res M S A (GuardInspectors_update f5 w) = guard_inv r res M S A w"
  "guard_inv r res M S A (GuardMulticall_update f6 w) = guard_inv r res M S A w"
  "guard_inv r res M S A (GuardMulticallNames_update f7 w) = guard_inv r res M S A w"
  "guard_inv r res M S A (GuardTrustedFiles_update f8 w) = guard_inv r res M S A w"
  "guard_inv r res M S A (ExeSuperseded_update f9 w) = guard_inv r res M S A w"
  "guard_inv r res M S A (GuardBinOwner_update g1 w) = guard_inv r res M S A w"
  "guard_inv r res M S A (GuardBinUpdaters_update g2 w) = guard_inv r res M S A w"
  "guard_inv r res M S A (GuardGlobWriters_update g3 w) = guard_inv r res M S A w"
  "guard_inv r res M S A (GuardLibdirUsers_update g4 w) = guard_inv r res M S A w"
  "guard_inv r res M S A (e_allows_update g5 w) = guard_inv r res M S A w"
  "guard_inv r res M S A (e_setRows_update g6 w) = guard_inv r res M S A w"
  "guard_inv r res M S A (e_unionRows_update g7 w) = guard_inv r res M S A w"
  "guard_inv r res M S A (e_memberRows_update g8 w) = guard_inv r res M S A w"
  "guard_inv r res M S A (e_inspectors_update g9 w) = guard_inv r res M S A w"
  "guard_inv r res M S A (e_mcNames_update h1 w) = guard_inv r res M S A w"
  "guard_inv r res M S A (w_mcReg_update h2 w) = guard_inv r res M S A w"
  "guard_inv r res M S A (t_retired_update h3 w) = guard_inv r res M S A w"
  "guard_inv r res M S A (w_sharedHashes_update h4 w) = guard_inv r res M S A w"
  "guard_inv r res M S A (ExeSeq_update h5 w) = guard_inv r res M S A w"
  "guard_inv r res M S A (w_hashStore_update h6 w) = guard_inv r res M S A w"
  "guard_inv r res M S A (w_sweep_update h7 w) = guard_inv r res M S A w"
  "guard_inv r res M S A (s_freedAt_update h8 w) = guard_inv r res M S A w"
  by (simp_all add: guard_inv_def sets_ok_def)

lemma guard_inv_upd_guard:
  "g_resID (f (w_guards w q)) = g_resID (w_guards w q) \<Longrightarrow> g_mode (f (w_guards w q)) = g_mode (w_guards w q) \<Longrightarrow>
     guard_inv r res M S A (upd_guard q f w) = guard_inv r res M S A w"
  by (simp add: guard_inv_def sets_ok_def upd_guard_def)

lemma guard_inv_put:
  "guard_inv r res M S A w \<Longrightarrow> map_of S slot = None \<or> A slot exe (Some a) \<Longrightarrow>
     guard_inv r res M S A (GuardExeActions_update (AList.update (slot, exe) a) w)"
  by (auto simp: guard_inv_def sets_ok_def)

lemma guard_inv_del:
  "guard_inv r res M S A w \<Longrightarrow> map_of S (fst k) = None \<or> deletable A \<Longrightarrow>
     guard_inv r res M S A (GuardExeActions_update (AList.delete k) w)"
  by (cases k) (auto simp: guard_inv_def sets_ok_def deletable_def)

lemma keeps_put:
  "map_of S slot = None \<or> A slot exe (Some a) \<Longrightarrow> keeps (guard_inv r res M S A) (map_put GuardExeActions_update (slot, exe) a)"
  by (rule run_map_put) (simp_all add: guard_inv_put)

lemma keeps_del:
  "map_of S (fst k) = None \<or> deletable A \<Longrightarrow> keeps (guard_inv r res M S A) (map_del GuardExeActions_update k)"
  by (rule run_map_del) (simp_all add: guard_inv_del)

lemmas keeps_others = run_map_put [where Q = "\<lambda>_. guard_inv r res M S A" and E = "guard_inv r res M S A" and P = "guard_inv r res M S A"]
  run_map_del [where Q = "\<lambda>_. guard_inv r res M S A" and E = "guard_inv r res M S A" and P = "guard_inv r res M S A"]
  for r res M S A

lemma keeps_modify [keep_rules]: "(\<And>w. I w \<Longrightarrow> I (f w)) \<Longrightarrow> keeps I (modify f)"
  by (simp add: run_def modify_def)

subsection \<open>Refreshes\<close>

lemma set_slot_keeps:
  assumes "key \<noteq> []"
  shows "keeps (guard_inv r res M S A) (set_slot key)"
proof -
  have alloc: "guard_inv r res M S A (with_set key slot row w)"
    if w: "guard_inv r res M S A w" and "map_of (e_sets w) key = None" and f: "find (free_slot w) (rev [1..<GuardMaxRes]) = Some slot"
    for w slot row
    using with_set_ok(1) [OF _ that(2) assms find_free_slot [OF f], of row] w
    by (simp add: guard_inv_def with_set_def)
  have "case set_slot key w of (Inl e, w') \<Rightarrow> guard_inv r res M S A w' | (Inr s, w') \<Rightarrow> guard_inv r res M S A w'"
    if w: "guard_inv r res M S A w" for w
  proof (cases "map_of (e_sets w) key")
    case None
    show ?thesis
    proof (cases "find (free_slot w) (rev [1..<GuardMaxRes])")
      case (Some slot)
      then show ?thesis using w None find_free_slot(2) [OF Some] alloc [OF w None Some]
        by (simp add: set_slot_def allocSetSlotLocked_def and_then_def get_def ret_def modify_def map_put_def with_set_def
            del: upt_conv_Cons)
    qed (use w None in \<open>simp add: set_slot_def allocSetSlotLocked_def and_then_def get_def ret_def del: upt_conv_Cons\<close>)
  qed (use w in \<open>simp add: set_slot_def and_then_def get_def ret_def\<close>)
  then show ?thesis by (auto simp: run_def)
qed

lemma build_union_keeps: "keeps (guard_inv r res M S A) (build_union os)"
proof (induction os)
  case (Cons p os)
  obtain exe o' where p: "p = (exe, o')" by (cases p)
  show ?case unfolding p build_union.simps
    by (intro keep_rules set_slot_keeps Cons.IH)
qed (simp add: keep_rules)

lemma syncSetRows_keeps: "map_of S slot = None \<Longrightarrow> keeps (guard_inv r res M S A) (syncSetRowsLocked slot want)"
  unfolding syncSetRowsLocked_def by (intro keep_rules keeps_put keeps_del) simp_all

lemma syncSets_keeps: "keeps (guard_inv r res M S A) (syncSetsLocked info uni)"
proof -
  let ?I = "guard_inv r res M S A"
  have dead: "run ?I (get e_sets) (\<lambda>sets w. ?I w \<and> (\<forall>(k, s) \<in> set sets. map_of S s = None)) ?I"
    by (rule run_get) (auto simp: guard_inv_def sets_ok_def)
  show ?thesis unfolding syncSetsLocked_def
  proof (rule run_and_then [OF dead], rule run_pure)
    fix sets :: "(string, nat) gomap" assume d: "\<forall>(k, s) \<in> set sets. map_of S s = None"
    show "keeps ?I (and_then (for_each sets (\<lambda>(key, slot). and_then (get (\<lambda>w. intersectAllows (set_allows w info key))) (syncSetRowsLocked slot)))
        (\<lambda>_. let used = filter (\<lambda>s. s \<in> snd ` set sets) (map snd uni); members = planMemberRows sets info used in
          and_then (get e_memberRows) (\<lambda>have. and_then (syncSetMap have members) (\<lambda>_. modify (\<lambda>w. w\<lparr>e_memberRows := members\<rparr>)))))"
      unfolding Let_def syncSetMap_def
      by (intro keep_rules syncSetRows_keeps keeps_others) (use d in \<open>auto split: prod.splits\<close>)
  qed
qed

lemma syncTaint_keeps: "keeps (guard_inv r res M S A) syncTaintLocked"
  unfolding syncTaintLocked_def syncU32Map_def
  by (intro keep_rules build_union_keeps syncSets_keeps keeps_others) simp_all

lemma refreshGlobal_keeps: "keeps (guard_inv r res M S A) refreshGlobalLocked"
proof (cases "map_of S resGlobal = None")
  case True
  then show ?thesis unfolding refreshGlobalLocked_def clearGlobalAllowsLocked_def
    by (intro keep_rules keeps_put keeps_del) auto
next
  case False
  then have "guard_inv r res M S A w = False" for w by (auto simp: guard_inv_def)
  then show ?thesis by (simp add: run_def)
qed

lemma syncShared_keeps: "keeps (guard_inv r res M S A) syncSharedLocked"
  unfolding syncSharedLocked_def by (intro keep_rules syncTaint_keeps refreshGlobal_keeps)

subsection \<open>Operations of the engine\<close>

lemma noteAllow_keeps: "keeps (guard_inv r res M S A) (noteAllow q exe a)"
  unfolding noteAllow_def by (intro keep_rules syncShared_keeps) simp

lemma noteDeny_keeps: "keeps (guard_inv r res M S A) (noteDeny q exe)"
  unfolding noteDeny_def by (intro keep_rules syncShared_keeps) simp

lemma put_names_keeps: "keeps (guard_inv r res M S A) (put_names file as)"
proof (induction as)
  case (Cons a as)
  have "keeps (guard_inv r res M S A) (\<lambda>w. case appletTag (w_mcReg w) a of
         (None, R) \<Rightarrow> (Inl TooManyNames, w\<lparr>w_mcReg := R\<rparr>) | (Some t, R) \<Rightarrow> (Inr t, w\<lparr>w_mcReg := R\<rparr>))"
    by (simp add: run_def split: prod.splits option.splits)
  then show ?case unfolding put_names.simps by (intro keep_rules keeps_others Cons.IH) simp_all
qed (simp add: keep_rules)

lemma ensureMulticall_keeps: "keeps (guard_inv r res M S A) (ensureMulticall file)"
  unfolding ensureMulticall_def syncMulticallNamesLocked_def
  by (intro keep_rules put_names_keeps keeps_others) simp_all

text \<open>The rows \<open>putExeAction\<close> writes.\<close>

lemma putExeAction_keeps:
  assumes "A res ik (Some a)" and "tagged ik \<Longrightarrow> a = GUARD_BLOCK \<Longrightarrow> M = ModeBlacklist \<Longrightarrow> A res (withTag ik mcTagNone) (Some a)"
  shows "keeps (guard_inv r res M S A) (putExeAction r ik a)"
proof -
  let ?I = "guard_inv r res M S A"
  have g: "run ?I (get (\<lambda>w. w_guards w r)) (\<lambda>g w. ?I w \<and> g_resID g = res \<and> g_mode g = M) ?I"
    by (rule run_get) (simp add: guard_inv_def)
  show ?thesis unfolding putExeAction_def
    by (rule run_and_then [OF g], rule run_pure)
      (intro keep_rules ensureMulticall_keeps noteAllow_keeps noteDeny_keeps keeps_put, use assms in auto)
qed

lemma deleteExeRows_keeps: "deletable A \<Longrightarrow> keeps (guard_inv r res M S A) (deleteExeRows q k)"
  unfolding deleteExeRows_def by (intro keep_rules noteDeny_keeps keeps_del keeps_others) simp_all

lemma deleteInoKeys_keeps: "deletable A \<Longrightarrow> keeps (guard_inv r res M S A) (deleteInoKeys GuardExeActions_update GuardExeActions exe)"
  unfolding deleteInoKeys_def delete_rows_def by (intro keep_rules keeps_del) simp_all

lemma forget_guards_inv: "guard_inv r res M S A (forget_guards exe w) = guard_inv r res M S A w"
proof -
  have one: "guard_inv r res M S A (upd_guard q (guard_forgetExe exe) w) = guard_inv r res M S A w" for q w
    by (rule guard_inv_upd_guard) (simp_all add: guard_forgetExe_def)
  have "guard_inv r res M S A (foldl (\<lambda>w (_, q). upd_guard q (guard_forgetExe exe) w) w qs) = guard_inv r res M S A w" for qs :: "(nat \<times> nat) list" and w
  proof (induction qs arbitrary: w)
    case (Cons p qs)
    then show ?case by (cases p) (simp only: foldl_Cons prod.case one)
  qed simp
  then show ?thesis by (simp add: forget_guards_def)
qed

lemma forgetExe_keeps:
  assumes "deletable A"
  shows "keeps (guard_inv r res M S A) (forgetExe exe)"
proof -
  let ?I = "guard_inv r res M S A"
  have rows: "keeps ?I (forget_rows exe)"
    unfolding forget_rows_def deleteInoKeys_def delete_rows_def
    by (intro keep_rules syncShared_keeps keeps_del keeps_others) (use assms in simp_all)
  have "keeps ?I (\<lambda>w. case forget_rows exe w of (x, w') \<Rightarrow> (x, forget_guards exe w'))"
    by (rule runI) (auto simp: forget_guards_inv dest: run_Inr [OF rows] run_Inl [OF rows] split: prod.splits)
  then show ?thesis unfolding forgetExe_def
    by (intro keep_rules keeps_others) simp_all
qed

lemma read_bits_keeps: "keeps (guard_inv r res M S A) (read_bits ms k)"
  by (induction ms) (simp_all add: keep_rules)

lemma trust_forgetExe_keeps: "keeps (guard_inv r res M S A) (trust_forgetExe k)"
  unfolding trust_forgetExe_def retire_def trustBitMaps_def
  by (intro keep_rules read_bits_keeps keeps_others) auto

lemma liftSuperseded_keeps:
  assumes "deletable A"
  shows "keeps (guard_inv r res M S A) (liftSuperseded k)"
  unfolding liftSuperseded_def dropSupersededLocked_def exeGone_def
  by (intro keep_rules forgetExe_keeps [OF assms] trust_forgetExe_keeps keeps_others) simp_all

lemma exe_key_keeps: "keeps (guard_inv r res M S A) (exe_key X path f file)"
  by (simp add: run_def exe_key_def split: prod.splits sum.splits)

end
