(* ===== verification/Policy_Facts.thy ===== *)
theory Policy_Facts
  imports Row_Invariants
begin

text \<open>
  Replacing a whitelist in place: whatever fails and however the file system changes meanwhile, no
  binary outside the old and the new list is admitted, and a successful replacement leaves no row of
  a dropped entry.
\<close>

subsection \<open>Adding binaries\<close>

text \<open>The key some resolution of the path gives.\<close>

definition resolves :: "system \<Rightarrow> string \<Rightarrow> GuardInodeKey \<Rightarrow> bool" where
  "resolves X path key \<longleftrightarrow> (\<exists>t R file R'. ExeKey (exe_env.truncate (X t)) R path None file = (Inr key, R'))"

lemma exe_key_resolves:
  "run (guard_inv r res M S A) (exe_key X path None file) (\<lambda>k w. guard_inv r res M S A w \<and> resolves X path k) (guard_inv r res M S A)"
  by (auto simp: run_def exe_key_def resolves_def split: prod.splits sum.splits)

lemma keeps_case_sum [keep_rules]:
  "(\<And>e. keeps I (f e)) \<Longrightarrow> (\<And>x. keeps I (g x)) \<Longrightarrow> keeps I (case s of Inl e \<Rightarrow> f e | Inr x \<Rightarrow> g x)"
  by (simp split: sum.split)

lemma binaryKey_keeps: "keeps (guard_inv r res M S A) (binaryKey X q path)"
  unfolding binaryKey_def stat_confined_def by (intro keep_rules) simp_all

definition mode_action :: "Mode \<Rightarrow> u8" where
  "mode_action M = (if M = ModeWhitelist \<or> M = ModeReadOnly then GUARD_ALLOW else GUARD_BLOCK)"

text \<open>\<open>A\<close> lets the guard write the rows of \<open>key\<close>.\<close>

definition writable :: "row_pred \<Rightarrow> nat \<Rightarrow> Mode \<Rightarrow> GuardInodeKey \<Rightarrow> bool" where
  "writable A res M key \<longleftrightarrow> A res key (Some (mode_action M)) \<and>
     (tagged key \<and> M = ModeBlacklist \<longrightarrow> A res (withTag key mcTagNone) (Some (mode_action M)))"

lemma putBinaryKey_keeps:
  assumes "writable A res M key"
  shows "keeps (guard_inv r res M S A) (putBinaryKey r key path events)"
proof -
  let ?I = "guard_inv r res M S A"
  have g: "run ?I (get (\<lambda>w. w_guards w r)) (\<lambda>g w. ?I w \<and> g_mode g = M) ?I"
    by (rule run_get) (simp add: guard_inv_def)
  have "keeps ?I (putExeAction r key (if M = ModeWhitelist \<or> M = ModeReadOnly then GUARD_ALLOW else GUARD_BLOCK))"
    using assms by (intro putExeAction_keeps) (auto simp: writable_def mode_action_def)
  then show ?thesis unfolding putBinaryKey_def
    by (intro run_and_then [OF g] run_pure) (simp, intro conjI impI keep_rules keeps_others; simp)
qed

lemma note_deployed_inv: "guard_inv r res M S A (note_deployed q c k p w) = guard_inv r res M S A w"
  unfolding note_deployed_def by (rule guard_inv_upd_guard) simp_all

lemma addBinaryAction_keeps:
  assumes "deletable A" and "\<And>k. resolves X (be_Path b) k \<Longrightarrow> writable A res M k"
  shows "keeps (guard_inv r res M S A) (addBinaryAction X r events b)"
proof -
  have "run (\<lambda>w. guard_inv r res M S A w \<and> resolves X (be_Path b) k)
      (and_then (liftSuperseded k) (\<lambda>_. and_then (putBinaryKey r k (be_Path b) events) (\<lambda>_.
       and_then (look X (\<lambda>s. canonicalBinaryPath s (be_Path b))) (\<lambda>c. modify (note_deployed r c k (be_Path b))))))
      (\<lambda>_. guard_inv r res M S A) (guard_inv r res M S A)" for k
    by (rule run_pure, intro keep_rules liftSuperseded_keeps putBinaryKey_keeps)
      (simp_all add: assms note_deployed_inv)
  then show ?thesis unfolding addBinaryAction_def
    by (intro run_and_then [OF binaryKey_keeps] run_and_then [OF exe_key_resolves])
qed

lemma addBinaryActions_keeps:
  assumes "deletable A" and "\<And>b k. b \<in> set bs \<Longrightarrow> resolves X (be_Path b) k \<Longrightarrow> writable A res M k"
  shows "keeps (guard_inv r res M S A) (addBinaryActions X r bs events)"
  unfolding addBinaryActions_def by (intro keep_rules addBinaryAction_keeps assms)

lemma pin_state_inv: "guard_inv r res M S A (pin_state q c h w) = guard_inv r res M S A w"
  unfolding pin_state_def by (auto split: option.splits intro!: guard_inv_upd_guard)

lemma note_added_inv: "guard_inv r res M S A (note_added q b c w) = guard_inv r res M S A w"
  by (simp add: note_added_def Let_def pin_state_inv guard_inv_upd_guard)

lemma startBinaryHashVerifier_keeps: "keeps (guard_inv r res M S A) (startBinaryHashVerifier X q)"
  unfolding startBinaryHashVerifier_def
  by (intro keep_rules) (simp_all add: pin_state_inv guard_inv_upd_guard)

lemma addBinaries_keeps:
  assumes "deletable A" and "\<And>b k. b \<in> set bs \<Longrightarrow> resolves X (be_Path b) k \<Longrightarrow> writable A res M k"
  shows "keeps (guard_inv r res M S A) (addBinaries X r bs)"
  unfolding addBinaries_def checkBtrfsKeys_def
  by (intro keep_rules addBinaryActions_keeps assms startBinaryHashVerifier_keeps) (simp_all add: note_added_inv)

subsection \<open>Removing binaries\<close>

lemma kept_entries_keeps: "keeps (guard_inv r res M S A) (kept_entries X q K es)"
  by (induction es arbitrary: K) (simp_all add: entryKeysLocked_def keep_rules)

lemma removed_keys_keeps: "keeps (guard_inv r res M S A) (removed_keys X q K acc bs)"
  by (induction bs arbitrary: acc) (simp_all add: entryKeysLocked_def keep_rules)

lemma forgetLocked_keeps: "keeps (guard_inv r res M S A) (forgetLocked X q removed keys K)"
  unfolding forgetLocked_def forget_entry_def
  by (intro keep_rules) (simp_all add: guard_inv_upd_guard)

lemma removeBinaries_keeps:
  "deletable A \<Longrightarrow> keeps (guard_inv r res M S A) (removeBinaries X q removed keep)"
  unfolding removeBinaries_def keptLocked_def
  by (intro keep_rules kept_entries_keeps removed_keys_keeps forgetLocked_keeps deleteExeRows_keeps)

lemma SetBinaries_keeps:
  assumes "deletable A" and "\<And>b k. b \<in> set entries \<Longrightarrow> resolves X (be_Path b) k \<Longrightarrow> writable A res M k"
  shows "keeps (guard_inv r res M S A) (SetBinaries X r entries)"
  unfolding SetBinaries_def diffBinaries_def Let_def prod.case
  by (intro keep_rules removeBinaries_keeps addBinaries_keeps) (use assms in auto)

lemma guard_inv_mono:
  "guard_inv r res M S A w \<Longrightarrow> (\<And>slot exe v. A slot exe v \<Longrightarrow> B slot exe v) \<Longrightarrow> guard_inv r res M S B w"
  by (auto simp: guard_inv_def)

text \<open>A deletion also leaves the rows deleted.\<close>

definition without :: "row_pred \<Rightarrow> nat \<Rightarrow> GuardInodeKey set \<Rightarrow> row_pred" where
  "without A res K slot exe v \<longleftrightarrow> A slot exe v \<and> (slot = res \<longrightarrow> exe \<in> K \<longrightarrow> v = None)"

lemma deletable_without: "deletable A \<Longrightarrow> deletable (without A res K)"
  by (simp add: deletable_def without_def)

lemma deleteExeRows_run:
  assumes "deletable A"
  shows "run (guard_inv r res M S (without A res K)) (deleteExeRows r k)
     (\<lambda>_. guard_inv r res M S (without A res (insert k K))) (guard_inv r res M S A)"
proof -
  let ?A = "guard_inv r res M S (without A res K)" and ?B = "guard_inv r res M S (without A res (insert k K))" and ?E = "guard_inv r res M S A"
  have B: "deletable (without A res (insert k K))" by (rule deletable_without [OF assms])
  have g: "run ?A (get (\<lambda>w. w_guards w r)) (\<lambda>g w. ?A w \<and> g_resID g = res) ?E"
    by (rule run_get) (simp add: guard_inv_def)
  have weak: "run ?B m (\<lambda>_. ?B) ?E" if "keeps ?B m" for m :: "unit act"
    by (rule run_post [OF that]) (auto elim: guard_inv_mono simp: without_def)
  have first: "run ?A (map_del GuardExeActions_update (res, k)) (\<lambda>_. ?B) ?E"
  proof (rule run_map_del)
    fix w assume w: "?A w"
    show "?E (step_tick w)" using w by (auto elim: guard_inv_mono simp: without_def)
    show "?B (GuardExeActions_update (AList.delete (res, k)) (step_tick w))"
      using w assms by (auto simp: guard_inv_def sets_ok_def without_def deletable_def)
  qed
  have rest: "run ?B (and_then (for_each rs (\<lambda>row. map_del GuardExeActions_update (res, row))) (\<lambda>_.
      and_then (map_del GuardExeEvents_update (res, k)) (\<lambda>_. noteDeny res k))) (\<lambda>_. ?B) ?E" for rs
    by (rule weak, intro keep_rules noteDeny_keeps keeps_del keeps_others) (simp_all add: B)
  have "run ?A (and_then (for_each (k # rs) (\<lambda>row. map_del GuardExeActions_update (res, row))) (\<lambda>_.
      and_then (map_del GuardExeEvents_update (res, k)) (\<lambda>_. noteDeny res k))) (\<lambda>_. ?B) ?E" for rs
    unfolding for_each.simps and_then_assoc by (rule run_and_then [OF first]) (rule rest)
  then show ?thesis unfolding deleteExeRows_def
    by (intro run_and_then [OF g] run_pure) simp
qed

lemma delete_loop_run:
  assumes "deletable A"
  shows "run (guard_inv r res M S A) (for_each keys (deleteExeRows r))
     (\<lambda>_. guard_inv r res M S (without A res (set keys))) (guard_inv r res M S A)"
proof -
  have "run (guard_inv r res M S (without A res (set []))) (for_each keys (deleteExeRows r))
      (\<lambda>_. guard_inv r res M S (without A res (set keys))) (guard_inv r res M S A)"
    by (rule run_for_each_done [where I = "\<lambda>ys. guard_inv r res M S (without A res (set ys))"])
      (use deleteExeRows_run [OF assms] in simp)
  moreover have "without A res (set []) = A" by (simp add: without_def fun_eq_iff)
  ultimately show ?thesis by simp
qed

subsection \<open>Which keys are removed\<close>

text \<open>Some resolution of a listed path owns the key.\<close>

definition owned :: "system \<Rightarrow> Guard \<Rightarrow> BinaryEntry list \<Rightarrow> GuardInodeKey \<Rightarrow> bool" where
  "owned X g es k \<longleftrightarrow> (\<exists>e \<in> set es. \<exists>t. k \<in> set (entry_keys g (canonicalBinaryPath (X t) (be_Path e)) (be_Path e)))"

lemma entryKeys_run:
  assumes "\<forall>w. P w \<longrightarrow> P (step_tick w) \<and> w_guards w r = g"
  shows "run P (entryKeysLocked X r path) (\<lambda>ks w. P w \<and> (\<exists>t. ks = entry_keys g (canonicalBinaryPath (X t) path) path)) P"
proof (rule runI)
  fix w ks w' assume "P w" and "entryKeysLocked X r path w = (Inr ks, w')"
  then show "P w' \<and> (\<exists>t. ks = entry_keys g (canonicalBinaryPath (X t) path) path)"
    using assms by (auto simp: entryKeysLocked_def and_then_def look_def get_def)
next
  fix w e w' assume "P w" and "entryKeysLocked X r path w = (Inl e, w')"
  then show "P w'" by (simp add: entryKeysLocked_def and_then_def look_def get_def)
qed

lemma map_of_own: "map_of (foldl (\<lambda>m k. AList.update k p m) m ks) k \<noteq> None \<longleftrightarrow> k \<in> set ks \<or> map_of m k \<noteq> None"
  by (induction ks arbitrary: m) auto

lemma kept_entries_run:
  assumes "\<forall>w. P w \<longrightarrow> P (step_tick w) \<and> w_guards w r = g"
  shows "run P (kept_entries X r K es)
     (\<lambda>K' w. P w \<and> (\<forall>k. map_of (ke_owners K') k \<noteq> None \<longrightarrow> map_of (ke_owners K) k \<noteq> None \<or> owned X g es k)) P"
proof (induction es arbitrary: K)
  case (Cons e es)
  let ?Q = "\<lambda>K' w. P w \<and> (\<forall>k. map_of (ke_owners K') k \<noteq> None \<longrightarrow> map_of (ke_owners K) k \<noteq> None \<or> owned X g (e # es) k)"
  have look: "run P (look X f) (\<lambda>_. P) P" for f :: "guard_env \<Rightarrow> string"
    using assms by (simp add: run_def look_def)
  have "run (\<lambda>w. P w \<and> (\<exists>t. ks = entry_keys g (canonicalBinaryPath (X t) (be_Path e)) (be_Path e)))
     (and_then (look X (\<lambda>s. canonicalBinaryPath s (be_Path e))) (\<lambda>c. kept_entries X r (K\<lparr>ke_owners :=
       foldl (\<lambda>m k. AList.update k (be_Path e) m) (ke_owners K) ks, ke_canonical := c # ke_canonical K,
       ke_paths := be_Path e # ke_paths K\<rparr>) es)) ?Q P" for ks
  proof (rule run_pure, rule run_and_then [OF look], rule run_post [OF Cons.IH])
    fix c K' w
    assume t: "\<exists>t. ks = entry_keys g (canonicalBinaryPath (X t) (be_Path e)) (be_Path e)"
      and K': "P w \<and> (\<forall>k. map_of (ke_owners K') k \<noteq> None \<longrightarrow> map_of (ke_owners (K\<lparr>ke_owners :=
       foldl (\<lambda>m k. AList.update k (be_Path e) m) (ke_owners K) ks, ke_canonical := c # ke_canonical K,
       ke_paths := be_Path e # ke_paths K\<rparr>)) k \<noteq> None \<or> owned X g es k)"
    have "k \<in> set ks \<Longrightarrow> owned X g (e # es) k" "owned X g es k \<Longrightarrow> owned X g (e # es) k" for k
      using t by (auto simp: owned_def)
    with K' show "?Q K' w" by (auto simp: map_of_own simp del: not_None_eq)
  qed
  then show ?case unfolding kept_entries.simps by (rule run_and_then [OF entryKeys_run [OF assms]])
qed (simp add: run_def ret_def)

lemma collect_keys:
  "set (foldl (\<lambda>acc k. if map_of ow k \<noteq> None \<or> k \<in> set acc then acc else acc @ [k]) acc ks) =
     set acc \<union> {k \<in> set ks. map_of ow k = None}"
  by (induction ks arbitrary: acc) auto

lemma removed_keys_run:
  assumes "\<forall>w. P w \<longrightarrow> P (step_tick w) \<and> w_guards w r = g"
  shows "run P (removed_keys X r K acc bs)
     (\<lambda>ks w. P w \<and> set acc \<subseteq> set ks \<and> (\<forall>b \<in> set bs. \<forall>k. (k, be_Path b) \<in> set (g_keyPaths g) \<longrightarrow> k \<in> set ks \<or> map_of (ke_owners K) k \<noteq> None)) P"
proof (induction bs arbitrary: acc)
  case (Cons b bs)
  let ?acc = "\<lambda>ks. foldl (\<lambda>acc k. if map_of (ke_owners K) k \<noteq> None \<or> k \<in> set acc then acc else acc @ [k]) acc ks"
  let ?Q = "\<lambda>ks w. P w \<and> set acc \<subseteq> set ks \<and> (\<forall>b \<in> set (b # bs). \<forall>k. (k, be_Path b) \<in> set (g_keyPaths g) \<longrightarrow> k \<in> set ks \<or> map_of (ke_owners K) k \<noteq> None)"
  have "run (\<lambda>w. P w \<and> (\<exists>t. ks = entry_keys g (canonicalBinaryPath (X t) (be_Path b)) (be_Path b)))
     (removed_keys X r K (?acc ks) bs) ?Q P" for ks
  proof (rule run_pure, rule run_post [OF Cons.IH])
    fix ks' w
    assume "\<exists>t. ks = entry_keys g (canonicalBinaryPath (X t) (be_Path b)) (be_Path b)"
    then have "(k, be_Path b) \<in> set (g_keyPaths g) \<Longrightarrow> k \<in> set ks" for k
      by (force simp: entry_keys_def Let_def)
    then show "P w \<and> set (?acc ks) \<subseteq> set ks' \<and> (\<forall>b \<in> set bs. \<forall>k. (k, be_Path b) \<in> set (g_keyPaths g) \<longrightarrow> k \<in> set ks' \<or> map_of (ke_owners K) k \<noteq> None) \<Longrightarrow> ?Q ks' w"
      unfolding collect_keys by auto
  qed
  then show ?case unfolding removed_keys.simps by (rule run_and_then [OF entryKeys_run [OF assms]])
qed (simp add: run_def ret_def)

text \<open>What a successful removal leaves.\<close>

lemma removeBinaries_run:
  assumes "deletable A"
  shows "run (\<lambda>w. guard_inv r res M S A w \<and> w_guards w r = g) (removeBinaries X r removed keep)
     (\<lambda>_ w. \<exists>K. guard_inv r res M S (without A res K) w \<and>
        (\<forall>b \<in> set removed. \<forall>k. (k, be_Path b) \<in> set (g_keyPaths g) \<longrightarrow> k \<in> K \<or> owned X g keep k))
     (guard_inv r res M S A)" (is "run ?P _ ?Q ?E")
proof (cases "removed = []")
  case True
  have "without A res {} = A" by (simp add: without_def fun_eq_iff)
  then show ?thesis unfolding removeBinaries_def True
    by (auto simp: run_def ret_def intro!: exI [of _ "{}"])
next
  case False
  have P: "\<forall>w. ?P w \<longrightarrow> ?P (step_tick w) \<and> w_guards w r = g" by simp
  let ?own = "\<lambda>K. \<forall>k. map_of (ke_owners K) k \<noteq> None \<longrightarrow> owned X g keep k"
  let ?all = "\<lambda>K ks. \<forall>b \<in> set removed. \<forall>k. (k, be_Path b) \<in> set (g_keyPaths g) \<longrightarrow> k \<in> set ks \<or> map_of (ke_owners K) k \<noteq> None"
  have kept: "run ?P (keptLocked X r keep) (\<lambda>K w. ?P w \<and> ?own K) ?E"
    unfolding keptLocked_def by (rule run_post [OF kept_entries_run [OF P]]) auto
  have keys: "run ?P (removed_keys X r K [] removed) (\<lambda>ks w. ?P w \<and> ?all K ks) ?E" for K
    by (rule run_post [OF removed_keys_run [OF P]]) auto
  have del: "run ?P (for_each ks (deleteExeRows r)) (\<lambda>_. guard_inv r res M S (without A res (set ks))) ?E" for ks
    by (rule run_pre [OF delete_loop_run [OF assms]]) simp
  have forget: "run (guard_inv r res M S (without A res (set ks))) (forgetLocked X r removed ks K) ?Q ?E"
    if "?all K ks" "?own K" for K ks
  proof (rule run_post [OF forgetLocked_keeps])
    show "?Q x w" if w: "guard_inv r res M S (without A res (set ks)) w" for x :: unit and w
      using w \<open>?all K ks\<close> \<open>?own K\<close> by blast
    show "?E w" if "guard_inv r res M S (without A res (set ks)) w" for w
      using that by (rule guard_inv_mono) (simp add: without_def)
  qed
  show ?thesis unfolding removeBinaries_def if_not_P [OF False]
  proof (rule run_and_then [OF kept], rule run_pure, rule run_and_then [OF keys], rule run_pure, rule run_and_then [OF del])
    fix K :: keptEntries and ks assume "?own K" "?all K ks"
    then show "run (guard_inv r res M S (without A res (set ks))) (forgetLocked X r removed ks K) ?Q ?E" by (intro forget)
  qed
qed

lemma SetBinaries_admits:
  assumes "sets_ok w" and "map_of (e_slots w) resGlobal = None" and "g_mode (w_guards w r) = ModeWhitelist"
    and run: "SetBinaries X r entries w = (x, w')" and live: "map_of (e_slots w) slot \<noteq> None" and adm: "row_admits w' slot exe root"
  shows "row_admits w slot exe root \<or> slot = g_resID (w_guards w r) \<and> (\<exists>b \<in> set entries. resolves X (be_Path b) exe)"
proof -
  let ?res = "g_resID (w_guards w r)"
  let ?A = "\<lambda>slot exe v. v = None \<or> v = rows w slot exe \<or> slot = ?res \<and> (\<exists>b \<in> set entries. resolves X (be_Path b) exe)"
  have inv: "guard_inv r ?res ModeWhitelist (e_slots w) ?A w" using assms(1-3) by (simp add: guard_inv_def)
  have kp: "keeps (guard_inv r ?res ModeWhitelist (e_slots w) ?A) (SetBinaries X r entries)"
    by (rule SetBinaries_keeps) (auto simp: deletable_def writable_def)
  from keeps_Inr [OF kp inv run] live have "?A slot exe (rows w' slot exe)" by (simp add: guard_inv_def)
  with adm show ?thesis by (auto simp: row_admits_def split: option.splits)
qed

text \<open>
  C8. Editing the whitelist of a running guard never admits a binary outside the old and the new
  list: whatever row admits someone afterwards, at this resource or another, did so before, or its
  key is that of an entry of the new list. This holds when the call fails as when it succeeds,
  whichever map operation fails and however the files change during the call.
\<close>

theorem SetBinaries_never_wider:
  assumes "sets_ok w" and "map_of (e_slots w) resGlobal = None" and "g_mode (w_guards w r) = ModeWhitelist"
    and run: "SetBinaries X r entries w = (x, w')" and live: "map_of (e_slots w) slot \<noteq> None" and adm: "row_admits w' slot exe root"
  shows "row_admits w slot exe root \<or> slot = g_resID (w_guards w r) \<and> (\<exists>b \<in> set entries. resolves X (be_Path b) exe)"
  using SetBinaries_admits [OF assms] .

lemma SetBinaries_forgets:
  assumes "sets_ok w" and "map_of (e_slots w) resGlobal = None" and mode: "g_mode (w_guards w r) = ModeWhitelist"
    and run: "SetBinaries X r entries w = (Inr (), w')" and live: "map_of (e_slots w) (g_resID (w_guards w r)) \<noteq> None"
    and b: "b \<in> set (g_binaries (w_guards w r))" "b \<notin> set entries" "(k, be_Path b) \<in> set (g_keyPaths (w_guards w r))"
  shows "rows w' (g_resID (w_guards w r)) k = None \<or> owned X (w_guards w r) entries k \<or> (\<exists>e \<in> set entries. resolves X (be_Path e) k)"
proof -
  let ?g = "w_guards w r" and ?S = "e_slots w"
  let ?res = "g_resID ?g" and ?keep = "filter (\<lambda>e. e \<notin> set (filter (\<lambda>n. n \<notin> set (g_binaries ?g)) entries)) entries"
  let ?add = "filter (\<lambda>n. n \<notin> set (g_binaries ?g)) entries" and ?rem = "filter (\<lambda>c. c \<notin> set entries) (g_binaries ?g)"
  let ?T = "\<lambda>_ _ _. True"
  from run mode have "and_then (removeBinaries X r ?rem ?keep) (\<lambda>_. addBinaries X r ?add) w = (Inr (), w')"
    by (simp add: SetBinaries_def and_then_get diffBinaries_def fail_def split: if_splits)
  then obtain v where rem: "removeBinaries X r ?rem ?keep w = (Inr (), v)" and add: "addBinaries X r ?add v = (Inr (), w')"
    by (auto simp: and_then_def split: prod.splits sum.splits)
  have "deletable ?T" by (simp add: deletable_def)
  from run_Inr [OF removeBinaries_run [OF this] _ rem, of ?res ModeWhitelist ?S ?g] assms(1-3)
  obtain K where K: "guard_inv r ?res ModeWhitelist ?S (without ?T ?res K) v" and
    k: "k \<in> K \<or> owned X ?g ?keep k" using b by (auto simp: guard_inv_def)
  show ?thesis
  proof (cases "k \<in> K")
    case False
    with k have "owned X ?g entries k" by (auto simp: owned_def)
    then show ?thesis by simp
  next
    case True
    let ?A = "\<lambda>slot exe v. slot = ?res \<longrightarrow> exe \<in> K \<longrightarrow> v = None \<or> (\<exists>e \<in> set entries. resolves X (be_Path e) exe)"
    have inv: "guard_inv r ?res ModeWhitelist ?S ?A v" using K by (rule guard_inv_mono) (simp add: without_def)
    have kp: "keeps (guard_inv r ?res ModeWhitelist ?S ?A) (addBinaries X r ?add)"
      by (rule addBinaries_keeps) (auto simp: deletable_def writable_def)
    from keeps_Inr [OF kp inv add] live True show ?thesis by (auto simp: guard_inv_def)
  qed
qed

text \<open>
  C9. A successful edit of a whitelist drops what it should: a key the guard had recorded for an
  entry that is no longer listed has no row afterwards, unless an entry of the new list owns it.
\<close>

theorem SetBinaries_drops:
  assumes "sets_ok w" and "map_of (e_slots w) resGlobal = None" and mode: "g_mode (w_guards w r) = ModeWhitelist"
    and run: "SetBinaries X r entries w = (Inr (), w')" and live: "map_of (e_slots w) (g_resID (w_guards w r)) \<noteq> None"
    and b: "b \<in> set (g_binaries (w_guards w r))" "b \<notin> set entries" "(k, be_Path b) \<in> set (g_keyPaths (w_guards w r))"
  shows "rows w' (g_resID (w_guards w r)) k = None \<or> owned X (w_guards w r) entries k \<or> (\<exists>e \<in> set entries. resolves X (be_Path e) k)"
  using SetBinaries_forgets [OF assms] .

subsection \<open>An edit\<close>

definition demo_env :: guard_env where
  "demo_env = exe_env.extend demo_exe \<lparr>ge_EvalSymlinks = Some, ge_Missing = (\<lambda>_. False), ge_btrfsLayout = True,
     ge_onBtrfs = (\<lambda>_. False), ge_StatInode = (\<lambda>_. None), ge_Hash = (\<lambda>_. None), ge_StatBinary = (\<lambda>_. None),
     ge_OpenPath = (\<lambda>_. None), ge_StatBinaryFile = (\<lambda>_. None), ge_StatDurable = (\<lambda>_ _. None), ge_SyncFile = (\<lambda>_. False),
     ge_Now = 0, ge_Admit = (\<lambda>_ _ _ _ _. False), ge_Glob = (\<lambda>_. []), ge_Hold = False, ge_OpenSystemPlaced = (\<lambda>_. None), ge_SuperblockDev = (\<lambda>_. None),
     ge_isFuse = (\<lambda>_. True), ge_runtimeClass = (\<lambda>_ _. 0)\<rparr>"

definition demo_entry :: BinaryEntry where
  "demo_entry = \<lparr>be_Path = ''/bin/cat'', be_Hash = [1], be_Comm = ''cat''\<rparr>"

text \<open>Guard 1 lists one binary; its whitelist is emptied.\<close>

definition demo_policy :: world where
  "demo_policy = upd_guard 1 (\<lambda>g. g\<lparr>g_binaries := [demo_entry], g_deployed := [(''/bin/cat'', demo_file)],
     g_keyPaths := [(demo_file, ''/bin/cat'')]\<rparr>) demo_world"

lemma demo_SetBinaries:
  "case SetBinaries (\<lambda>_. demo_env) 1 [] demo_policy of (x, w') \<Rightarrow> x = Inr () \<and> row_admits w' 2 demo_file True \<and>
     \<not> row_admits w' 1 demo_file True"
  by code_simp

lemma demo_SetBinaries_run: "SetBinaries (\<lambda>_. demo_env) 1 [] demo_policy = (Inr (), snd (SetBinaries (\<lambda>_. demo_env) 1 [] demo_policy))"
  using demo_SetBinaries by (cases "SetBinaries (\<lambda>_. demo_env) 1 [] demo_policy") simp

lemma demo_policy_facts: "sets_ok demo_policy" "map_of (e_slots demo_policy) resGlobal = None"
    "g_mode (w_guards demo_policy 1) = ModeWhitelist" "g_resID (w_guards demo_policy 1) = 1"
    "map_of (e_slots demo_policy) 1 = Some 1" "map_of (e_slots demo_policy) 2 = Some 2"
  using demo_engine_ok
  by (simp_all add: demo_policy_def upd_guard_def engine_ok_def sets_ok_def demo_guard_def demo_world_def)

theorem SetBinaries_never_wider_witness:
  "row_admits (snd (SetBinaries (\<lambda>_. demo_env) 1 [] demo_policy)) 2 demo_file True \<and> row_admits demo_policy 2 demo_file True"
proof -
  have adm: "row_admits (snd (SetBinaries (\<lambda>_. demo_env) 1 [] demo_policy)) 2 demo_file True"
    using demo_SetBinaries by (cases "SetBinaries (\<lambda>_. demo_env) 1 [] demo_policy") simp
  have "map_of (e_slots demo_policy) 2 \<noteq> None" by (simp add: demo_policy_facts)
  from SetBinaries_never_wider [OF demo_policy_facts(1-3) demo_SetBinaries_run this adm] adm show ?thesis
    by (simp add: demo_policy_facts)
qed

theorem SetBinaries_drops_witness:
  "rows (snd (SetBinaries (\<lambda>_. demo_env) 1 [] demo_policy)) 1 demo_file = None \<and> rows demo_policy 1 demo_file = Some GUARD_ALLOW"
proof -
  have l: "map_of (e_slots demo_policy) (g_resID (w_guards demo_policy 1)) \<noteq> None" by (simp add: demo_policy_facts [simplified])
  have b: "demo_entry \<in> set (g_binaries (w_guards demo_policy 1))" "(demo_file, be_Path demo_entry) \<in> set (g_keyPaths (w_guards demo_policy 1))"
    by (simp_all add: demo_policy_def upd_guard_def demo_entry_def)
  from SetBinaries_drops [OF demo_policy_facts(1-3) demo_SetBinaries_run l b(1) _ b(2)] show ?thesis
    by (simp add: demo_policy_facts [simplified] owned_def) (simp add: demo_policy_def upd_guard_def demo_world_def)
qed

end
