(* ===== verification/Refresh_Frame.thy ===== *)
theory Refresh_Frame
  imports Guard_Policy Row_Invariants
begin

text \<open>
  What the refreshes of the shared views leave alone. A part of the state is framed when none of the
  updates a refresh makes changes it; then no operation built from refreshes changes it either.
\<close>

locale refresh_frame =
  fixes part :: "world \<Rightarrow> 'a"
  assumes part_tick: "part (step_tick w) = part w"
    and part_actions: "part (GuardExeActions_update f1 w) = part w"
    and part_union: "part (GuardExeUnion_update f2 w) = part w"
    and part_members: "part (GuardTaintMembers_update f3 w) = part w"
    and part_configs: "part (ResConfigs_update f4 w) = part w"
    and part_multicall: "part (GuardMulticall_update f5 w) = part w"
    and part_names: "part (GuardMulticallNames_update f6 w) = part w"
    and part_allows: "part (e_allows_update f7 w) = part w"
    and part_sets: "part (e_sets_update f8 w) = part w"
    and part_setRows: "part (e_setRows_update f9 w) = part w"
    and part_unionRows: "part (e_unionRows_update g1 w) = part w"
    and part_memberRows: "part (e_memberRows_update g2 w) = part w"
    and part_mcNames: "part (e_mcNames_update g3 w) = part w"
    and part_mcReg: "part (w_mcReg_update g4 w) = part w"
begin

lemmas part_simps = part_tick part_actions part_union part_members part_configs part_multicall part_names part_allows part_sets
  part_setRows part_unionRows part_memberRows part_mcNames part_mcReg

lemmas part_others = run_map_put [where Q = "\<lambda>_ w. part w = s" and E = "\<lambda>w. part w = s" and P = "\<lambda>w. part w = s"]
  run_map_del [where Q = "\<lambda>_ w. part w = s" and E = "\<lambda>w. part w = s" and P = "\<lambda>w. part w = s"] for s

lemma build_union_part: "keeps (\<lambda>w. part w = s) (build_union os)"
proof (induction os)
  case (Cons p os)
  obtain exe o' where p: "p = (exe, o')" by (cases p)
  show ?case unfolding p build_union.simps set_slot_def allocSetSlotLocked_def
    by (intro keep_rules part_others Cons.IH) (simp_all add: Cons.IH part_simps)
qed (simp add: keep_rules)

lemma syncShared_part: "keeps (\<lambda>w. part w = s) syncSharedLocked"
  unfolding syncSharedLocked_def syncTaintLocked_def syncU32Map_def syncSetsLocked_def syncSetRowsLocked_def syncSetMap_def
    refreshGlobalLocked_def clearGlobalAllowsLocked_def Let_def
  by (intro keep_rules build_union_part part_others) (simp_all add: part_simps)

lemma noteDeny_part: "keeps (\<lambda>w. part w = s) (noteDeny q exe)"
  unfolding noteDeny_def by (intro keep_rules syncShared_part) (simp add: part_simps)

lemma noteAllow_part: "keeps (\<lambda>w. part w = s) (noteAllow q exe a)"
  unfolding noteAllow_def by (intro keep_rules syncShared_part) (simp add: part_simps)

lemma put_names_part: "keeps (\<lambda>w. part w = s) (put_names file as)"
proof (induction as)
  case (Cons a as)
  have "keeps (\<lambda>w. part w = s) (\<lambda>w. case appletTag (w_mcReg w) a of
         (None, R) \<Rightarrow> (Inl TooManyNames, w\<lparr>w_mcReg := R\<rparr>) | (Some t, R) \<Rightarrow> (Inr t, w\<lparr>w_mcReg := R\<rparr>))"
    by (simp add: run_def part_simps split: prod.splits option.splits)
  then show ?case unfolding put_names.simps by (intro keep_rules part_others Cons.IH) (simp_all add: part_simps)
qed (simp add: keep_rules)

lemma ensureMulticall_part: "keeps (\<lambda>w. part w = s) (ensureMulticall file)"
  unfolding ensureMulticall_def syncMulticallNamesLocked_def
  by (intro keep_rules put_names_part part_others) (simp_all add: part_simps)

lemma putExeAction_part: "keeps (\<lambda>w. part w = s) (putExeAction r ik a)"
  unfolding putExeAction_def
  by (intro keep_rules ensureMulticall_part noteAllow_part noteDeny_part part_others) (simp_all add: part_simps)

lemma deleteActions_part: "keeps (\<lambda>w. part w = s) (deleteInoKeys GuardExeActions_update GuardExeActions exe)"
  unfolding deleteInoKeys_def delete_rows_def by (intro keep_rules part_others) (simp_all add: part_simps)

end

end
