(* ===== verification/Temp_Facts.thy ===== *)
theory Temp_Facts
  imports Temp_Grant Policy_Facts Refresh_Frame
begin

text \<open>
  Temporary grants: what a grant does to the whitelist rows and masks of live resources.
\<close>

subsection \<open>Masks and guards under a refresh\<close>

text \<open>The refreshes of the shared views leave event masks and guards alone.\<close>

definition side :: "world \<Rightarrow> (rkey, u32) gomap \<times> (nat \<Rightarrow> Guard)" where
  "side w = (GuardExeEvents w, w_guards w)"

interpretation sides: refresh_frame side
  by unfold_locales (simp_all add: side_def)

subsection \<open>Action and mask of every binary\<close>

type_synonym pair_pred = "nat \<Rightarrow> GuardInodeKey \<Rightarrow> u8 option \<Rightarrow> u32 option \<Rightarrow> bool"

definition pinv :: "nat \<Rightarrow> nat \<Rightarrow> (nat, nat) gomap \<Rightarrow> (nat \<Rightarrow> Guard) \<Rightarrow> pair_pred \<Rightarrow> world \<Rightarrow> bool" where
  "pinv r res S G C w \<longleftrightarrow> guard_inv r res ModeWhitelist S (\<lambda>_ _ _. True) w \<and> w_guards w = G \<and>
     (\<forall>slot exe. map_of S slot \<noteq> None \<longrightarrow> C slot exe (rows w slot exe) (map_of (GuardExeEvents w) (slot, exe)))"

lemma pinv_keeps:
  assumes "\<And>A. keeps (guard_inv r res ModeWhitelist S A) m" and "\<And>s. keeps (\<lambda>w. side w = s) m"
  shows "keeps (pinv r res S G C) m"
proof -
  have split: "pinv r res S G C w \<longleftrightarrow>
      (\<exists>E. guard_inv r res ModeWhitelist S (\<lambda>slot exe v. C slot exe v (map_of E (slot, exe))) w \<and> side w = (E, G))" for w
    by (auto simp: pinv_def guard_inv_def side_def)
  have "pinv r res S G C w'" if "pinv r res S G C w" "m w = (x, w')" for w x w'
  proof -
    from that(1) obtain E where i: "guard_inv r res ModeWhitelist S (\<lambda>slot exe v. C slot exe v (map_of E (slot, exe))) w" "side w = (E, G)"
      by (auto simp: split)
    from keeps_Inr [OF assms(1) i(1) that(2)] keeps_Inr [OF assms(2) i(2) that(2)] show ?thesis by (auto simp: split)
  qed
  then show ?thesis by (auto intro: runI)
qed

lemma pinv_weaken: "pinv r res S G C w \<Longrightarrow> (\<And>slot exe v m. C slot exe v m \<Longrightarrow> D slot exe v m) \<Longrightarrow> pinv r res S G D w"
  by (auto simp: pinv_def)

text \<open>One pair moves from \<open>C\<close> to \<open>D\<close>; every other stays.\<close>

definition moves :: "nat \<Rightarrow> GuardInodeKey \<Rightarrow> (u8 option \<Rightarrow> u8 option) \<Rightarrow> (u32 option \<Rightarrow> u32 option) \<Rightarrow> pair_pred \<Rightarrow> pair_pred \<Rightarrow> bool" where
  "moves res k f h C D \<longleftrightarrow> (\<forall>slot exe v m. C slot exe v m \<longrightarrow>
     (if slot = res \<and> exe = k then D slot exe (f v) (h m) else D slot exe v m))"

definition sub :: "pair_pred \<Rightarrow> pair_pred \<Rightarrow> bool" where
  "sub C D \<longleftrightarrow> (\<forall>slot exe v m. C slot exe v m \<longrightarrow> D slot exe v m)"

lemma pinv_sub: "pinv r res S G C w \<Longrightarrow> sub C D \<Longrightarrow> pinv r res S G D w"
  by (auto simp: pinv_def sub_def)

lemma run_sub: "run P m (\<lambda>_. pinv r res S G C) (pinv r res S G D) \<Longrightarrow> sub D E \<Longrightarrow> run P m (\<lambda>_. pinv r res S G C) (pinv r res S G E)"
  by (erule run_post) (auto intro: pinv_sub)

lemma pinv_move:
  assumes C: "pinv r res S G C w" and mv: "moves res k f h C D" and "guard_inv r res ModeWhitelist S (\<lambda>_ _ _. True) w'"
    and "w_guards w' = w_guards w"
    and rows: "\<And>slot exe. rows w' slot exe = (if slot = res \<and> exe = k then f (rows w slot exe) else rows w slot exe)"
    and masks: "\<And>slot exe. map_of (GuardExeEvents w') (slot, exe) =
      (if slot = res \<and> exe = k then h (map_of (GuardExeEvents w) (slot, exe)) else map_of (GuardExeEvents w) (slot, exe))"
  shows "pinv r res S G D w'"
proof -
  have "D slot exe (rows w' slot exe) (map_of (GuardExeEvents w') (slot, exe))" if "map_of S slot \<noteq> None" for slot exe
  proof -
    from C that have "C slot exe (rows w slot exe) (map_of (GuardExeEvents w) (slot, exe))" by (simp add: pinv_def)
    with mv show ?thesis unfolding rows masks moves_def by (cases "slot = res \<and> exe = k") auto
  qed
  with assms(1,3,4) show ?thesis by (simp add: pinv_def)
qed

lemma pinv_put:
  assumes C: "pinv r res S G C w" and mv: "moves res k (\<lambda>_. Some a) id C D"
  shows "pinv r res S G D (GuardExeActions_update (AList.update (res, k) a) w)"
proof (rule pinv_move [OF C mv])
  show "guard_inv r res ModeWhitelist S (\<lambda>_ _ _. True) (GuardExeActions_update (AList.update (res, k) a) w)"
    by (rule guard_inv_put) (use C in \<open>simp_all add: pinv_def\<close>)
qed auto

lemma pinv_del:
  assumes C: "pinv r res S G C w" and mv: "moves res k (\<lambda>_. None) id C D"
  shows "pinv r res S G D (GuardExeActions_update (AList.delete (res, k)) w)"
proof (rule pinv_move [OF C mv])
  show "guard_inv r res ModeWhitelist S (\<lambda>_ _ _. True) (GuardExeActions_update (AList.delete (res, k)) w)"
    by (rule guard_inv_del) (use C in \<open>simp_all add: pinv_def deletable_def\<close>)
qed auto

lemma pinv_mask:
  assumes C: "pinv r res S G C w" and mv: "moves res k id (\<lambda>_. had) C D"
    and f: "\<And>q. map_of (f (GuardExeEvents w)) q = (if q = (res, k) then had else map_of (GuardExeEvents w) q)"
  shows "pinv r res S G D (GuardExeEvents_update f w)"
proof (rule pinv_move [OF C mv])
  show "guard_inv r res ModeWhitelist S (\<lambda>_ _ _. True) (GuardExeEvents_update f w)"
    using C by (simp add: pinv_def)
qed (simp_all add: f)

lemma pinv_tick [simp]: "pinv r res S G C (step_tick w) = pinv r res S G C w"
  by (simp add: pinv_def)

lemma putExeAction_pinv:
  assumes "moves res k (\<lambda>_. Some a) id C D" and "sub C E" and "sub D E"
  shows "run (pinv r res S G C) (putExeAction r k a) (\<lambda>_. pinv r res S G D) (pinv r res S G E)"
proof -
  have g: "run (pinv r res S G C) (get (\<lambda>w. w_guards w r)) (\<lambda>g w. pinv r res S G C w \<and> (g_resID g = res \<and> g_mode g = ModeWhitelist)) (pinv r res S G E)"
    by (rule run_get) (auto simp: pinv_def guard_inv_def)
  have pre: "run (pinv r res S G C) (if \<not> tagged k then ret () else and_then (ensureMulticall (Real k)) (\<lambda>_.
       if a = GUARD_BLOCK \<and> ModeWhitelist = ModeBlacklist then map_put GuardExeActions_update (res, withTag k mcTagNone) a else ret ()))
     (\<lambda>_. pinv r res S G C) (pinv r res S G E)"
    by (rule run_sub [OF _ assms(2)]) (simp, intro keep_rules impI conjI pinv_keeps ensureMulticall_keeps sides.ensureMulticall_part)
  have post: "run (pinv r res S G D) (if b then noteAllow res k a else noteDeny res k) (\<lambda>_. pinv r res S G D) (pinv r res S G E)" for b
    by (rule run_sub [OF _ assms(3)]) (intro keep_rules pinv_keeps noteAllow_keeps noteDeny_keeps sides.noteAllow_part sides.noteDeny_part)
  have put: "run (pinv r res S G C) (map_put GuardExeActions_update (res, k) a) (\<lambda>_. pinv r res S G D) (pinv r res S G E)"
    by (rule run_map_put) (auto intro: pinv_sub [OF _ assms(2)] pinv_put [OF _ assms(1)])
  show ?thesis unfolding putExeAction_def
  proof (rule run_and_then [OF g], rule run_pure)
    fix g assume g: "g_resID g = res \<and> g_mode g = ModeWhitelist"
    show "run (pinv r res S G C) (and_then (if \<not> tagged k then ret () else and_then (ensureMulticall (Real k)) (\<lambda>_.
        if a = GUARD_BLOCK \<and> g_mode g = ModeBlacklist then map_put GuardExeActions_update (g_resID g, withTag k mcTagNone) a else ret ()))
      (\<lambda>_. and_then (map_put GuardExeActions_update (g_resID g, k) a) (\<lambda>_. if a = GUARD_ALLOW \<or> a = GUARD_ALLOW_ROOT
         then noteAllow (g_resID g) k a else noteDeny (g_resID g) k))) (\<lambda>_. pinv r res S G D) (pinv r res S G E)"
      unfolding conjunct1 [OF g] conjunct2 [OF g] by (rule run_and_then [OF pre], rule run_and_then [OF put], rule post)
  qed
qed

lemma restoreMask_pinv:
  assumes "moves res k id (\<lambda>_. had) C D" and "sub C E"
  shows "run (pinv r res S G C) (restoreMask r k had) (\<lambda>_. pinv r res S G D) (pinv r res S G E)"
proof -
  have g: "run (pinv r res S G C) (get (\<lambda>w. g_resID (w_guards w r))) (\<lambda>x w. pinv r res S G C w \<and> x = res) (pinv r res S G E)"
    by (rule run_get) (auto simp: pinv_def guard_inv_def)
  have wr: "pinv r res S G D (GuardExeEvents_update f (step_tick w))" if "pinv r res S G C w"
    "\<And>q. map_of (f (GuardExeEvents w)) q = (if q = (res, k) then had else map_of (GuardExeEvents w) q)" for f w
    by (rule pinv_mask [OF _ assms(1)]) (use that in simp_all)
  have "run (pinv r res S G C) (case had of Some m \<Rightarrow> map_put GuardExeEvents_update (res, k) m
      | None \<Rightarrow> map_del GuardExeEvents_update (res, k)) (\<lambda>_. pinv r res S G D) (pinv r res S G E)"
  proof (cases had)
    case None
    show ?thesis unfolding None option.case
      by (rule run_map_del) (auto intro: pinv_sub [OF _ assms(2)] intro!: wr simp: None delete_conv')
  next
    case (Some m)
    show ?thesis unfolding Some option.case
      by (rule run_map_put) (auto intro: pinv_sub [OF _ assms(2)] intro!: wr simp: Some update_conv')
  qed
  then show ?thesis unfolding restoreMask_def
    by (intro run_and_then [OF g] run_pure) (elim ssubst)
qed

lemma readExeRow_pinv:
  "run (pinv r res S G C) (readExeRow r k)
     (\<lambda>row w. pinv r res S G C w \<and> pinv r res S G (\<lambda>slot exe v m. C slot exe v m \<and> (slot = res \<and> exe = k \<longrightarrow> v = er_action row \<and> m = er_mask row)) w)
     (pinv r res S G C)"
  unfolding readExeRow_def
  by (simp add: run_def and_then_def get_def map_get_def ret_def) (auto simp: pinv_def guard_inv_def)

subsection \<open>What a grant may leave behind\<close>

definition mask_bits :: "u32 option \<Rightarrow> u32" where
  "mask_bits m = (case m of None \<Rightarrow> allEventBits | Some b \<Rightarrow> b)"

definition granted_mask :: "TempRule \<Rightarrow> u32 option" where
  "granted_mask rule = (if ru_Events rule = [] then None else case eventMask (ru_Events rule) of Inl _ \<Rightarrow> None | Inr m \<Rightarrow> Some m)"

text \<open>The plan of a row, as \<open>planTempAllow\<close> and \<open>planTempBlock\<close> make it.\<close>

definition row_plan :: "TempRule \<Rightarrow> tempRow \<Rightarrow> bool" where
  "row_plan rule row \<longleftrightarrow>
     (if ru_Allow rule then er_action (tw_prior row) = None \<and> tw_newAction row = GUARD_ALLOW \<and>
        (case granted_mask rule of
           None \<Rightarrow> tw_maskOp row = (if er_mask (tw_prior row) = None then maskKeep else maskDelete)
         | Some m \<Rightarrow> tw_maskOp row = maskPut \<and> tw_newMask row = m)
      else er_action (tw_prior row) = Some GUARD_ALLOW \<and>
        (tw_newAction row = GUARD_BLOCK \<and> tw_maskOp row = maskKeep \<or>
         tw_newAction row = 0 \<and> tw_maskOp row = maskPut \<and> (\<exists>d. tw_newMask row = mask_bits (er_mask (tw_prior row)) AND NOT d)))"

definition within :: "u32 option \<Rightarrow> u32 option \<Rightarrow> bool" where
  "within m m0 \<longleftrightarrow> mask_bits m AND NOT (mask_bits m0) = 0"

lemma within_refl [simp]: "within m m" by (simp add: within_def)

lemma within_cut: "within m m0 \<Longrightarrow> within (Some (mask_bits m AND NOT d)) m0"
proof -
  assume "within m m0"
  then have "mask_bits m AND NOT (mask_bits m0) = 0" by (simp add: within_def)
  then have "(mask_bits m AND NOT (mask_bits m0)) AND NOT d = 0" by simp
  then show ?thesis by (simp add: within_def mask_bits_def [of "Some _"] ac_simps)
qed

text \<open>Against the rows \<open>v0\<close> and masks \<open>m0\<close> before the grant: untouched, admitting nothing, or admitting
  what the rule grants; a block never widens.\<close>

definition grantC :: "TempRule \<Rightarrow> nat \<Rightarrow> GuardInodeKey set \<Rightarrow> (nat \<Rightarrow> GuardInodeKey \<Rightarrow> u8 option) \<Rightarrow> (nat \<Rightarrow> GuardInodeKey \<Rightarrow> u32 option) \<Rightarrow> pair_pred" where
  "grantC rule res K v0 m0 slot exe v m \<longleftrightarrow> v = v0 slot exe \<and> m = m0 slot exe \<or> slot = res \<and> exe \<in> K \<and>
     (if ru_Allow rule then v0 slot exe = None \<and> (v = None \<or> v = Some GUARD_ALLOW \<and> m = granted_mask rule)
      else v0 slot exe = Some GUARD_ALLOW \<and> (v = Some GUARD_BLOCK \<or> v = Some GUARD_ALLOW) \<and> within m (m0 slot exe))"

definition undoable :: "TempRule \<Rightarrow> nat \<Rightarrow> GuardInodeKey set \<Rightarrow> (nat \<Rightarrow> GuardInodeKey \<Rightarrow> u8 option) \<Rightarrow> (nat \<Rightarrow> GuardInodeKey \<Rightarrow> u32 option) \<Rightarrow> tempRow \<Rightarrow> bool" where
  "undoable rule res K v0 m0 row \<longleftrightarrow> row_plan rule row \<and> tb_Key (tw_bin row) \<in> K \<and>
     (tw_applied row \<longrightarrow> (if ru_Allow rule then v0 res (tb_Key (tw_bin row)) = None
       else v0 res (tb_Key (tw_bin row)) = Some GUARD_ALLOW \<and> within (er_mask (tw_prior row)) (m0 res (tb_Key (tw_bin row)))))"

lemma run_attempt: "run P m Q E \<Longrightarrow> run P (attempt m) (\<lambda>x w. case x of Inl _ \<Rightarrow> E w | Inr y \<Rightarrow> Q y w) F"
  by (fastforce simp: run_def attempt_def split: prod.splits sum.splits)

lemma attempt_keeps: "keeps I m \<Longrightarrow> keeps I (attempt m)"
proof -
  assume m: "keeps I m"
  have "I w'" if "I w" "attempt m w = (y, w')" for w y w'
  proof -
    from that(2) obtain x where "m w = (x, w')" by (auto simp: attempt_def split: prod.splits)
    then show ?thesis by (rule keeps_Inr [OF m that(1)])
  qed
  then show ?thesis by (auto intro: runI)
qed

lemma pinv_trusted: "pinv r res S G C (GuardTrustedFiles_update f w) = pinv r res S G C w"
  by (simp add: pinv_def)

lemma untrust_pinv: "keeps (pinv r res S G C) (untrustTempRuntime row live)"
  unfolding untrustTempRuntime_def Let_def
  by (intro keep_rules run_map_put run_map_del) (simp_all add: pinv_trusted)

text \<open>The runtime row: what the grant is about does not change.\<close>

definition same_plan :: "tempRow \<Rightarrow> tempRow \<Rightarrow> bool" where
  "same_plan row row' \<longleftrightarrow> tw_bin row' = tw_bin row \<and> tw_prior row' = tw_prior row \<and> tw_newAction row' = tw_newAction row \<and>
     tw_maskOp row' = tw_maskOp row \<and> tw_newMask row' = tw_newMask row \<and> tw_applied row' = tw_applied row"

lemma same_plan_undoable: "same_plan row row' \<Longrightarrow> undoable rule res K v0 m0 row' = undoable rule res K v0 m0 row"
  unfolding same_plan_def undoable_def row_plan_def by (elim conjE) (simp only:)

lemma trust_pinv:
  "run (pinv r res S G C) (trustTempRuntime row t) (\<lambda>row' w. pinv r res S G C w \<and> same_plan row row') (pinv r res S G C)"
proof -
  let ?I = "pinv r res S G C" and ?Q = "\<lambda>row' w. pinv r res S G C w \<and> same_plan row row'"
  have stop: "run ?I (ret row') ?Q ?I" if "same_plan row row'" for row'
    by (rule run_ret) (use that in simp)
  have wr: "run ?I (and_then (map_put GuardTrustedFiles_update k x) (\<lambda>_. ret row')) ?Q ?I" if "same_plan row row'" for k x row'
    by (rule run_and_then [OF _ stop [OF that]], rule run_map_put) (simp_all add: pinv_trusted)
  have rd: "run ?I (map_get GuardTrustedFiles k) (\<lambda>_. ?I) ?I" for k
    by (rule run_map_get) simp_all
  have id: "same_plan row row" by (simp add: same_plan_def)
  have upd: "same_plan row (row\<lparr>tw_trust := t', tw_trustHad := h, tw_trustPrior := p, tw_trustAdded := q\<rparr>)" for t' h p q
    by (simp add: same_plan_def)
  have "run ?I (fail e) ?Q ?I" for e by (rule run_fail)
  then show ?thesis unfolding trustTempRuntime_def Let_def
    by (auto split: option.split intro!: run_and_then [OF rd] stop wr id upd)
qed

definition at_key :: "nat \<Rightarrow> GuardInodeKey \<Rightarrow> (u8 option \<Rightarrow> u32 option \<Rightarrow> bool) \<Rightarrow> pair_pred \<Rightarrow> pair_pred" where
  "at_key res k P C slot exe v m \<longleftrightarrow> C slot exe v m \<and> (slot = res \<and> exe = k \<longrightarrow> P v m)"

lemma sub_at_key [simp]: "sub (at_key res k P C) C"
  by (simp add: sub_def at_key_def)

lemma sub_refl [simp]: "sub C C"
  by (simp add: sub_def)

subsection \<open>Writing and undoing one row\<close>

lemma run_if: "(b \<Longrightarrow> run P m Q E) \<Longrightarrow> (\<not> b \<Longrightarrow> run P n Q E) \<Longrightarrow> run P (if b then m else n) Q E"
  by simp

lemmas pair_defs = moves_def sub_def at_key_def grantC_def

lemma readExeRow_at:
  "run (pinv r res S G C) (readExeRow r k)
     (\<lambda>row. pinv r res S G (at_key res k (\<lambda>v m. v = er_action row \<and> m = er_mask row) C)) (pinv r res S G C)"
  by (rule run_post [OF readExeRow_pinv]) (auto simp: pinv_def at_key_def)

text \<open>An allow: the mask first, while no row admits.\<close>

lemma write_masks_allow:
  fixes C K v0 m0 rule res row
  defines "C \<equiv> grantC rule res K v0 m0" and "k \<equiv> tb_Key (tw_bin row)"
  assumes plan: "row_plan rule row" and al: "ru_Allow rule" and "k \<in> K" and v0: "v0 res k = None"
  shows "run (pinv r res S G (at_key res k (\<lambda>v m. v = None \<and> m = er_mask (tw_prior row)) C)) (write_masks r row)
     (\<lambda>_. pinv r res S G (at_key res k (\<lambda>v m. v = None \<and> m = granted_mask rule) C)) (pinv r res S G C)"
proof -
  let ?C1 = "at_key res k (\<lambda>v m. v = None \<and> m = er_mask (tw_prior row)) C"
  let ?C2 = "at_key res k (\<lambda>v m. v = None \<and> m = granted_mask rule) C"
  have mv: "moves res k id (\<lambda>_. granted_mask rule) ?C1 ?C2"
    using assms(5) al v0 by (auto simp: pair_defs C_def)
  have wr: "run (pinv r res S G ?C1) (restoreMask r k (granted_mask rule)) (\<lambda>_. pinv r res S G ?C2) (pinv r res S G C)"
    by (rule restoreMask_pinv [OF mv]) simp
  have keep: "run (pinv r res S G ?C1) (ret ()) (\<lambda>_. pinv r res S G ?C2) (pinv r res S G C)" if "er_mask (tw_prior row) = granted_mask rule"
    by (rule run_ret) (use that in simp)
  have act: "tw_newAction row = GUARD_ALLOW" using plan al by (simp add: row_plan_def)
  have "run (pinv r res S G ?C1) (case tw_maskOp row of maskPut \<Rightarrow> restoreMask r k (Some (tw_newMask row))
      | maskDelete \<Rightarrow> restoreMask r k None | maskKeep \<Rightarrow> ret ()) (\<lambda>_. pinv r res S G ?C2) (pinv r res S G C)"
    using plan al wr keep by (auto simp: row_plan_def split: option.splits if_splits)
  moreover have "run (pinv r res S G ?C1) (ret ()) (\<lambda>_. pinv r res S G ?C1) (pinv r res S G C)" by (rule run_ret)
  ultimately show ?thesis unfolding write_masks_def k_def [symmetric] act
    using run_and_then [of "pinv r res S G ?C1" "ret ()" "\<lambda>_. pinv r res S G ?C1"] by simp
qed

text \<open>A block, or a narrower mask.\<close>

lemma write_masks_block:
  fixes C K v0 m0 rule res row
  defines "C \<equiv> grantC rule res K v0 m0" and "k \<equiv> tb_Key (tw_bin row)"
  assumes plan: "row_plan rule row" and bl: "\<not> ru_Allow rule" and "k \<in> K" and v0: "v0 res k = Some GUARD_ALLOW"
    and m0: "within (er_mask (tw_prior row)) (m0 res k)"
  shows "run (pinv r res S G (at_key res k (\<lambda>v m. v = Some GUARD_ALLOW \<and> m = er_mask (tw_prior row)) C)) (write_masks r row)
     (\<lambda>_. pinv r res S G C) (pinv r res S G C)"
proof -
  let ?C1 = "at_key res k (\<lambda>v m. v = Some GUARD_ALLOW \<and> m = er_mask (tw_prior row)) C"
  have put: "run (pinv r res S G ?C1) (putExeAction r k GUARD_BLOCK) (\<lambda>_. pinv r res S G C) (pinv r res S G C)"
    by (rule putExeAction_pinv) (use assms(5) bl v0 m0 in \<open>auto simp: pair_defs C_def\<close>)
  have cut: "run (pinv r res S G ?C1) (restoreMask r k (Some (mask_bits (er_mask (tw_prior row)) AND NOT d))) (\<lambda>_. pinv r res S G C) (pinv r res S G C)" for d
    by (rule restoreMask_pinv) (use assms(5) bl v0 within_cut [OF m0] in \<open>auto simp: pair_defs C_def\<close>)
  have none: "run (pinv r res S G ?C1) (ret ()) (\<lambda>_. pinv r res S G ?C1) (pinv r res S G C)"
    by (rule run_ret)
  have fin: "run (pinv r res S G C) (ret ()) (\<lambda>_. pinv r res S G C) (pinv r res S G C)"
    by (rule run_ret)
  from plan bl consider "tw_newAction row = GUARD_BLOCK" "tw_maskOp row = maskKeep"
    | d where "tw_newAction row = 0" "tw_maskOp row = maskPut" "tw_newMask row = mask_bits (er_mask (tw_prior row)) AND NOT d"
    by (auto simp: row_plan_def)
  then show ?thesis
  proof cases
    case 1
    show ?thesis unfolding write_masks_def k_def [symmetric] 1 using run_and_then [OF put fin] by simp
  next
    case 2
    show ?thesis unfolding write_masks_def k_def [symmetric] 2 using run_and_then [OF none cut] by simp
  qed
qed

text \<open>Taking a row back: the action goes before the mask of an allow is touched.\<close>

lemma restoreTempAction_allow:
  fixes C K v0 m0 rule res row
  defines "C \<equiv> grantC rule res K v0 m0" and "k \<equiv> tb_Key (tw_bin row)"
  assumes act: "tw_newAction row = GUARD_ALLOW" and al: "ru_Allow rule" and K: "k \<in> K" and v0: "v0 res k = None"
  shows "run (pinv r res S G (at_key res k (\<lambda>v m. v = er_action cur \<and> m = er_mask cur) C)) (restoreTempAction r row cur p)
     (\<lambda>_. pinv r res S G (at_key res k (\<lambda>v m. v = None) C)) (pinv r res S G C)"
proof -
  let ?C1 = "at_key res k (\<lambda>v m. v = er_action cur \<and> m = er_mask cur) C" and ?C3 = "at_key res k (\<lambda>v m. v = None) C"
  have g: "run (pinv r res S G ?C1) (get (\<lambda>w. w_guards w r)) (\<lambda>g w. pinv r res S G ?C1 w \<and> g_resID g = res) (pinv r res S G C)"
    by (rule run_get) (auto simp: pinv_def guard_inv_def)
  have mv: "moves res k (\<lambda>_. None) id ?C1 ?C3" using K al v0 by (auto simp: pair_defs C_def)
  have del: "run (pinv r res S G ?C1) (map_del GuardExeActions_update (res, k)) (\<lambda>_. pinv r res S G ?C3) (pinv r res S G C)"
    by (rule run_map_del) (auto intro: pinv_sub pinv_del [OF _ mv])
  have deny: "run (pinv r res S G ?C3) (noteDeny res k) (\<lambda>_. pinv r res S G ?C3) (pinv r res S G C)"
    by (rule run_sub [where D = ?C3], rule pinv_keeps) (simp_all add: noteDeny_keeps sides.noteDeny_part)
  have none: "run (pinv r res S G ?C1) (ret ()) (\<lambda>_. pinv r res S G ?C3) (pinv r res S G C)" if "er_action cur \<noteq> Some GUARD_ALLOW"
    by (rule run_ret, erule pinv_sub) (use that al v0 in \<open>auto simp: pair_defs C_def\<close>)
  show ?thesis unfolding restoreTempAction_def Let_def k_def [symmetric]
  proof (rule run_and_then [OF g], rule run_pure)
    fix g :: Guard assume g: "g_resID g = res"
    show "run (pinv r res S G ?C1) (if tw_newAction row = GUARD_ALLOW \<and> er_action cur = Some GUARD_ALLOW then
         and_then (map_del GuardExeActions_update (g_resID g, k)) (\<lambda>_. noteDeny (g_resID g) k)
       else if tw_newAction row = GUARD_BLOCK \<and> er_action cur = Some GUARD_BLOCK \<and> p \<and> \<not> demotedKeyLocked g k then
         putExeAction r k GUARD_ALLOW else ret ()) (\<lambda>_. pinv r res S G ?C3) (pinv r res S G C)"
    proof (cases "er_action cur = Some GUARD_ALLOW")
      case True
      with run_and_then [OF del deny] show ?thesis by (simp add: g act)
    next
      case False
      with none [OF False] show ?thesis by (simp add: act)
    qed
  qed
qed

lemma restoreTempAction_block:
  fixes C K v0 m0 rule res row
  defines "C \<equiv> grantC rule res K v0 m0" and "k \<equiv> tb_Key (tw_bin row)"
  assumes act: "tw_newAction row \<noteq> GUARD_ALLOW" and bl: "\<not> ru_Allow rule" and K: "k \<in> K" and v0: "v0 res k = Some GUARD_ALLOW"
  shows "run (pinv r res S G C) (restoreTempAction r row cur p) (\<lambda>_. pinv r res S G C) (pinv r res S G C)"
proof -
  have put: "keeps (pinv r res S G C) (putExeAction r k GUARD_ALLOW)"
    by (rule putExeAction_pinv) (use K bl v0 in \<open>auto simp: pair_defs C_def\<close>)
  show ?thesis unfolding restoreTempAction_def Let_def k_def [symmetric]
    using act by (auto intro!: keep_rules put)
qed

lemma restoreTempRow_keeps:
  assumes u: "undoable rule res K v0 m0 row" and ap: "tw_applied row"
  shows "keeps (pinv r res S G (grantC rule res K v0 m0)) (restoreTempRowLocked r row)"
proof -
  let ?C = "grantC rule res K v0 m0" and ?k = "tb_Key (tw_bin row)"
  let ?I = "pinv r res S G ?C"
  let ?at = "\<lambda>cur. pinv r res S G (at_key res ?k (\<lambda>v m. v = er_action cur \<and> m = er_mask cur) ?C)"
  have K: "?k \<in> K" and plan: "row_plan rule row" using u by (simp_all add: undoable_def)
  have weak: "?at cur w \<Longrightarrow> ?I w" for cur w by (erule pinv_sub) simp
  have body: "run (?at cur) (and_then (restoreTempAction r row cur p) (\<lambda>_. if b then restoreMask r ?k (er_mask (tw_prior row)) else ret ())) (\<lambda>_. ?I) ?I"
    for cur p b
  proof (cases "ru_Allow rule")
    case True
    let ?C3 = "at_key res ?k (\<lambda>v m. v = None) ?C"
    have v0: "v0 res ?k = None" using u ap True by (simp add: undoable_def)
    have act: "tw_newAction row = GUARD_ALLOW" using plan True by (simp add: row_plan_def)
    have msk: "run (pinv r res S G ?C3) (restoreMask r ?k (er_mask (tw_prior row))) (\<lambda>_. ?I) ?I"
      by (rule restoreMask_pinv) (use K True v0 in \<open>auto simp: pair_defs\<close>)
    have no: "run (pinv r res S G ?C3) (ret ()) (\<lambda>_. ?I) ?I" by (rule run_ret, erule pinv_sub) simp
    show ?thesis by (rule run_and_then [OF restoreTempAction_allow [of row rule K v0 res, OF act True K v0]]) (use msk no in simp)
  next
    case False
    have v0: "v0 res ?k = Some GUARD_ALLOW" and m0: "within (er_mask (tw_prior row)) (m0 res ?k)"
      using u ap False by (simp_all add: undoable_def)
    have act: "tw_newAction row \<noteq> GUARD_ALLOW" using plan False by (auto simp: row_plan_def)
    have msk: "run ?I (restoreMask r ?k (er_mask (tw_prior row))) (\<lambda>_. ?I) ?I"
      by (rule restoreMask_pinv) (use K False v0 m0 in \<open>auto simp: pair_defs\<close>)
    have no: "run ?I (ret ()) (\<lambda>_. ?I) ?I" by (rule run_ret)
    have "run ?I (and_then (restoreTempAction r row cur p) (\<lambda>_. if b then restoreMask r ?k (er_mask (tw_prior row)) else ret ())) (\<lambda>_. ?I) ?I"
      by (rule run_and_then [OF restoreTempAction_block [of row rule K v0 res, OF act False K v0]]) (use msk no in simp)
    then show ?thesis by (rule run_pre) (rule weak)
  qed
  have stop: "run (?at cur) (ret ()) (\<lambda>_. ?I) ?I" for cur by (rule run_ret) (rule weak)
  have dep: "run (?at cur) (get f) (\<lambda>_. ?at cur) ?I" for cur and f :: "world \<Rightarrow> bool" by (rule run_get)
  show ?thesis unfolding restoreTempRowLocked_def Let_def
    by (rule run_and_then [OF readExeRow_at], rule run_and_then [OF dep], rule run_if, rule stop, rule body)
qed

lemma revoke_row_keeps:
  assumes "undoable rule res K v0 m0 row"
  shows "keeps (pinv r res S G (grantC rule res K v0 m0)) (revoke_row r live row)"
proof (cases "tw_applied row")
  case True
  show ?thesis unfolding revoke_row_def using True
    by (auto intro!: keep_rules attempt_keeps restoreTempRow_keeps [OF assms True] untrust_pinv)
qed (simp add: revoke_row_def keep_rules)

lemma revoke_rows_keeps:
  assumes "\<forall>row \<in> set rows'. undoable rule res K v0 m0 row"
  shows "keeps (pinv r res S G (grantC rule res K v0 m0)) (revoke_rows r live rows')"
  using assms
proof (induction rows')
  case (Cons row rows')
  then have "keeps (pinv r res S G (grantC rule res K v0 m0)) (revoke_rows r live rows')"
    "keeps (pinv r res S G (grantC rule res K v0 m0)) (revoke_row r live row)" by (simp_all add: revoke_row_keeps)
  then show ?case unfolding revoke_rows.simps by (intro keep_rules)
qed (simp add: keep_rules)

subsection \<open>Applying rows\<close>

text \<open>What the current row says of the rows before the grant, once it is the planned one.\<close>

lemma prior_facts:
  assumes "pinv r res S G (at_key res k (\<lambda>v m. v = er_action prior \<and> m = er_mask prior) (grantC rule res K v0 m0)) w"
    and "map_of S res \<noteq> None"
  shows "er_action prior = None \<Longrightarrow> ru_Allow rule \<Longrightarrow> v0 res k = None"
    and "er_action prior = Some GUARD_ALLOW \<Longrightarrow> \<not> ru_Allow rule \<Longrightarrow> v0 res k = Some GUARD_ALLOW \<and> within (er_mask prior) (m0 res k)"
proof -
  from assms have "at_key res k (\<lambda>v m. v = er_action prior \<and> m = er_mask prior) (grantC rule res K v0 m0) res k
      (rows w res k) (map_of (GuardExeEvents w) (res, k))" unfolding pinv_def by blast
  then have "grantC rule res K v0 m0 res k (er_action prior) (er_mask prior)" by (auto simp: at_key_def)
  then show "er_action prior = None \<Longrightarrow> ru_Allow rule \<Longrightarrow> v0 res k = None"
    and "er_action prior = Some GUARD_ALLOW \<Longrightarrow> \<not> ru_Allow rule \<Longrightarrow> v0 res k = Some GUARD_ALLOW \<and> within (er_mask prior) (m0 res k)"
    by (auto simp: grantC_def split: if_splits)
qed

lemma writeTempRow_run:
  assumes u: "undoable rule res K v0 m0 row" and ap: "tw_applied row"
  shows "run (pinv r res S G (at_key res (tb_Key (tw_bin row)) (\<lambda>v m. v = er_action (tw_prior row) \<and> m = er_mask (tw_prior row)) (grantC rule res K v0 m0)))
     (writeTempRow r trust row) (\<lambda>(row', e) w. pinv r res S G (grantC rule res K v0 m0) w \<and> undoable rule res K v0 m0 row') (\<lambda>_. False)"
proof -
  let ?C = "grantC rule res K v0 m0" and ?k = "tb_Key (tw_bin row)"
  let ?I = "pinv r res S G ?C" and ?Q = "\<lambda>(row', e :: gerr option) w. pinv r res S G (grantC rule res K v0 m0) w \<and> undoable rule res K v0 m0 row'"
  have K: "?k \<in> K" and plan: "row_plan rule row" using u by (simp_all add: undoable_def)
  have stop: "run ?I (ret (row', e)) ?Q (\<lambda>_. False)" if "undoable rule res K v0 m0 row'" for row' e
    by (rule run_ret) (use that in simp)
  show ?thesis
  proof (cases "ru_Allow rule")
    case True
    let ?C2 = "at_key res ?k (\<lambda>v m. v = None \<and> m = granted_mask rule) ?C"
    have v0: "v0 res ?k = None" using u ap True by (simp add: undoable_def)
    have act: "tw_newAction row = GUARD_ALLOW" "er_action (tw_prior row) = None" using plan True by (simp_all add: row_plan_def)
    have put: "run (pinv r res S G ?C2) (putExeAction r ?k GUARD_ALLOW) (\<lambda>_. ?I) ?I"
      by (rule putExeAction_pinv) (use K True v0 in \<open>auto simp: pair_defs\<close>)
    have weak: "pinv r res S G ?C2 w \<Longrightarrow> ?I w" for w by (erule pinv_sub) simp
    have put': "run (\<lambda>w. pinv r res S G ?C2 w \<and> same_plan row row') (and_then (attempt (putExeAction r ?k GUARD_ALLOW))
        (\<lambda>z. ret (row', case z of Inl e \<Rightarrow> Some e | Inr _ \<Rightarrow> None))) ?Q (\<lambda>_. False)" for row'
    proof (rule run_pure, rule run_and_then [OF run_attempt [OF put]])
      fix z assume "same_plan row row'"
      then have "undoable rule res K v0 m0 row'" using u by (simp add: same_plan_undoable)
      then show "run (\<lambda>w. case z of Inl _ \<Rightarrow> ?I w | Inr y \<Rightarrow> ?I w) (ret (row', case z of Inl e \<Rightarrow> Some e | Inr _ \<Rightarrow> None)) ?Q (\<lambda>_. False)"
        using stop by (cases z) simp_all
    qed
    have tr: "run (pinv r res S G ?C2) (and_then (attempt (trustTempRuntime row trust)) (\<lambda>y. case y of
           Inl e \<Rightarrow> ret (row, Some e)
         | Inr row' \<Rightarrow> and_then (attempt (putExeAction r ?k GUARD_ALLOW)) (\<lambda>z.
             ret (row', case z of Inl e \<Rightarrow> Some e | Inr _ \<Rightarrow> None)))) ?Q (\<lambda>_. False)"
      by (rule run_and_then [OF run_attempt [OF trust_pinv]])
        (auto split: sum.split intro: put' run_pre [OF stop [OF u]] weak)
    show ?thesis unfolding writeTempRow_def act(2)
      by (rule run_and_then [OF run_attempt [OF write_masks_allow [of rule row K v0 res, OF plan True K v0]]])
        (use stop [OF u] tr in \<open>auto simp: act split: sum.split\<close>)
  next
    case False
    have v0: "v0 res ?k = Some GUARD_ALLOW" and m0: "within (er_mask (tw_prior row)) (m0 res ?k)"
      using u ap False by (simp_all add: undoable_def)
    have act: "tw_newAction row \<noteq> GUARD_ALLOW" "er_action (tw_prior row) = Some GUARD_ALLOW" using plan False by (auto simp: row_plan_def)
    show ?thesis unfolding writeTempRow_def act(2)
      by (rule run_and_then [OF run_attempt [OF write_masks_block [of rule row K v0 res m0, OF plan False K v0 m0]]])
        (use stop [OF u] act in \<open>auto split: sum.split\<close>)
  qed
qed

lemma applyTempRow_run:
  assumes plan: "row_plan rule row" and K: "tb_Key (tw_bin row) \<in> K" and na: "\<not> tw_applied row" and live: "map_of S res \<noteq> None"
  shows "run (pinv r res S G (grantC rule res K v0 m0)) (applyTempRow r trust row)
     (\<lambda>(row', e) w. pinv r res S G (grantC rule res K v0 m0) w \<and> undoable rule res K v0 m0 row') (\<lambda>_. False)"
proof -
  let ?C = "grantC rule res K v0 m0" and ?k = "tb_Key (tw_bin row)"
  let ?I = "pinv r res S G ?C" and ?Q = "\<lambda>(row', e :: gerr option) w. pinv r res S G (grantC rule res K v0 m0) w \<and> undoable rule res K v0 m0 row'"
  let ?at = "\<lambda>cur. pinv r res S G (at_key res ?k (\<lambda>v m. v = er_action cur \<and> m = er_mask cur) ?C)"
  have u: "undoable rule res K v0 m0 row" using plan K na by (simp add: undoable_def)
  have stop: "run ?I (ret (row, e)) ?Q (\<lambda>_. False)" for e by (rule run_ret) (use u in simp)
  have stop': "run (?at cur) (ret (row, e)) ?Q (\<lambda>_. False)" for cur e
    by (rule run_pre [OF stop], erule pinv_sub) simp
  have go: "run (?at (tw_prior row)) (writeTempRow r trust (row\<lparr>tw_applied := True\<rparr>)) ?Q (\<lambda>_. False)"
  proof -
    have "undoable rule res K v0 m0 (row\<lparr>tw_applied := True\<rparr>)" if "?at (tw_prior row) w" for w
    proof -
      have "row_plan rule (row\<lparr>tw_applied := True\<rparr>)" using plan by (simp add: row_plan_def cong: option.case_cong)
      moreover have "ru_Allow rule \<Longrightarrow> er_action (tw_prior row) = None" "\<not> ru_Allow rule \<Longrightarrow> er_action (tw_prior row) = Some GUARD_ALLOW"
        using plan by (simp_all add: row_plan_def)
      ultimately show ?thesis using prior_facts [OF that live] K by (simp add: undoable_def)
    qed
    note ok = this
    have "run (\<lambda>w. ?at (tw_prior row) w \<and> undoable rule res K v0 m0 (row\<lparr>tw_applied := True\<rparr>))
        (writeTempRow r trust (row\<lparr>tw_applied := True\<rparr>)) ?Q (\<lambda>_. False)"
    proof (rule run_pure)
      assume "undoable rule res K v0 m0 (row\<lparr>tw_applied := True\<rparr>)"
      from writeTempRow_run [OF this, of r S G trust]
      show "run (?at (tw_prior row)) (writeTempRow r trust (row\<lparr>tw_applied := True\<rparr>)) ?Q (\<lambda>_. False)" by simp
    qed
    then show ?thesis by (rule run_pre) (use ok in blast)
  qed
  have body: "run (\<lambda>w. case x of Inl _ \<Rightarrow> ?I w | Inr cur \<Rightarrow> ?at cur w) (case x of Inl e \<Rightarrow> ret (row, Some e)
     | Inr cur \<Rightarrow> if cur \<noteq> tw_prior row then ret (row, Some RowMoved) else writeTempRow r trust (row\<lparr>tw_applied := True\<rparr>)) ?Q (\<lambda>_. False)" for x
  proof (cases x)
    case (Inl e)
    then show ?thesis using stop by simp
  next
    case (Inr cur)
    show ?thesis unfolding Inr sum.case
    proof (rule run_if)
      assume "\<not> cur \<noteq> tw_prior row"
      then show "run (?at cur) (writeTempRow r trust (row\<lparr>tw_applied := True\<rparr>)) ?Q (\<lambda>_. False)" using go by (simp only: not_not)
    qed (rule stop')
  qed
  show ?thesis unfolding applyTempRow_def by (rule run_and_then [OF run_attempt [OF readExeRow_at]]) (rule body)
qed

definition fresh_rows :: "TempRule \<Rightarrow> GuardInodeKey set \<Rightarrow> tempRow list \<Rightarrow> bool" where
  "fresh_rows rule K rs \<longleftrightarrow> (\<forall>row \<in> set rs. row_plan rule row \<and> tb_Key (tw_bin row) \<in> K \<and> \<not> tw_applied row)"

lemma fresh_undoable: "fresh_rows rule K rs \<Longrightarrow> row \<in> set rs \<Longrightarrow> undoable rule res K v0 m0 row"
  by (simp add: fresh_rows_def undoable_def)

lemma apply_rows_run:
  assumes "fresh_rows rule K rs" and live: "map_of S res \<noteq> None"
  shows "run (pinv r res S G (grantC rule res K v0 m0)) (apply_rows r trust rs)
     (\<lambda>(rs', e) w. pinv r res S G (grantC rule res K v0 m0) w \<and> (\<forall>row \<in> set rs'. undoable rule res K v0 m0 row)) (\<lambda>_. False)"
  using assms(1)
proof (induction rs)
  case Nil
  show ?case by (simp add: run_def ret_def)
next
  case (Cons row rs)
  let ?I = "pinv r res S G (grantC rule res K v0 m0)" and ?u = "undoable rule res K v0 m0"
  let ?Q = "\<lambda>(rs', e :: gerr option) w. pinv r res S G (grantC rule res K v0 m0) w \<and> (\<forall>row \<in> set rs'. undoable rule res K v0 m0 row)"
  have rest: "fresh_rows rule K rs" and one: "row_plan rule row" "tb_Key (tw_bin row) \<in> K" "\<not> tw_applied row"
    using Cons.prems by (simp_all add: fresh_rows_def)
  have tl: "run ?I (and_then (apply_rows r trust rs) (\<lambda>(rs', e). ret (row' # rs', e))) ?Q (\<lambda>_. False)" if "?u row'" for row'
    by (rule run_and_then [OF Cons.IH [OF rest]]) (use that in \<open>auto simp: run_def ret_def\<close>)
  have stop: "run ?I (ret (row' # rs, Some e)) ?Q (\<lambda>_. False)" if "?u row'" for row' e
    by (rule run_ret) (use that fresh_undoable [OF rest] in auto)
  have body: "run (\<lambda>w. (case p of (row', e :: gerr option) \<Rightarrow> \<lambda>w. ?I w \<and> ?u row') w) (case p of (row', e) \<Rightarrow> case e of
       Some e \<Rightarrow> ret (row' # rs, Some e)
     | None \<Rightarrow> and_then (apply_rows r trust rs) (\<lambda>(rs', e). ret (row' # rs', e))) ?Q (\<lambda>_. False)" for p
  proof (cases p)
    case (Pair row' e)
    show ?thesis unfolding Pair prod.case
      by (rule run_pure) (cases e, simp_all add: tl stop)
  qed
  show ?case unfolding apply_rows.simps
    by (rule run_and_then [OF applyTempRow_run [OF one live]]) (use body in simp)
qed

lemma Apply_keeps:
  assumes "fresh_rows rule K (tg_rows t)" and "tg_g t = r" and "map_of S res \<noteq> None"
  shows "keeps (pinv r res S G (grantC rule res K v0 m0)) (Apply t)"
proof -
  let ?I = "pinv r res S G (grantC rule res K v0 m0)" and ?u = "undoable rule res K v0 m0"
  have undo: "keeps ?I (revokeLocked (t\<lparr>tg_rows := rs\<rparr>) trust)" if "\<forall>row \<in> set rs. ?u row" for rs trust
    unfolding revokeLocked_def using that assms(2) by (auto intro!: keep_rules revoke_rows_keeps)
  have body: "run (\<lambda>w. (case p of (rs, e :: gerr option) \<Rightarrow> \<lambda>w. ?I w \<and> (\<forall>row \<in> set rs. ?u row)) w) (case p of (rs, e) \<Rightarrow> case e of
       None \<Rightarrow> ret (t\<lparr>tg_rows := rs\<rparr>, None)
     | Some e \<Rightarrow> and_then (revokeLocked (t\<lparr>tg_rows := rs\<rparr>) trust) (\<lambda>(t', _). ret (t', Some e))) (\<lambda>_. ?I) ?I" for p trust
  proof (cases p)
    case (Pair rs e)
    show ?thesis unfolding Pair prod.case
      by (rule run_pure) (cases e, auto intro!: keep_rules undo)
  qed
  have app: "run ?I (apply_rows (tg_g t) trust (tg_rows t)) (\<lambda>(rs, e) w. ?I w \<and> (\<forall>row \<in> set rs. ?u row)) ?I" for trust
    unfolding assms(2) by (rule run_post [OF apply_rows_run [OF assms(1,3)]]) simp_all
  show ?thesis unfolding Apply_def
    by (intro keep_rules run_and_then [OF app]) (use body in simp)
qed

subsection \<open>The plan\<close>

lemma planTempAllow_plan:
  assumes "ru_Allow rule" and "planTempAllow (new_row b prior) (ru_Events rule) = Inr (Some row)"
  shows "row_plan rule row \<and> tw_bin row = b \<and> \<not> tw_applied row"
  using assms by (auto simp: planTempAllow_def new_row_def row_plan_def granted_mask_def Let_def split: option.splits if_splits sum.splits)

lemma planTempBlock_plan:
  assumes "\<not> ru_Allow rule" and "planTempBlock (new_row b prior) (ru_Events rule) = Inr (Some row)"
  shows "row_plan rule row \<and> tw_bin row = b \<and> \<not> tw_applied row"
  using assms by (auto simp: planTempBlock_def new_row_def row_plan_def mask_bits_def Let_def split: if_splits sum.splits)

lemma plan_binary_run:
  "run (\<lambda>_. True) (plan_binary r rule s b) (\<lambda>row _. \<forall>x. row = Some x \<longrightarrow> row_plan rule x \<and> tw_bin x = b \<and> \<not> tw_applied x) (\<lambda>_. True)"
proof -
  have lift: "run (\<lambda>_. True) (lift_sum id ((if ru_Allow rule then planTempAllow else planTempBlock) (new_row b prior) (ru_Events rule)))
      (\<lambda>row _. \<forall>x. row = Some x \<longrightarrow> row_plan rule x \<and> tw_bin x = b \<and> \<not> tw_applied x) (\<lambda>_. True)" for prior
    by (rule run_lift_sum) (auto dest: planTempAllow_plan planTempBlock_plan split: if_splits)
  have any: "run (\<lambda>_. True) m (\<lambda>_ _. True) (\<lambda>_. True)" for m :: "'a act"
    by (simp add: run_def split: prod.splits sum.splits)
  show ?thesis unfolding plan_binary_def
    by (rule run_if, rule run_fail, simp, rule run_and_then [OF any], rule run_if, rule run_fail, simp,
        rule run_and_then [OF any], rule lift)
qed

lemma run_given: "(A \<Longrightarrow> run (\<lambda>_. True) m Q E) \<Longrightarrow> run (\<lambda>_. A) m Q E"
  by (simp add: run_def)

lemma plan_rows_run:
  assumes "fresh_rows rule K (tg_rows t)" and "tb_Key ` set bs \<subseteq> K"
  shows "run (\<lambda>_. True) (plan_rows r rule s t bs) (\<lambda>t' _. fresh_rows rule K (tg_rows t') \<and> tg_g t' = tg_g t \<and> tg_revoked t' = tg_revoked t) (\<lambda>_. True)"
  using assms
proof (induction bs arbitrary: t)
  case Nil
  then show ?case by (simp add: run_def ret_def)
next
  case (Cons b bs)
  let ?t = "\<lambda>row gpath. case row of None \<Rightarrow> t\<lparr>tg_report := tg_report t @ [tempSkipReason gpath b rule]\<rparr>
     | Some row \<Rightarrow> t\<lparr>tg_rows := tg_rows t @ [row]\<rparr>"
  have path: "run (\<lambda>_. True) (get f) (\<lambda>_ _. True) (\<lambda>_. True)" for f :: "world \<Rightarrow> string" by (rule run_get) simp
  let ?Q = "\<lambda>t' _. fresh_rows rule K (tg_rows t') \<and> tg_g t' = tg_g t \<and> tg_revoked t' = tg_revoked t"
  have body: "run (\<lambda>_. \<forall>x. row = Some x \<longrightarrow> row_plan rule x \<and> tw_bin x = b \<and> \<not> tw_applied x)
      (and_then (get (\<lambda>w. g_path (w_guards w r))) (\<lambda>gpath. plan_rows r rule s (?t row gpath) bs)) ?Q (\<lambda>_. True)" for row
  proof (rule run_given)
    assume row: "\<forall>x. row = Some x \<longrightarrow> row_plan rule x \<and> tw_bin x = b \<and> \<not> tw_applied x"
    have "run (\<lambda>_. True) (plan_rows r rule s (?t row gpath) bs) ?Q (\<lambda>_. True)" for gpath
    proof -
      have K: "tb_Key b \<in> K" "tb_Key ` set bs \<subseteq> K" using Cons.prems(2) by auto
      have fresh: "fresh_rows rule K (tg_rows (?t row gpath))"
      proof (cases row)
        case None
        then show ?thesis using Cons.prems(1) by simp
      next
        case (Some x)
        from row Some have x: "row_plan rule x \<and> tw_bin x = b \<and> \<not> tw_applied x" by blast
        with Some Cons.prems(1) K(1) show ?thesis by (simp add: fresh_rows_def)
      qed
      have g: "tg_g (?t row gpath) = tg_g t" "tg_revoked (?t row gpath) = tg_revoked t" by (cases row, simp_all)+
      from Cons.IH [OF fresh K(2)] show ?thesis unfolding g .
    qed
    then show "run (\<lambda>_. True) (and_then (get (\<lambda>w. g_path (w_guards w r))) (\<lambda>gpath. plan_rows r rule s (?t row gpath) bs)) ?Q (\<lambda>_. True)"
      by (rule run_and_then [OF path])
  qed
  show ?case unfolding plan_rows.simps
    by (rule run_and_then [where R = "\<lambda>row _. \<forall>x. row = Some x \<longrightarrow> row_plan rule x \<and> tw_bin x = b \<and> \<not> tw_applied x"])
      (rule plan_binary_run, rule body)
qed

lemma Plan_fresh:
  assumes "PlanTemporaryGrant r bins rule w = (Inr t, w')"
  shows "fresh_rows rule (tb_Key ` set bins) (tg_rows t)" and "tg_g t = r" and "\<not> tg_revoked t"
proof -
  let ?t = "\<lparr>tg_g = r, tg_rows = [], tg_report = [], tg_revoked = False\<rparr>"
  from assms have "plan_rows r rule (g_selfKey (w_guards w r)) ?t bins w = (Inr t, w')"
    by (simp add: PlanTemporaryGrant_def and_then_get fail_def split: if_splits)
  from run_Inr [OF plan_rows_run [where K = "tb_Key ` set bins"] TrueI this]
  show "fresh_rows rule (tb_Key ` set bins) (tg_rows t)" and "tg_g t = r" and "\<not> tg_revoked t" by (simp_all add: fresh_rows_def)
qed

text \<open>The events a process running \<open>exe\<close> may perform at a resource, by its row and mask.\<close>

definition pair_events :: "bool \<Rightarrow> u8 option \<Rightarrow> u32 option \<Rightarrow> u32" where
  "pair_events root v m = (case v of None \<Rightarrow> 0 | Some a \<Rightarrow> if grants a root then mask_bits m else 0)"

definition events_of :: "world \<Rightarrow> nat \<Rightarrow> GuardInodeKey \<Rightarrow> bool \<Rightarrow> u32" where
  "events_of w slot exe root = pair_events root (rows w slot exe) (map_of (GuardExeEvents w) (slot, exe))"

lemma and_not_or_zero: "a AND NOT b = 0 \<Longrightarrow> a AND NOT (b OR c) = (0 :: u32)"
  by (auto simp: bit_eq_iff bit_simps)

lemma pair_events_simps [simp]:
  "pair_events root None m = 0" "pair_events root (Some GUARD_ALLOW) m = mask_bits m" "pair_events root (Some GUARD_BLOCK) m = 0"
  by (simp_all add: pair_events_def grants_def)

lemma grantC_events:
  assumes "grantC rule res K v0 m0 slot exe v m"
  shows "pair_events root v m AND NOT (pair_events root (v0 slot exe) (m0 slot exe) OR
    (if ru_Allow rule \<and> slot = res \<and> exe \<in> K then mask_bits (granted_mask rule) else 0)) = 0"
proof -
  from assms consider "v = v0 slot exe" "m = m0 slot exe"
    | "slot = res" "exe \<in> K" "ru_Allow rule" "v = None \<or> v = Some GUARD_ALLOW \<and> m = granted_mask rule" "v0 slot exe = None"
    | "v0 slot exe = Some GUARD_ALLOW" "v = Some GUARD_BLOCK \<or> v = Some GUARD_ALLOW" "within m (m0 slot exe)"
    unfolding grantC_def by (metis (full_types))
  then show ?thesis
  proof cases
    case 1
    show ?thesis unfolding 1 by (rule and_not_or_zero) simp
  next
    case 2
    then show ?thesis by (elim disjE conjE) simp_all
  next
    case 3
    have "pair_events root v m AND NOT (mask_bits (m0 slot exe)) = 0"
      using 3(2,3) by (elim disjE) (simp_all add: within_def)
    then show ?thesis unfolding 3(1) pair_events_simps by (rule and_not_or_zero)
  qed
qed

text \<open>
  C10. Applying a temporary grant never admits more than was admitted before together with what the rule
  grants to the listed binaries: for every binary and live resource, each event allowed afterwards was
  allowed before, or the rule is an allow, the binary is listed and the event is one it grants. A
  block rule therefore widens nothing. This holds for a grant applied in any state after its planning,
  when it succeeds and when it fails and takes its writes back, whichever map operations fail on the way.
\<close>

theorem Apply_never_wider:
  assumes "sets_ok w" and "map_of (e_slots w) resGlobal = None" and "g_mode (w_guards w r) = ModeWhitelist"
    and res: "map_of (e_slots w) (g_resID (w_guards w r)) \<noteq> None"
    and plan: "PlanTemporaryGrant r bins rule w0 = (Inr t, w1)" and run: "Apply t w = (x, w')"
    and live: "map_of (e_slots w) slot \<noteq> None"
  shows "events_of w' slot exe root AND NOT (events_of w slot exe root OR
    (if ru_Allow rule \<and> slot = g_resID (w_guards w r) \<and> exe \<in> tb_Key ` set bins then mask_bits (granted_mask rule) else 0)) = 0"
proof -
  let ?res = "g_resID (w_guards w r)" and ?m0 = "\<lambda>slot exe. map_of (GuardExeEvents w) (slot, exe)"
  let ?C = "grantC rule ?res (tb_Key ` set bins) (rows w) ?m0"
  have inv: "pinv r ?res (e_slots w) (w_guards w) ?C w" using assms(1-3) by (simp add: pinv_def guard_inv_def grantC_def)
  from keeps_Inr [OF Apply_keeps [OF Plan_fresh(1,2) [OF plan] res] inv run] live
  have "?C slot exe (rows w' slot exe) (map_of (GuardExeEvents w') (slot, exe))" by (simp add: pinv_def)
  then show ?thesis unfolding events_of_def by (rule grantC_events)
qed

end
