(* ===== verification/Temp_Roundtrip.thy ===== *)
theory Temp_Roundtrip
  imports Temp_Facts
begin

text \<open>
  Temporary grants: applying one and revoking it again. The whitelist state of the live resources is
  followed exactly, row by row.
\<close>

subsection \<open>Apply and revoke\<close>

text \<open>The whitelist state of live resources, exactly.\<close>

type_synonym pairs = "rkey \<Rightarrow> u8 option \<times> u32 option"

definition exactly :: "pairs \<Rightarrow> pair_pred" where
  "exactly p slot exe v m \<longleftrightarrow> p (slot, exe) = (v, m)"

definition final_pair :: "tempRow \<Rightarrow> u8 option \<times> u32 option" where
  "final_pair row = (if tw_newAction row = 0 then er_action (tw_prior row) else Some (tw_newAction row),
     case tw_maskOp row of maskKeep \<Rightarrow> er_mask (tw_prior row) | maskPut \<Rightarrow> Some (tw_newMask row) | maskDelete \<Rightarrow> None)"

definition prior_pair :: "tempRow \<Rightarrow> u8 option \<times> u32 option" where
  "prior_pair row = (er_action (tw_prior row), er_mask (tw_prior row))"

definition row_key :: "nat \<Rightarrow> tempRow \<Rightarrow> rkey" where
  "row_key res row = (res, tb_Key (tw_bin row))"

definition some_state :: "nat \<Rightarrow> nat \<Rightarrow> (nat, nat) gomap \<Rightarrow> (nat \<Rightarrow> Guard) \<Rightarrow> world \<Rightarrow> bool" where
  "some_state r res S G = pinv r res S G (\<lambda>_ _ _ _. True)"

lemma sub_any: "sub C (\<lambda>_ _ _ _. True)"
  by (simp add: sub_def)

lemma exact_some: "pinv r res S G C w \<Longrightarrow> some_state r res S G w"
  unfolding some_state_def by (erule pinv_sub) (rule sub_any)

lemma moves_exactly:
  "p (res, k) = (v, m) \<Longrightarrow> moves res k f h (exactly p) (exactly (p((res, k) := (f v, h m))))"
  by (auto simp: moves_def exactly_def)

lemma putExeAction_exact:
  assumes "p (res, k) = (v, m)"
  shows "run (pinv r res S G (exactly p)) (putExeAction r k a) (\<lambda>_. pinv r res S G (exactly (p((res, k) := (Some a, m))))) (some_state r res S G)"
  unfolding some_state_def using moves_exactly [of p res k v m "\<lambda>_. Some a" id, OF assms]
  by (intro putExeAction_pinv sub_any) simp

lemma restoreMask_exact:
  assumes "p (res, k) = (v, m)"
  shows "run (pinv r res S G (exactly p)) (restoreMask r k had) (\<lambda>_. pinv r res S G (exactly (p((res, k) := (v, had))))) (some_state r res S G)"
  unfolding some_state_def using moves_exactly [of p res k v m id "\<lambda>_. had", OF assms]
  by (intro restoreMask_pinv sub_any) simp

lemma delete_exact:
  assumes "p (res, k) = (v, m)"
  shows "run (pinv r res S G (exactly p)) (and_then (map_del GuardExeActions_update (res, k)) (\<lambda>_. noteDeny res k))
    (\<lambda>_. pinv r res S G (exactly (p((res, k) := (None, m))))) (some_state r res S G)"
proof (rule run_and_then)
  have mv: "moves res k (\<lambda>_. None) id (exactly p) (exactly (p((res, k) := (None, m))))"
    using moves_exactly [of p res k v m "\<lambda>_. None" id, OF assms] by simp
  show "run (pinv r res S G (exactly p)) (map_del GuardExeActions_update (res, k)) (\<lambda>_. pinv r res S G (exactly (p((res, k) := (None, m))))) (some_state r res S G)"
    by (rule run_map_del) (auto intro: exact_some pinv_del [OF _ mv])
  show "run (pinv r res S G (exactly (p((res, k) := (None, m))))) (noteDeny res k) (\<lambda>_. pinv r res S G (exactly (p((res, k) := (None, m))))) (some_state r res S G)" for x
    unfolding some_state_def
    by (rule run_sub [OF _ sub_any], rule pinv_keeps) (simp_all add: noteDeny_keeps sides.noteDeny_part)
qed

lemma read_exact:
  assumes live: "map_of S res \<noteq> None"
  shows "run (pinv r res S G (exactly p)) (readExeRow r k)
    (\<lambda>row w. pinv r res S G (exactly p) w \<and> p (res, k) = (er_action row, er_mask row)) (some_state r res S G)"
proof (rule run_post [OF readExeRow_at])
  fix row w assume a: "pinv r res S G (at_key res k (\<lambda>v m. v = er_action row \<and> m = er_mask row) (exactly p)) w"
  from a have "pinv r res S G (exactly p) w" by (erule_tac pinv_sub) simp
  moreover from a live have "at_key res k (\<lambda>v m. v = er_action row \<and> m = er_mask row) (exactly p) res k
      (rows w res k) (map_of (GuardExeEvents w) (res, k))" unfolding pinv_def by blast
  ultimately show "pinv r res S G (exactly p) w \<and> p (res, k) = (er_action row, er_mask row)"
    by (simp add: at_key_def exactly_def)
qed (rule exact_some)

lemma write_masks_exact:
  assumes plan: "row_plan rule row" and p: "p (row_key res row) = prior_pair row"
  shows "run (pinv r res S G (exactly p)) (write_masks r row)
    (\<lambda>_. pinv r res S G (exactly (p(row_key res row := (if tw_newAction row = GUARD_ALLOW then er_action (tw_prior row) else fst (final_pair row), snd (final_pair row))))))
    (some_state r res S G)"
proof -
  let ?k = "tb_Key (tw_bin row)" and ?v = "er_action (tw_prior row)" and ?m = "er_mask (tw_prior row)"
  have p': "p (res, ?k) = (?v, ?m)" using p by (simp add: row_key_def prior_pair_def)
  have none: "run (pinv r res S G (exactly q)) (ret ()) (\<lambda>_. pinv r res S G (exactly q)) (some_state r res S G)" for q
    by (rule run_ret)
  have idp: "p((res, ?k) := (?v, ?m)) = p" using p' by auto
  from plan consider "tw_newAction row = GUARD_BLOCK" "tw_maskOp row = maskKeep" | "tw_newAction row \<noteq> GUARD_BLOCK"
    "tw_newAction row = 0 \<or> tw_newAction row = GUARD_ALLOW"
    by (auto simp: row_plan_def split: if_splits)
  then show ?thesis
  proof cases
    case 1
    then show ?thesis using run_and_then [OF putExeAction_exact [of p res ?k ?v ?m, OF p'] none]
      by (simp add: write_masks_def final_pair_def row_key_def)
  next
    case 2
    then show ?thesis using run_and_then [OF none restoreMask_exact [of p res ?k ?v ?m, OF p']] run_and_then [OF none none]
      by (cases "tw_maskOp row") (auto simp: write_masks_def final_pair_def row_key_def idp)
  qed
qed

text \<open>A row written without error.\<close>

definition wrote :: "nat \<Rightarrow> nat \<Rightarrow> (nat, nat) gomap \<Rightarrow> (nat \<Rightarrow> Guard) \<Rightarrow> pairs \<Rightarrow> tempRow \<Rightarrow> tempRow \<times> gerr option \<Rightarrow> world \<Rightarrow> bool" where
  "wrote r res S G p row x w \<longleftrightarrow> some_state r res S G w \<and> (snd x = None \<longrightarrow>
     pinv r res S G (exactly (p(row_key res row := final_pair row))) w \<and> p (row_key res row) = prior_pair row \<and>
     same_plan (row\<lparr>tw_applied := True\<rparr>) (fst x))"

lemma wrote_error: "some_state r res S G w \<Longrightarrow> wrote r res S G p row (row', Some e) w"
  by (simp add: wrote_def)

lemma some_keeps_ret: "run (some_state r res S G) (ret (row', Some e)) (wrote r res S G p row) (\<lambda>_. False)"
  by (rule run_ret) (rule wrote_error)

lemma final_pair_applied [simp]: "final_pair (row\<lparr>tw_applied := b\<rparr>) = final_pair row" "prior_pair (row\<lparr>tw_applied := b\<rparr>) = prior_pair row"
  "row_key res (row\<lparr>tw_applied := b\<rparr>) = row_key res row"
  by (simp_all add: final_pair_def prior_pair_def row_key_def split: tempMaskOp.split)

lemma row_plan_applied [simp]: "row_plan rule (row\<lparr>tw_applied := b\<rparr>) = row_plan rule row"
  by (simp add: row_plan_def cong: option.case_cong)

lemma put_allow_exact:
  assumes p: "p (row_key res row) = prior_pair row" and same: "same_plan (row\<lparr>tw_applied := True\<rparr>) row'"
    and fin: "final_pair row = (Some GUARD_ALLOW, m)"
  shows "run (pinv r res S G (exactly (p(row_key res row := (v, m))))) (and_then (attempt (putExeAction r (tb_Key (tw_bin row)) GUARD_ALLOW))
        (\<lambda>z. ret (row', case z of Inl e \<Rightarrow> Some e | Inr _ \<Rightarrow> None))) (wrote r res S G p row) (\<lambda>_. False)"
proof -
  let ?k = "tb_Key (tw_bin row)" and ?p = "p(row_key res row := (v, m))"
  have "?p (res, ?k) = (v, m)" by (simp add: row_key_def)
  note put = putExeAction_exact [of ?p res ?k v m r S G GUARD_ALLOW, OF this]
  have up: "?p((res, ?k) := (Some GUARD_ALLOW, m)) = p(row_key res row := final_pair row)" by (simp add: row_key_def fin)
  have ok: "run (pinv r res S G (exactly (p(row_key res row := final_pair row)))) (ret (row', None)) (wrote r res S G p row) (\<lambda>_. False)"
    by (rule run_ret) (use p same in \<open>simp add: wrote_def exact_some\<close>)
  have body: "run (\<lambda>w. case z of Inl _ \<Rightarrow> some_state r res S G w | Inr _ \<Rightarrow> pinv r res S G (exactly (p(row_key res row := final_pair row))) w)
      (ret (row', case z of Inl e \<Rightarrow> Some e | Inr _ \<Rightarrow> None)) (wrote r res S G p row) (\<lambda>_. False)" for z :: "gerr + unit"
    using ok some_keeps_ret by (cases z) simp_all
  show ?thesis by (rule run_and_then [OF run_attempt [OF put [unfolded up]]]) (rule body)
qed

lemma writeTempRow_exact:
  assumes plan: "row_plan rule row" and p: "p (row_key res row) = prior_pair row"
  shows "run (pinv r res S G (exactly p)) (writeTempRow r trust (row\<lparr>tw_applied := True\<rparr>)) (wrote r res S G p row) (\<lambda>_. False)"
proof -
  let ?row = "row\<lparr>tw_applied := True\<rparr>"
  let ?v = "if tw_newAction row = GUARD_ALLOW then er_action (tw_prior row) else fst (final_pair row)"
  let ?p = "p(row_key res row := (?v, snd (final_pair row)))"
  have p': "p (row_key res ?row) = prior_pair ?row" using p by simp
  have plan': "row_plan rule ?row" using plan by simp
  have wm: "run (pinv r res S G (exactly p)) (write_masks r ?row) (\<lambda>_. pinv r res S G (exactly ?p)) (some_state r res S G)"
    using write_masks_exact [of rule ?row p res r S G, OF plan' p']
    by (simp cong: if_cong split del: if_split)
  have tr: "run (pinv r res S G (exactly ?p)) (and_then (attempt (trustTempRuntime ?row trust)) (\<lambda>y. case y of
           Inl e \<Rightarrow> ret (?row, Some e)
         | Inr row' \<Rightarrow> and_then (attempt (putExeAction r (tb_Key (tw_bin ?row)) GUARD_ALLOW)) (\<lambda>z.
             ret (row', case z of Inl e \<Rightarrow> Some e | Inr _ \<Rightarrow> None)))) (wrote r res S G p row) (\<lambda>_. False)"
    if al: "tw_newAction row = GUARD_ALLOW"
  proof -
    have fin: "final_pair row = (Some GUARD_ALLOW, snd (final_pair row))" using al by (simp add: final_pair_def)
    have go: "run (\<lambda>w. pinv r res S G (exactly ?p) w \<and> same_plan ?row row') (and_then (attempt (putExeAction r (tb_Key (tw_bin ?row)) GUARD_ALLOW)) (\<lambda>z.
             ret (row', case z of Inl e \<Rightarrow> Some e | Inr _ \<Rightarrow> None))) (wrote r res S G p row) (\<lambda>_. False)" for row'
      by (rule run_pure) (use put_allow_exact [of p res row row' "snd (final_pair row)", OF p _ fin] in simp)
    have stop: "run (pinv r res S G (exactly ?p)) (ret (?row, Some e)) (wrote r res S G p row) (\<lambda>_. False)" for e
      by (rule run_pre [OF some_keeps_ret]) (rule exact_some)
    have "run (\<lambda>w. case y of Inl _ \<Rightarrow> pinv r res S G (exactly ?p) w | Inr row' \<Rightarrow> pinv r res S G (exactly ?p) w \<and> same_plan ?row row')
        (case y of Inl e \<Rightarrow> ret (?row, Some e) | Inr row' \<Rightarrow> and_then (attempt (putExeAction r (tb_Key (tw_bin ?row)) GUARD_ALLOW)) (\<lambda>z.
             ret (row', case z of Inl e \<Rightarrow> Some e | Inr _ \<Rightarrow> None))) (wrote r res S G p row) (\<lambda>_. False)" for y
    proof (cases y)
      case (Inl e)
      show ?thesis unfolding Inl sum.case by (rule stop)
    next
      case (Inr row')
      show ?thesis unfolding Inr sum.case by (rule go)
    qed
    then show ?thesis by (rule run_and_then [OF run_attempt [OF trust_pinv]])
  qed
  have no: "run (pinv r res S G (exactly ?p)) (ret (?row, None)) (wrote r res S G p row) (\<lambda>_. False)" if "tw_newAction row \<noteq> GUARD_ALLOW"
    by (rule run_ret) (use that p in \<open>simp add: wrote_def exact_some same_plan_def\<close>)
  have "run (\<lambda>w. case x of Inl _ \<Rightarrow> some_state r res S G w | Inr _ \<Rightarrow> pinv r res S G (exactly ?p) w) (case x of
       Inl e \<Rightarrow> ret (?row, Some e)
     | Inr _ \<Rightarrow> if tw_newAction ?row \<noteq> GUARD_ALLOW then ret (?row, None) else and_then (attempt (trustTempRuntime ?row trust)) (\<lambda>y. case y of
           Inl e \<Rightarrow> ret (?row, Some e)
         | Inr row' \<Rightarrow> and_then (attempt (putExeAction r (tb_Key (tw_bin ?row)) GUARD_ALLOW)) (\<lambda>z.
             ret (row', case z of Inl e \<Rightarrow> Some e | Inr _ \<Rightarrow> None)))) (wrote r res S G p row) (\<lambda>_. False)" for x :: "gerr + unit"
  proof (cases x)
    case (Inl e)
    show ?thesis unfolding Inl sum.case by (rule some_keeps_ret)
  next
    case (Inr u)
    show ?thesis unfolding Inr sum.case by (rule run_if) (use no tr in simp_all)
  qed
  then show ?thesis unfolding writeTempRow_def by (rule run_and_then [OF run_attempt [OF wm]])
qed

lemma applyTempRow_exact:
  assumes plan: "row_plan rule row" and live: "map_of S res \<noteq> None"
  shows "run (pinv r res S G (exactly p)) (applyTempRow r trust row) (wrote r res S G p row) (\<lambda>_. False)"
proof -
  let ?k = "tb_Key (tw_bin row)"
  have stop: "run (some_state r res S G) (ret (row, Some e)) (wrote r res S G p row) (\<lambda>_. False)" for e by (rule some_keeps_ret)
  have rd: "run (\<lambda>w. pinv r res S G (exactly p) w \<and> p (res, ?k) = (er_action cur, er_mask cur))
      (if cur \<noteq> tw_prior row then ret (row, Some RowMoved) else writeTempRow r trust (row\<lparr>tw_applied := True\<rparr>)) (wrote r res S G p row) (\<lambda>_. False)" for cur
  proof (rule run_pure, rule run_if)
    show "run (pinv r res S G (exactly p)) (ret (row, Some RowMoved)) (wrote r res S G p row) (\<lambda>_. False)"
      by (rule run_pre [OF stop]) (rule exact_some)
    assume "p (res, ?k) = (er_action cur, er_mask cur)" "\<not> cur \<noteq> tw_prior row"
    then have "p (row_key res row) = prior_pair row" by (simp add: row_key_def prior_pair_def)
    then show "run (pinv r res S G (exactly p)) (writeTempRow r trust (row\<lparr>tw_applied := True\<rparr>)) (wrote r res S G p row) (\<lambda>_. False)"
      by (rule writeTempRow_exact [OF plan])
  qed
  have "run (\<lambda>w. case x of Inl _ \<Rightarrow> some_state r res S G w | Inr cur \<Rightarrow> pinv r res S G (exactly p) w \<and> p (res, ?k) = (er_action cur, er_mask cur))
      (case x of Inl e \<Rightarrow> ret (row, Some e)
       | Inr cur \<Rightarrow> if cur \<noteq> tw_prior row then ret (row, Some RowMoved) else writeTempRow r trust (row\<lparr>tw_applied := True\<rparr>)) (wrote r res S G p row) (\<lambda>_. False)" for x
  proof (cases x)
    case (Inl e)
    show ?thesis unfolding Inl sum.case by (rule stop)
  next
    case (Inr cur)
    show ?thesis unfolding Inr sum.case by (rule rd)
  qed
  then show ?thesis unfolding applyTempRow_def by (rule run_and_then [OF run_attempt [OF read_exact [OF live]]])
qed

subsection \<open>All rows\<close>

fun chain :: "nat \<Rightarrow> pairs \<Rightarrow> tempRow list \<Rightarrow> bool" where
  "chain res p [] = True"
| "chain res p (row # rs) \<longleftrightarrow> p (row_key res row) = prior_pair row \<and> chain res (p(row_key res row := final_pair row)) rs"

fun written :: "nat \<Rightarrow> pairs \<Rightarrow> tempRow list \<Rightarrow> pairs" where
  "written res p [] = p"
| "written res p (row # rs) = written res (p(row_key res row := final_pair row)) rs"

lemma same_plan_pairs: "same_plan (row\<lparr>tw_applied := b\<rparr>) row' \<Longrightarrow>
    final_pair row' = final_pair row \<and> prior_pair row' = prior_pair row \<and> row_key res row' = row_key res row"
  by (simp add: same_plan_def final_pair_def prior_pair_def row_key_def cong: tempMaskOp.case_cong)

lemma same_plan_row_plan: "same_plan (row\<lparr>tw_applied := b\<rparr>) row' \<Longrightarrow> row_plan rule row' = row_plan rule row"
  by (simp add: same_plan_def row_plan_def cong: option.case_cong)

lemma apply_rows_exact:
  assumes "\<forall>row \<in> set rs. row_plan rule row" and live: "map_of S res \<noteq> None"
  shows "run (pinv r res S G (exactly p)) (apply_rows r trust rs)
     (\<lambda>(rs', e) w. e = None \<longrightarrow> pinv r res S G (exactly (written res p rs')) w \<and> chain res p rs' \<and>
        list_all2 (\<lambda>row row'. same_plan (row\<lparr>tw_applied := True\<rparr>) row') rs rs') (\<lambda>_. False)"
  using assms(1)
proof (induction rs arbitrary: p)
  case Nil
  show ?case by (simp add: run_def ret_def)
next
  case (Cons row rs)
  let ?p = "p(row_key res row := final_pair row)"
  let ?R = "\<lambda>rs rs'. list_all2 (\<lambda>row row'. same_plan (row\<lparr>tw_applied := True\<rparr>) row') rs rs'"
  let ?Q = "\<lambda>(rs', e :: gerr option) w. e = None \<longrightarrow> pinv r res S G (exactly (written res p rs')) w \<and> chain res p rs' \<and> ?R (row # rs) rs'"
  have plan: "row_plan rule row" and rest: "\<forall>row \<in> set rs. row_plan rule row" using Cons.prems by simp_all
  have tl: "run (pinv r res S G (exactly ?p)) (and_then (apply_rows r trust rs) (\<lambda>(rs', e). ret (row' # rs', e))) ?Q (\<lambda>_. False)"
    if "same_plan (row\<lparr>tw_applied := True\<rparr>) row'" and p: "p (row_key res row) = prior_pair row" for row'
  proof (rule run_and_then [OF Cons.IH [OF rest]])
    fix x :: "tempRow list \<times> gerr option"
    obtain rs' e where x: "x = (rs', e)" by (cases x)
    have fp: "final_pair row' = final_pair row" "prior_pair row' = prior_pair row" "row_key res row' = row_key res row"
      using same_plan_pairs [OF that(1)] by simp_all
    show "run ((\<lambda>(rs', e) w. e = None \<longrightarrow> pinv r res S G (exactly (written res ?p rs')) w \<and> chain res ?p rs' \<and> ?R rs rs') x)
        (case x of (rs', e) \<Rightarrow> ret (row' # rs', e)) ?Q (\<lambda>_. False)"
      unfolding x prod.case by (rule run_ret) (use that in \<open>simp add: fp\<close>)
  qed
  have body: "run (wrote r res S G p row x) (case x of (row', e) \<Rightarrow> case e of
       Some e \<Rightarrow> ret (row' # rs, Some e)
     | None \<Rightarrow> and_then (apply_rows r trust rs) (\<lambda>(rs', e). ret (row' # rs', e))) ?Q (\<lambda>_. False)" for x
  proof (cases "snd x")
    case None
    have "run (\<lambda>w. pinv r res S G (exactly ?p) w \<and> (p (row_key res row) = prior_pair row \<and> same_plan (row\<lparr>tw_applied := True\<rparr>) (fst x)))
        (and_then (apply_rows r trust rs) (\<lambda>(rs', e). ret (fst x # rs', e))) ?Q (\<lambda>_. False)"
      by (rule run_pure) (use tl in blast)
    then have "run (wrote r res S G p row x) (and_then (apply_rows r trust rs) (\<lambda>(rs', e). ret (fst x # rs', e))) ?Q (\<lambda>_. False)"
      by (rule run_pre) (simp add: wrote_def None)
    with None show ?thesis by (cases x) simp
  next
    case (Some e)
    then show ?thesis by (cases x) (simp add: run_def ret_def)
  qed
  show ?case unfolding apply_rows.simps
    by (rule run_and_then [OF applyTempRow_exact [OF plan live]]) (rule body)
qed

text \<open>Where \<open>g\<close> lets a row be taken back: an allow of a key it has not deployed since, a block of one it
  still deploys and did not demote.\<close>

definition revocable :: "Guard \<Rightarrow> tempRow \<Rightarrow> bool" where
  "revocable g row \<longleftrightarrow> (tw_newAction row = GUARD_ALLOW \<longrightarrow> \<not> deployedKeyLocked g (tb_Key (tw_bin row))) \<and>
     (tw_newAction row = GUARD_BLOCK \<longrightarrow> deployedKeyLocked g (tb_Key (tw_bin row)) \<and> \<not> demotedKeyLocked g (tb_Key (tw_bin row)))"

lemma restoreTempAction_exact:
  assumes plan: "row_plan rule row" and rev: "revocable (G r) row"
    and p: "p (row_key res row) = final_pair row" and cur: "final_pair row = (er_action cur, er_mask cur)"
    and dep: "perm = deployedKeyLocked (G r) (tb_Key (tw_bin row))"
  shows "run (pinv r res S G (exactly p)) (restoreTempAction r row cur perm)
     (\<lambda>_. pinv r res S G (exactly (p(row_key res row := (er_action (tw_prior row), er_mask cur))))) (some_state r res S G)"
proof -
  let ?k = "tb_Key (tw_bin row)" and ?I = "pinv r res S G (exactly p)"
  have p': "p (res, ?k) = (er_action cur, er_mask cur)" using p cur by (simp add: row_key_def)
  have g: "run ?I (get (\<lambda>w. w_guards w r)) (\<lambda>g w. ?I w \<and> (g = G r \<and> g_resID g = res)) (some_state r res S G)"
    by (rule run_get) (auto simp: pinv_def guard_inv_def)
  from plan consider "tw_newAction row = GUARD_ALLOW" "er_action (tw_prior row) = None" "er_action cur = Some GUARD_ALLOW"
    | "tw_newAction row = GUARD_BLOCK" "er_action (tw_prior row) = Some GUARD_ALLOW" "er_action cur = Some GUARD_BLOCK"
    | "tw_newAction row = 0" "er_action cur = er_action (tw_prior row)"
    using cur by (auto simp: row_plan_def final_pair_def split: if_splits)
  then have body: "run ?I (let k = ?k in
       if tw_newAction row = GUARD_ALLOW \<and> er_action cur = Some GUARD_ALLOW then
         and_then (map_del GuardExeActions_update (res, k)) (\<lambda>_. noteDeny res k)
       else if tw_newAction row = GUARD_BLOCK \<and> er_action cur = Some GUARD_BLOCK \<and> perm \<and> \<not> demotedKeyLocked (G r) k then
         putExeAction r k GUARD_ALLOW
       else ret ()) (\<lambda>_. pinv r res S G (exactly (p(row_key res row := (er_action (tw_prior row), er_mask cur))))) (some_state r res S G)"
  proof cases
    case 1
    then show ?thesis using delete_exact [of p res ?k "er_action cur" "er_mask cur" r S G, OF p'] by (simp add: row_key_def Let_def)
  next
    case 2
    with rev dep have "perm" "\<not> demotedKeyLocked (G r) ?k" by (simp_all add: revocable_def)
    with 2 show ?thesis using putExeAction_exact [of p res ?k "er_action cur" "er_mask cur" r S G GUARD_ALLOW, OF p'] by (simp add: row_key_def Let_def)
  next
    case 3
    have "p(row_key res row := (er_action (tw_prior row), er_mask cur)) = p" using p' 3(2) by (auto simp: row_key_def)
    with 3 show ?thesis by (simp add: run_def ret_def Let_def)
  qed
  show ?thesis unfolding restoreTempAction_def
  proof (rule run_and_then [OF g], rule run_pure)
    fix g assume "g = G r \<and> g_resID g = res"
    then have gg: "g = G r" "g_resID (G r) = res" by auto
    show "run ?I (let k = ?k in
       if tw_newAction row = GUARD_ALLOW \<and> er_action cur = Some GUARD_ALLOW then
         and_then (map_del GuardExeActions_update (g_resID g, k)) (\<lambda>_. noteDeny (g_resID g) k)
       else if tw_newAction row = GUARD_BLOCK \<and> er_action cur = Some GUARD_BLOCK \<and> perm \<and> \<not> demotedKeyLocked g k then
         putExeAction r k GUARD_ALLOW
       else ret ()) (\<lambda>_. pinv r res S G (exactly (p(row_key res row := (er_action (tw_prior row), er_mask cur))))) (some_state r res S G)"
      unfolding gg by (rule body)
  qed
qed

lemma restoreTempRow_exact:
  assumes plan: "row_plan rule row" and rev: "revocable (G r) row" and p: "p (row_key res row) = final_pair row"
    and live: "map_of S res \<noteq> None"
  shows "run (pinv r res S G (exactly p)) (restoreTempRowLocked r row)
     (\<lambda>_. pinv r res S G (exactly (p(row_key res row := prior_pair row)))) (some_state r res S G)"
proof -
  let ?k = "tb_Key (tw_bin row)" and ?I = "pinv r res S G (exactly p)"
  let ?Q = "\<lambda>_ :: unit. pinv r res S G (exactly (p(row_key res row := prior_pair row)))"
  let ?b = "\<lambda>cur. tw_maskOp row = maskPut \<and> er_mask cur = Some (tw_newMask row) \<or> tw_maskOp row = maskDelete \<and> er_mask cur = None"
  have msk: "run (pinv r res S G (exactly (p(row_key res row := (er_action (tw_prior row), er_mask cur)))))
      (if ?b cur then restoreMask r ?k (er_mask (tw_prior row)) else ret ()) ?Q (some_state r res S G)"
    if cur: "final_pair row = (er_action cur, er_mask cur)" for cur
  proof (cases "tw_maskOp row = maskKeep")
    case True
    then have "er_mask cur = er_mask (tw_prior row)" using cur by (simp add: final_pair_def)
    with True show ?thesis by (simp add: run_def ret_def prior_pair_def)
  next
    case False
    then have b: "?b cur" using cur by (cases "tw_maskOp row") (simp_all add: final_pair_def)
    have q: "(p(row_key res row := (er_action (tw_prior row), er_mask cur))) (res, ?k) = (er_action (tw_prior row), er_mask cur)"
      by (simp add: row_key_def)
    from restoreMask_exact [of "p(row_key res row := (er_action (tw_prior row), er_mask cur))" res ?k _ _ r S G "er_mask (tw_prior row)", OF q] b
    show ?thesis by (simp add: row_key_def prior_pair_def)
  qed
  have dep: "run (\<lambda>w. ?I w) (get (\<lambda>w. deployedKeyLocked (w_guards w r) ?k)) (\<lambda>x w. ?I w \<and> x = deployedKeyLocked (G r) ?k) (some_state r res S G)"
    by (rule run_get) (simp add: pinv_def)
  have main: "run ?I (if tw_newAction row = GUARD_ALLOW \<and> perm then ret () else and_then (restoreTempAction r row cur perm)
       (\<lambda>_. if ?b cur then restoreMask r ?k (er_mask (tw_prior row)) else ret ())) ?Q (some_state r res S G)"
    if cur: "p (res, ?k) = (er_action cur, er_mask cur)" and perm: "perm = deployedKeyLocked (G r) ?k" for cur perm
  proof -
    have fin: "final_pair row = (er_action cur, er_mask cur)" using p cur by (simp add: row_key_def)
    have "\<not> (tw_newAction row = GUARD_ALLOW \<and> perm)" using rev perm by (simp add: revocable_def)
    moreover note run_and_then [OF restoreTempAction_exact [of rule row G r p res, OF plan rev p fin perm] msk [OF fin]]
    ultimately show ?thesis by (simp only: if_False)
  qed
  show ?thesis unfolding restoreTempRowLocked_def Let_def
    by (rule run_and_then [OF read_exact [OF live]], rule run_pure, rule run_and_then [OF dep], rule run_pure, rule main)
qed

lemma revoke_row_exact:
  assumes plan: "row_plan rule row" and rev: "revocable (G r) row" and p: "p (row_key res row) = final_pair row"
    and live: "map_of S res \<noteq> None" and "tw_applied row" and "\<not> g_stopped (G r)"
  shows "run (pinv r res S G (exactly p)) (revoke_row r trust row)
     (\<lambda>(row', es) w. es = [] \<longrightarrow> pinv r res S G (exactly (p(row_key res row := prior_pair row))) w) (\<lambda>_. False)"
proof -
  let ?J = "pinv r res S G (exactly (p(row_key res row := prior_pair row)))"
  let ?Q = "\<lambda>(row' :: tempRow, es :: gerr list) w. es = [] \<longrightarrow> ?J w"
  have st: "run (pinv r res S G (exactly p)) (get (\<lambda>w. g_stopped (w_guards w r))) (\<lambda>s w. pinv r res S G (exactly p) w \<and> \<not> s) (\<lambda>_. False)"
    by (rule run_get) (use assms(6) in \<open>simp add: pinv_def\<close>)
  have un: "run (\<lambda>w. case x of Inl _ \<Rightarrow> some_state r res S G w | Inr _ \<Rightarrow> ?J w) (and_then (attempt (untrustTempRuntime row trust)) (\<lambda>y.
      ret (row\<lparr>tw_trust := None, tw_trustAdded := 0\<rparr>, (case x of Inl e \<Rightarrow> [e] | Inr _ \<Rightarrow> []) @ (case y of Inl e \<Rightarrow> [e] | Inr _ \<Rightarrow> [])))) ?Q (\<lambda>_. False)"
    for x :: "gerr + unit"
  proof (cases x)
    case (Inl e)
    show ?thesis unfolding Inl by (simp add: run_def and_then_def attempt_def ret_def split: prod.splits)
  next
    case (Inr u)
    have "run ?J (attempt (untrustTempRuntime row trust)) (\<lambda>_. ?J) (\<lambda>_. False)"
      by (rule run_post [OF run_attempt [OF untrust_pinv]]) (simp_all split: sum.splits)
    then show ?thesis unfolding Inr sum.case by (rule run_and_then) (auto simp: run_def ret_def)
  qed
  have go: "run (pinv r res S G (exactly p)) (and_then (if stopped then ret (Inr ()) else attempt (restoreTempRowLocked r row)) (\<lambda>x.
      and_then (attempt (untrustTempRuntime row trust)) (\<lambda>y. ret (row\<lparr>tw_trust := None, tw_trustAdded := 0\<rparr>,
        (case x of Inl e \<Rightarrow> [e] | Inr _ \<Rightarrow> []) @ (case y of Inl e \<Rightarrow> [e] | Inr _ \<Rightarrow> []))))) ?Q (\<lambda>_. False)" if "\<not> stopped" for stopped
    using that run_and_then [OF run_attempt [OF restoreTempRow_exact [of rule row G r p res, OF plan rev p live]] un] by simp
  show ?thesis unfolding revoke_row_def using assms(5) run_and_then [OF st run_pure [OF go]] by simp
qed

lemma revoke_rows_exact:
  assumes "chain res p rs" and "\<forall>row \<in> set rs. row_plan rule row \<and> revocable (G r) row \<and> tw_applied row"
    and live: "map_of S res \<noteq> None" and st: "\<not> g_stopped (G r)"
  shows "run (pinv r res S G (exactly (written res p rs))) (revoke_rows r trust rs)
     (\<lambda>(rs', es) w. es = [] \<longrightarrow> pinv r res S G (exactly p) w) (\<lambda>_. False)"
  using assms(1,2)
proof (induction rs arbitrary: p)
  case Nil
  show ?case by (simp add: run_def ret_def)
next
  case (Cons row rs)
  let ?p = "p(row_key res row := final_pair row)"
  let ?Q = "\<lambda>(rs' :: tempRow list, es :: gerr list) w. es = [] \<longrightarrow> pinv r res S G (exactly p) w"
  have row: "row_plan rule row" "revocable (G r) row" "tw_applied row" and prior: "p (row_key res row) = prior_pair row" using Cons.prems by simp_all
  have undo: "?p(row_key res row := prior_pair row) = p" using prior by auto
  have "?p (row_key res row) = final_pair row" by simp
  note one = revoke_row_exact [of rule row G r ?p res, OF row(1,2) this live row(3) st, of trust, unfolded undo]
  have hd: "run (pinv r res S G (exactly ?p)) (and_then (revoke_row r trust row) (\<lambda>(row', e). ret (row' # rs', es @ e))) ?Q (\<lambda>_. False)" for rs' es
    by (rule run_and_then [OF one]) (auto simp: run_def ret_def)
  have "run ((\<lambda>(rs', es) w. es = [] \<longrightarrow> pinv r res S G (exactly ?p) w) x) (case x of (rs', es) \<Rightarrow>
      and_then (revoke_row r trust row) (\<lambda>(row', e). ret (row' # rs', es @ e))) ?Q (\<lambda>_. False)" for x :: "tempRow list \<times> gerr list"
  proof (cases x)
    case (Pair rs' es)
    show ?thesis
    proof (cases "es = []")
      case True
      then show ?thesis using hd [of rs' es] by (simp add: Pair)
    next
      case False
      have never: "run (\<lambda>_. True) (revoke_row r trust row) (\<lambda>_ _. True) (\<lambda>_. False)"
        by (simp add: run_def revoke_row_def and_then_def attempt_def get_def ret_def split: prod.splits)
      have "run (\<lambda>_. True) (and_then (revoke_row r trust row) (\<lambda>(row', e). ret (row' # rs', es @ e))) ?Q (\<lambda>_. False)"
        by (rule run_and_then [OF never]) (use False in \<open>auto simp: run_def ret_def\<close>)
      then show ?thesis using False by (simp add: Pair)
    qed
  qed
  moreover have "run (pinv r res S G (exactly (written res ?p rs))) (revoke_rows r trust rs) (\<lambda>(rs', es) w. es = [] \<longrightarrow> pinv r res S G (exactly ?p) w) (\<lambda>_. False)"
  proof (rule Cons.IH)
    from Cons.prems(1) show "chain res ?p rs" unfolding chain.simps by (rule conjunct2)
    from Cons.prems(2) show "\<forall>row \<in> set rs. row_plan rule row \<and> revocable (G r) row \<and> tw_applied row" by simp
  qed
  ultimately show ?case unfolding revoke_rows.simps written.simps by (rule_tac run_and_then)
qed

lemma list_all2_transfer:
  "list_all2 P xs ys \<Longrightarrow> \<forall>x \<in> set xs. Q x \<Longrightarrow> (\<And>x y. P x y \<Longrightarrow> Q x \<Longrightarrow> R y) \<Longrightarrow> \<forall>y \<in> set ys. R y"
  by (induction rule: list_all2_induct) auto

definition takes_back :: "TempRule \<Rightarrow> Guard \<Rightarrow> GuardInodeKey \<Rightarrow> bool" where
  "takes_back rule g k \<longleftrightarrow> (if ru_Allow rule then \<not> deployedKeyLocked g k else deployedKeyLocked g k \<and> \<not> demotedKeyLocked g k)"

lemma revocable_plan: "row_plan rule row \<Longrightarrow> takes_back rule g (tb_Key (tw_bin row)) \<Longrightarrow> revocable g row"
  by (auto simp: row_plan_def takes_back_def revocable_def split: if_splits)

lemma Apply_rows:
  assumes "Apply t w = (Inr (t', None), w')"
  shows "\<not> g_stopped (w_guards w (tg_g t))" and "\<exists>rs trust. t' = t\<lparr>tg_rows := rs\<rparr> \<and> apply_rows (tg_g t) trust (tg_rows t) w = (Inr (rs, None), w')"
proof -
  let ?m = "and_then (apply_rows (tg_g t) (w_trust w) (tg_rows t)) (\<lambda>(rows, e). case e of
       None \<Rightarrow> ret (t\<lparr>tg_rows := rows\<rparr>, None)
     | Some e \<Rightarrow> and_then (revokeLocked (t\<lparr>tg_rows := rows\<rparr>) (w_trust w)) (\<lambda>(t', _). ret (t', Some e)))"
  from assms show st: "\<not> g_stopped (w_guards w (tg_g t))"
    by (auto simp: Apply_def and_then_get ret_def)
  with assms have "?m w = (Inr (t', None), w')" by (simp add: Apply_def and_then_get)
  then obtain rs e v where ar: "apply_rows (tg_g t) (w_trust w) (tg_rows t) w = (Inr (rs, e), v)"
    and k: "(case e of None \<Rightarrow> ret (t\<lparr>tg_rows := rs\<rparr>, None)
     | Some e \<Rightarrow> and_then (revokeLocked (t\<lparr>tg_rows := rs\<rparr>) (w_trust w)) (\<lambda>(t', _). ret (t', Some e))) v = (Inr (t', None), w')"
    unfolding and_then_def by (auto split: prod.splits sum.splits)
  have "e = None"
  proof (rule ccontr)
    assume "e \<noteq> None"
    then obtain e' :: gerr where "and_then (revokeLocked (t\<lparr>tg_rows := rs\<rparr>) (w_trust w)) (\<lambda>(t', _). ret (t', Some e')) v = (Inr (t', None), w')"
      using k by auto
    then show False by (auto simp: and_then_def ret_def split: prod.splits sum.splits)
  qed
  with ar k show "\<exists>rs trust. t' = t\<lparr>tg_rows := rs\<rparr> \<and> apply_rows (tg_g t) trust (tg_rows t) w = (Inr (rs, None), w')"
    by (auto simp: ret_def)
qed

text \<open>
  C11. Revoking restores what applying changed: after a grant was applied without error and revoked
  without error, every row and every mask of every live resource is what it was before, provided the
  guard still holds what the revocation checks (an allowed binary is not deployed, a blocked one is
  deployed and was not demoted). A binary may be listed twice.
\<close>

theorem Apply_Revoke_restores:
  assumes "sets_ok w" and "map_of (e_slots w) resGlobal = None" and "g_mode (w_guards w r) = ModeWhitelist"
    and res: "map_of (e_slots w) (g_resID (w_guards w r)) \<noteq> None"
    and plan: "PlanTemporaryGrant r bins rule w0 = (Inr t, w1)"
    and held: "\<forall>b \<in> set bins. takes_back rule (w_guards w r) (tb_Key b)"
    and app: "Apply t w = (Inr (t', None), w')" and rvk: "Revoke t' w' = (Inr (t'', []), w'')"
    and live: "map_of (e_slots w) slot \<noteq> None"
  shows "rows w'' slot exe = rows w slot exe \<and> map_of (GuardExeEvents w'') (slot, exe) = map_of (GuardExeEvents w) (slot, exe)"
proof -
  let ?res = "g_resID (w_guards w r)" and ?S = "e_slots w" and ?G = "w_guards w"
  let ?p = "\<lambda>k. (rows w (fst k) (snd k), map_of (GuardExeEvents w) k)"
  let ?I = "\<lambda>p. pinv r ?res ?S ?G (exactly p)"
  note fresh = Plan_fresh [OF plan]
  have start: "?I ?p w" using assms(1-3) by (simp add: pinv_def guard_inv_def exactly_def)
  obtain rs trust where t': "t' = t\<lparr>tg_rows := rs\<rparr>" and ar: "apply_rows r trust (tg_rows t) w = (Inr (rs, None), w')"
    using Apply_rows(2) [OF app] fresh(2) by auto
  have st: "\<not> g_stopped (?G r)" using Apply_rows(1) [OF app] fresh(2) by simp
  have plans: "\<forall>row \<in> set (tg_rows t). row_plan rule row \<and> takes_back rule (?G r) (tb_Key (tw_bin row))"
    using fresh(1) held by (auto simp: fresh_rows_def)
  then have "\<forall>row \<in> set (tg_rows t). row_plan rule row" by blast
  from run_Inr [OF apply_rows_exact [OF this res] start ar]
  have w': "?I (written ?res ?p rs) w'" and ch: "chain ?res ?p rs"
    and same: "list_all2 (\<lambda>row row'. same_plan (row\<lparr>tw_applied := True\<rparr>) row') (tg_rows t) rs" by auto
  have ready: "\<forall>row \<in> set rs. row_plan rule row \<and> revocable (?G r) row \<and> tw_applied row"
  proof (rule list_all2_transfer [OF same plans])
    fix row row' assume s: "same_plan (row\<lparr>tw_applied := True\<rparr>) row'" and "row_plan rule row \<and> takes_back rule (?G r) (tb_Key (tw_bin row))"
    then have "row_plan rule row'" "takes_back rule (?G r) (tb_Key (tw_bin row'))"
      using same_plan_row_plan [OF s] by (simp_all add: same_plan_def)
    then show "row_plan rule row' \<and> revocable (?G r) row' \<and> tw_applied row'"
      using s by (simp add: revocable_plan same_plan_def)
  qed
  have "and_then (revoke_rows r (w_trust w') rs) (\<lambda>(rows, es). ret (t'\<lparr>tg_rows := rows, tg_revoked := True\<rparr>, es)) w' = (Inr (t'', []), w'')"
    using rvk fresh(2,3) by (simp add: Revoke_def revokeLocked_def and_then_get t')
  then obtain rs' where rr: "revoke_rows r (w_trust w') rs w' = (Inr (rs', []), w'')"
    by (auto simp: and_then_def ret_def split: prod.splits sum.splits)
  from run_Inr [OF revoke_rows_exact [of ?res ?p rs rule ?G r ?S, OF ch ready res st] w' rr] have "?I ?p w''" by simp
  with live have "exactly ?p slot exe (rows w'' slot exe) (map_of (GuardExeEvents w'') (slot, exe))" unfolding pinv_def by blast
  then show ?thesis by (simp add: exactly_def)
qed

subsection \<open>A session\<close>

definition guest_key :: GuardInodeKey where "guest_key = \<lparr>Dev = 5, Ino = 77\<rparr>"

definition guest :: TempBinary where
  "guest = \<lparr>tb_Path = ''/bin/od'', tb_Key = guest_key, tb_SystemPlaced = True, tb_Runtime = 4, tb_file = Some 3, tb_hash = [],
     tb_stat = empty_stat\<rparr>"

definition guest_rule :: TempRule where
  "guest_rule = \<lparr>ru_Allow = True, ru_Events = [1]\<rparr>"

definition guest_world :: world where
  "guest_world = demo_world\<lparr>w_trust := Some 0\<rparr>"

definition session :: "((tempGrant \<times> world) \<times> (tempGrant \<times> gerr option) \<times> world \<times> (tempGrant \<times> gerr list) \<times> world) option" where
  "session = (case PlanTemporaryGrant 1 [guest] guest_rule guest_world of
     (Inr t, w1) \<Rightarrow> (case Apply t guest_world of
        (Inr (t', e), w') \<Rightarrow> (case Revoke t' w' of
           (Inr (t'', es), w'') \<Rightarrow> Some ((t, w1), (t', e), w', (t'', es), w'')
         | _ \<Rightarrow> None)
      | _ \<Rightarrow> None)
   | _ \<Rightarrow> None)"

lemma session_runs:
  "case session of None \<Rightarrow> False | Some ((t, w1), (t', e), w', (t'', es), w'') \<Rightarrow> e = None \<and> es = [] \<and>
     rows w' 1 guest_key = Some GUARD_ALLOW \<and> map_of (GuardExeEvents w') (1, guest_key) \<noteq> None \<and>
     events_of w' 1 guest_key False \<noteq> 0 \<and> rows w'' 1 guest_key = None"
  by code_simp

lemma session_parts:
  obtains t w1 t' w' t'' w'' where "PlanTemporaryGrant 1 [guest] guest_rule guest_world = (Inr t, w1)"
    "Apply t guest_world = (Inr (t', None), w')" "Revoke t' w' = (Inr (t'', []), w'')"
    "rows w' 1 guest_key = Some GUARD_ALLOW" "events_of w' 1 guest_key False \<noteq> 0" "rows w'' 1 guest_key = None"
  using session_runs unfolding session_def by (auto split: prod.splits sum.splits)

lemma guest_facts: "sets_ok guest_world" "map_of (e_slots guest_world) resGlobal = None"
    "g_mode (w_guards guest_world 1) = ModeWhitelist" "g_resID (w_guards guest_world 1) = 1"
    "map_of (e_slots guest_world) 1 = Some 1"
  using demo_engine_ok by (simp_all add: guest_world_def engine_ok_def sets_ok_def demo_guard_def demo_world_def)

theorem Apply_never_wider_witness:
  "\<exists>t w1 x w'. PlanTemporaryGrant 1 [guest] guest_rule guest_world = (Inr t, w1) \<and> Apply t guest_world = (x, w') \<and>
     events_of w' 1 guest_key False \<noteq> 0 \<and> events_of w' 1 guest_key False AND NOT (events_of guest_world 1 guest_key False OR
       (if ru_Allow guest_rule \<and> 1 = g_resID (w_guards guest_world 1) \<and> guest_key \<in> tb_Key ` set [guest]
        then mask_bits (granted_mask guest_rule) else 0)) = 0"
proof (rule session_parts)
  fix t w1 t' w' t'' w''
  assume s: "PlanTemporaryGrant 1 [guest] guest_rule guest_world = (Inr t, w1)" "Apply t guest_world = (Inr (t', None), w')"
    "events_of w' 1 guest_key False \<noteq> 0"
  have live: "map_of (e_slots guest_world) (g_resID (w_guards guest_world 1)) \<noteq> None" "map_of (e_slots guest_world) 1 \<noteq> None"
    by (simp_all add: guest_facts [simplified])
  from Apply_never_wider [OF guest_facts(1-3) live(1) s(1,2) live(2), of guest_key False] s show ?thesis by blast
qed

theorem Apply_Revoke_restores_witness:
  "\<exists>t w1 t' w' t'' w''. PlanTemporaryGrant 1 [guest] guest_rule guest_world = (Inr t, w1) \<and>
     Apply t guest_world = (Inr (t', None), w') \<and> Revoke t' w' = (Inr (t'', []), w'') \<and> rows w' 1 guest_key = Some GUARD_ALLOW \<and>
     rows w'' 1 guest_key = rows guest_world 1 guest_key"
proof (rule session_parts)
  fix t w1 t' w' t'' w''
  assume s: "PlanTemporaryGrant 1 [guest] guest_rule guest_world = (Inr t, w1)" "Apply t guest_world = (Inr (t', None), w')"
    "Revoke t' w' = (Inr (t'', []), w'')" "rows w' 1 guest_key = Some GUARD_ALLOW"
  have live: "map_of (e_slots guest_world) (g_resID (w_guards guest_world 1)) \<noteq> None" "map_of (e_slots guest_world) 1 \<noteq> None"
    by (simp_all add: guest_facts [simplified])
  have "\<forall>b \<in> set [guest]. takes_back guest_rule (w_guards guest_world 1) (tb_Key b)"
    by (simp add: takes_back_def guest_rule_def deployedKeyLocked_def guest_world_def demo_world_def demo_guard_def)
  from Apply_Revoke_restores [OF guest_facts(1-3) live(1) s(1) this s(2,3) live(2), of guest_key] s show ?thesis by blast
qed

subsection \<open>After a crash\<close>

text \<open>Rows and masks only go, and only rows of the journal that admit.\<close>

definition stripped_from :: "rkey set \<Rightarrow> world \<Rightarrow> world \<Rightarrow> bool" where
  "stripped_from K w w' \<longleftrightarrow> (\<forall>k. map_of (GuardExeActions w') k = map_of (GuardExeActions w) k \<or>
       k \<in> K \<and> map_of (GuardExeActions w) k = Some GUARD_ALLOW \<and> map_of (GuardExeActions w') k = None) \<and>
     (\<forall>k. map_of (GuardExeEvents w') k = map_of (GuardExeEvents w) k \<or>
       map_of (GuardExeEvents w') k = None \<and> map_of (GuardExeActions w') k \<noteq> Some GUARD_ALLOW)"

lemma stripped_from_refl: "stripped_from K w w"
  by (simp add: stripped_from_def)

lemma stripped_from_trans: "stripped_from K w v \<Longrightarrow> stripped_from L v u \<Longrightarrow> stripped_from (K \<union> L) w u"
  unfolding stripped_from_def by (intro conjI allI) (metis UnI1 UnI2 option.distinct(1))+

lemma stripPinnedAllow_run:
  "\<exists>ok e w'. stripPinnedAllow events k w = (Inr (ok, e), w') \<and> stripped_from {k} w w' \<and>
     (e = None \<longrightarrow> map_of (GuardExeActions w') k \<noteq> Some GUARD_ALLOW)"
  by (auto simp: stripPinnedAllow_def and_then_def attempt_def map_get_def map_del_def ret_def stripped_from_def delete_conv'
      split: if_splits)

lemma strip_rows_run:
  "\<exists>n es w'. strip_rows events ks w = (Inr (n, es), w') \<and> stripped_from (set ks) w w' \<and>
     (es = [] \<longrightarrow> (\<forall>k \<in> set ks. map_of (GuardExeActions w') k \<noteq> Some GUARD_ALLOW))"
proof (induction ks arbitrary: w)
  case Nil
  show ?case by (simp add: ret_def stripped_from_refl)
next
  case (Cons k ks)
  obtain ok e v where one: "stripPinnedAllow events k w = (Inr (ok, e), v)" "stripped_from {k} w v"
    "e = None \<longrightarrow> map_of (GuardExeActions v) k \<noteq> Some GUARD_ALLOW" using stripPinnedAllow_run by blast
  obtain n es u where rest: "strip_rows events ks v = (Inr (n, es), u)" "stripped_from (set ks) v u"
    "es = [] \<longrightarrow> (\<forall>k \<in> set ks. map_of (GuardExeActions u) k \<noteq> Some GUARD_ALLOW)" using Cons.IH by blast
  have all: "stripped_from (set (k # ks)) w u" using stripped_from_trans [OF one(2) rest(2)] by simp
  have "map_of (GuardExeActions u) k \<noteq> Some GUARD_ALLOW" if "e = None"
    using one(3) that rest(2) unfolding stripped_from_def by (metis option.distinct(1))
  with all rest(3) one(1) rest(1) show ?case by (auto simp: and_then_def ret_def split: option.splits)
qed

text \<open>
  C12. Stripping the journaled rows of a dead daemon only denies: whatever journal it is given and
  whichever map operation fails, it returns, no action row is added or changed, the only rows that go
  are journaled ones that allowed, and a mask that goes leaves no allow behind it (so no binary is
  left unrestricted). When it reports no error and the maps were pinned, no journaled row allows
  any more.
\<close>

theorem StripPinnedTempAllows_only_denies:
  "\<exists>n es w'. StripPinnedTempAllows load pfx ks w = (Inr (n, es), w') \<and> stripped_from (set ks) w w' \<and>
     (es = [] \<and> pfx \<noteq> [] \<and> (load pfx = Pinned True \<or> load pfx = Pinned False) \<longrightarrow>
        (\<forall>k \<in> set ks. map_of (GuardExeActions w') k \<noteq> Some GUARD_ALLOW))"
proof (cases "pfx = [] \<or> ks = []")
  case True
  then show ?thesis by (auto simp: StripPinnedTempAllows_def ret_def stripped_from_refl)
next
  case False
  show ?thesis
  proof (cases "load pfx")
    case (Pinned ev)
    with False strip_rows_run [of ev ks w] show ?thesis by (auto simp: StripPinnedTempAllows_def)
  qed (use False in \<open>auto simp: StripPinnedTempAllows_def ret_def stripped_from_refl\<close>)
qed

theorem StripPinnedTempAllows_only_denies_witness:
  "\<exists>n es w'. StripPinnedTempAllows (\<lambda>_. Pinned True) ''p'' [(1, demo_file)] demo_world = (Inr (n, es), w') \<and> es = [] \<and>
     map_of (GuardExeActions demo_world) (1, demo_file) = Some GUARD_ALLOW \<and> map_of (GuardExeActions w') (1, demo_file) \<noteq> Some GUARD_ALLOW"
proof -
  have run: "case StripPinnedTempAllows (\<lambda>_. Pinned True) ''p'' [(1, demo_file)] demo_world of (Inr (n, es), _) \<Rightarrow> es = [] | _ \<Rightarrow> False"
    by code_simp
  from StripPinnedTempAllows_only_denies [of "\<lambda>_. Pinned True" "''p''" "[(1, demo_file)]" demo_world] run
  show ?thesis by (auto simp: demo_world_def)
qed

end
