(* ===== verification/Guard_Resync.thy ===== *)
theory Guard_Resync
  imports Guard_Policy
begin

text \<open>
  What a running guard does about binaries that change on disk: hashing shared by all guards
  (\<open>internal/guard/hashshare.go\<close>), the re-sync of whitelisted files, links and catalog matches
  (\<open>guard.go\<close>, \<open>linkresync.go\<close>, \<open>sweepshare.go\<close>), the in-place verifier (\<open>guard.go\<close>) and the
  superseded marks (\<open>supersede.go\<close>). Every operation runs to its end before the next one starts, so a
  hash in progress is never found busy; log output and the hash counters are left out.
\<close>

subsection \<open>Hashing\<close>

definition EntryWithHash :: "string \<Rightarrow> bytes \<Rightarrow> BinaryEntry" where
  "EntryWithHash path h = \<lparr>be_Path = path, be_Hash = h, be_Comm = take 15 (Base path)\<rparr>"

definition maxSharedHashes :: nat where "maxSharedHashes = 8192"
definition settleAge :: int where "settleAge = 1000000000"

definition settled :: "system \<Rightarrow> BinaryStat \<Rightarrow> bool act" where
  "settled X fp = look X (\<lambda>s. sint (word_of_int (ge_Now s - bs_CtimeNs fp) :: 64 word) \<ge> settleAge)"

definition publishHash :: "GuardInodeKey \<Rightarrow> BinaryStat \<Rightarrow> bytes \<Rightarrow> unit act" where
  "publishHash key fp h = modify (\<lambda>w. w\<lparr>w_sharedHashes := AList.update key (fp, h)
     (if length (w_sharedHashes w) \<ge> maxSharedHashes then [] else w_sharedHashes w)\<rparr>)"

definition claimHash :: "GuardInodeKey \<Rightarrow> BinaryStat \<Rightarrow> bytes option act" where
  "claimHash key fp = get (\<lambda>w. case map_of (w_sharedHashes w) key of
     Some (st, h) \<Rightarrow> if st = fp then Some h else None | None \<Rightarrow> None)"

definition unchangedSince :: "system \<Rightarrow> nat \<Rightarrow> BinaryStat \<Rightarrow> bool act" where
  "unchangedSince X f fp = look X (\<lambda>s. ge_StatBinaryFile s f = Some fp)"

text \<open>The durable fingerprint, where there is a store and the file has one.\<close>

definition stat_durable :: "system \<Rightarrow> nat \<Rightarrow> BinaryStat \<Rightarrow> durableStat option act" where
  "stat_durable X f fp = and_then (get w_hasStore) (\<lambda>store. if store then look X (\<lambda>s. ge_StatDurable s f fp) else ret None)"

definition read_hash :: "system \<Rightarrow> nat \<Rightarrow> string \<Rightarrow> BinaryStat \<Rightarrow> durableStat option \<Rightarrow> (BinaryEntry \<times> BinaryStat) act" where
  "read_hash X f path fp durable =
     and_then (look X (\<lambda>s. ge_Hash s f)) (\<lambda>h. case h of None \<Rightarrow> fail HashFailed | Some h \<Rightarrow>
     and_then (unchangedSince X f fp) (\<lambda>same.
     and_then (if same then settled X fp else ret False) (\<lambda>ok.
     if \<not> ok then ret (EntryWithHash path h, fp) else
     and_then (publishHash (bs_Key fp) fp h) (\<lambda>_.
     and_then (case durable of None \<Rightarrow> ret () | Some ds \<Rightarrow> logged (map_put w_hashStore_update ds h)) (\<lambda>_.
     ret (EntryWithHash path h, fp))))))"

definition hashFileShared :: "system \<Rightarrow> nat \<Rightarrow> string \<Rightarrow> (BinaryEntry \<times> BinaryStat) act" where
  "hashFileShared X f path =
     and_then (look X (\<lambda>s. ge_StatBinaryFile s f)) (\<lambda>fp. case fp of None \<Rightarrow> fail (StatFailed FstatFailed) | Some fp \<Rightarrow>
     and_then (claimHash (bs_Key fp) fp) (\<lambda>known. case known of Some h \<Rightarrow> ret (EntryWithHash path h, fp) | None \<Rightarrow>
     and_then (stat_durable X f fp) (\<lambda>durable. case durable of
       None \<Rightarrow> read_hash X f path fp None
     | Some ds \<Rightarrow> and_then (map_look w_hashStore ds) (\<lambda>hit. case hit of
         Some h \<Rightarrow> and_then (publishHash (bs_Key fp) fp h) (\<lambda>_. ret (EntryWithHash path h, fp))
       | None \<Rightarrow> and_then (look X (\<lambda>s. ge_SyncFile s f)) (\<lambda>synced. read_hash X f path fp (if synced then Some ds else None))))))"

definition hashPathShared :: "system \<Rightarrow> string \<Rightarrow> (BinaryEntry \<times> BinaryStat) act" where
  "hashPathShared X path =
     and_then (look X (\<lambda>s. ge_OpenPath s path)) (\<lambda>f. case f of None \<Rightarrow> fail HashFailed | Some f \<Rightarrow> hashFileShared X f path)"

subsection \<open>Deferred rules\<close>

definition maxResolveAttempts :: nat where "maxResolveAttempts = 5"

definition open_confined :: "system \<Rightarrow> string \<Rightarrow> nat act" where
  "open_confined X path = and_then (look X (\<lambda>s. OpenConfined (x_kern s) (x_homes s) path)) (lift_sum StatFailed)"

definition fd_path :: "system \<Rightarrow> string \<Rightarrow> nat \<Rightarrow> string option act" where
  "fd_path X path f = look X (\<lambda>s. k_Readlink (x_kern s) (walk_end path) f)"

definition fd_key :: "system \<Rightarrow> string \<Rightarrow> nat \<Rightarrow> GuardInodeKey option act" where
  "fd_key X path f = look X (\<lambda>s. StatFile (x_kern s) (walk_end path) f)"

definition confinedEntry :: "system \<Rightarrow> string \<Rightarrow> (string \<times> BinaryEntry \<times> GuardInodeKey \<times> nat) act" where
  "confinedEntry X path =
     and_then (open_confined X path) (\<lambda>f.
     and_then (fd_path X path f) (\<lambda>resolved. case resolved of None \<Rightarrow> fail (StatFailed ReadlinkFailed) | Some resolved \<Rightarrow>
     and_then (hashFileShared X f resolved) (\<lambda>(entry, fp). ret (resolved, entry, bs_Key fp, f))))"

record resolvedRules =
  rr_resolved :: "BinaryEntry list"
  rr_events :: event_lists
  rr_links :: "(string, string) gomap"
  rr_deferred :: "deferredBinary list"

definition resolve_one :: "system \<Rightarrow> nat \<Rightarrow> resolvedRules \<Rightarrow> deferredBinary \<Rightarrow> resolvedRules act" where
  "resolve_one X r R d =
     (let rule = db_rule d; line = (if bin_Link rule \<noteq> [] then bin_Link rule else bin_Path rule) in
      and_then (attempt (confinedEntry X line)) (\<lambda>x. case x of
        Inl _ \<Rightarrow> (let d' = d\<lparr>db_attempts := Suc (db_attempts d)\<rparr> in
          ret (if db_attempts d' \<ge> maxResolveAttempts then R else R\<lparr>rr_deferred := rr_deferred R @ [d']\<rparr>))
      | Inr (path, entry, key, f) \<Rightarrow>
          and_then (look X (\<lambda>s. ge_Admit s rule path f key (be_Hash entry))) (\<lambda>admit. if \<not> admit then ret R else
          and_then (modify (upd_guard r (\<lambda>g. holdLocked path (Some f) (g\<lparr>g_vetted := AList.update path key (g_vetted g)\<rparr>)))) (\<lambda>_.
          ret (R\<lparr>rr_resolved := rr_resolved R @ [entry],
            rr_events := (if bin_Events rule \<noteq> [] then AList.update path (bin_Events rule) (rr_events R) else rr_events R),
            rr_links := (if path \<noteq> line then AList.update line path (rr_links R) else rr_links R)\<rparr>)))))"

fun resolve_all :: "system \<Rightarrow> nat \<Rightarrow> resolvedRules \<Rightarrow> deferredBinary list \<Rightarrow> resolvedRules act" where
  "resolve_all X r R [] = ret R"
| "resolve_all X r R (d # ds) = and_then (resolve_one X r R d) (\<lambda>R'. resolve_all X r R' ds)"

definition resolveDeferred :: "system \<Rightarrow> nat \<Rightarrow> resolvedRules act" where
  "resolveDeferred X r =
     and_then (get (\<lambda>w. g_deferred (w_guards w r)))
       (resolve_all X r \<lparr>rr_resolved = [], rr_events = [], rr_links = [], rr_deferred = []\<rparr>)"

definition copy_map :: "('k, 'v) gomap \<Rightarrow> ('k, 'v) gomap \<Rightarrow> ('k, 'v) gomap" where
  "copy_map dst src = foldl (\<lambda>m (k, v). AList.update k v m) dst src"

definition pin_entry :: "system \<Rightarrow> nat \<Rightarrow> BinaryEntry \<Rightarrow> unit act" where
  "pin_entry X r b = and_then (look X (\<lambda>s. canonicalBinaryPath s (be_Path b))) (\<lambda>c. modify (pin_state r c (be_Hash b)))"

definition retryDeferredBinaries :: "system \<Rightarrow> nat \<Rightarrow> resolvedRules \<Rightarrow> unit act" where
  "retryDeferredBinaries X r R =
     and_then (modify (upd_guard r (\<lambda>g. g\<lparr>g_deferred := rr_deferred R\<rparr>))) (\<lambda>_.
     if rr_resolved R = [] then ret () else
     and_then (addBinaryActions X r (rr_resolved R) (rr_events R)) (\<lambda>_.
     and_then (modify (upd_guard r (\<lambda>g. g\<lparr>g_binaries := g_binaries g @ rr_resolved R,
       g_exeEvents := copy_map (g_exeEvents g) (rr_events R), g_links := copy_map (g_links g) (rr_links R)\<rparr>))) (\<lambda>_.
     and_then (get (\<lambda>w. g_pinning (w_guards w r))) (\<lambda>pinning.
     if pinning then for_each (rr_resolved R) (pin_entry X r) else ret ()))))"

definition ResolvePendingBinaries :: "system \<Rightarrow> nat \<Rightarrow> unit act" where
  "ResolvePendingBinaries X r =
     and_then (get (\<lambda>w. g_deferred (w_guards w r) \<noteq> [])) (\<lambda>pending. if \<not> pending then ret () else
     and_then (resolveDeferred X r) (\<lambda>R.
     and_then (retryDeferredBinaries X r R) (\<lambda>_.
     modify (upd_guard r (\<lambda>g. g\<lparr>g_canonicalPaths := foldl (\<lambda>m b. AList.update (be_Path b) (be_Path b) m) (g_canonicalPaths g) (rr_resolved R)\<rparr>)))))"

subsection \<open>Replacements\<close>

definition replacementAllowed :: "system \<Rightarrow> string \<Rightarrow> nat \<Rightarrow> GuardInodeKey \<Rightarrow> GuardInodeKey \<Rightarrow> bool act" where
  "replacementAllowed X path f old newKey =
     and_then (get w_check) (\<lambda>check. if check then AllowReplacement X path (Some f) old newKey else ret False)"

text \<open>\<open>firstTime\<close>: only what is logged depends on it.\<close>

definition note_refused :: "nat \<Rightarrow> string \<Rightarrow> GuardInodeKey \<Rightarrow> unit act" where
  "note_refused r path key = modify (upd_guard r (\<lambda>g. g\<lparr>g_refused := AList.update path key (g_refused g)\<rparr>))"

definition appletKeyOrRefuse :: "system \<Rightarrow> nat \<Rightarrow> string \<Rightarrow> nat \<Rightarrow> GuardInodeKey \<Rightarrow> GuardInodeKey option act" where
  "appletKeyOrRefuse X r path f file =
     and_then (attempt (exe_key X path (Some f) file)) (\<lambda>x. case x of
       Inl _ \<Rightarrow> and_then (note_refused r path file) (\<lambda>_. ret None)
     | Inr exe \<Rightarrow> ret (Some exe))"

definition sweepShareTTL :: int where "sweepShareTTL = 2000000000"
definition sweepMemoMax :: nat where "sweepMemoMax = 8192"

definition sweep_record :: "string \<Rightarrow> string \<Rightarrow> GuardInodeKey \<Rightarrow> int \<Rightarrow> unit act" where
  "sweep_record binPath canonical key now = modify (\<lambda>w. w\<lparr>w_sweep := AList.update binPath (canonical, key, now)
     (if length (w_sweep w) \<ge> sweepMemoMax then [] else w_sweep w)\<rparr>)"

definition sweep_lookup :: "world \<Rightarrow> string \<Rightarrow> int \<Rightarrow> (string \<times> GuardInodeKey) option" where
  "sweep_lookup w binPath now =
     (case map_of (w_sweep w) binPath of
        None \<Rightarrow> None
      | Some (canonical, key, at) \<Rightarrow> if now - at > sweepShareTTL \<or> now < at then None else Some (canonical, key))"

definition unchangedPerShared :: "nat \<Rightarrow> string \<Rightarrow> int \<Rightarrow> bool act" where
  "unchangedPerShared r binPath now = get (\<lambda>w. case sweep_lookup w binPath now of
     None \<Rightarrow> False
   | Some (canonical, key) \<Rightarrow> (case map_of (g_deployed (w_guards w r)) canonical of None \<Rightarrow> False | Some d \<Rightarrow> Real d = key))"

text \<open>The key last admitted at a path: deployed, else retired (zero without either).\<close>

definition old_key :: "Guard \<Rightarrow> string \<Rightarrow> GuardInodeKey" where
  "old_key g path = (case map_of (g_deployed g) path of Some k \<Rightarrow> k
     | None \<Rightarrow> (case map_of (g_retired g) path of Some k \<Rightarrow> k | None \<Rightarrow> zero_key))"

definition note_resynced :: "nat \<Rightarrow> string \<Rightarrow> GuardInodeKey \<Rightarrow> string \<Rightarrow> unit act" where
  "note_resynced r path exe binPath = modify (upd_guard r (\<lambda>g. g\<lparr>g_deployed := AList.update path exe (g_deployed g),
     g_retired := AList.delete path (g_retired g), g_keyPaths := AList.update exe binPath (g_keyPaths g)\<rparr>))"

definition resyncOne :: "system \<Rightarrow> nat \<Rightarrow> string \<Rightarrow> event_lists \<Rightarrow> bool act" where
  "resyncOne X r binPath exeEvents =
     and_then (look X (\<lambda>s. canonicalBinaryPath s binPath)) (\<lambda>path.
     and_then (attempt (open_confined X binPath)) (\<lambda>f. case f of Inl _ \<Rightarrow> ret False | Inr f \<Rightarrow>
     and_then (fd_key X binPath f) (\<lambda>key. case key of None \<Rightarrow> ret False | Some key \<Rightarrow>
     and_then (look X ge_Now) (\<lambda>now.
     and_then (sweep_record binPath path key now) (\<lambda>_.
     and_then (get (\<lambda>w. w_guards w r)) (\<lambda>g.
     if map_of (g_deployed g) path \<noteq> None \<and> Real (old_key g path) = key then ret False else
     and_then (appletKeyOrRefuse X r binPath f key) (\<lambda>exe. case exe of None \<Rightarrow> ret False | Some exe \<Rightarrow>
     and_then (replacementAllowed X binPath f (Real (old_key g path)) key) (\<lambda>ok. if \<not> ok then and_then (note_refused r path key) (\<lambda>_. ret False) else
     and_then (liftSuperseded key) (\<lambda>_.
     and_then (putBinaryKey r exe binPath exeEvents) (\<lambda>_.
     and_then (note_resynced r path exe binPath) (\<lambda>_. ret True)))))))))))"

subsection \<open>Links\<close>

text \<open>Only the first entry named \<open>target\<close> is replaced; \<open>named\<close> says whether another one is left.\<close>

fun replace_first :: "string \<Rightarrow> BinaryEntry \<Rightarrow> BinaryEntry list \<Rightarrow> BinaryEntry list \<times> bool" where
  "replace_first target e [] = ([e], False)"
| "replace_first target e (b # bs) =
     (if be_Path b = target then (e # bs, list_ex (\<lambda>b. be_Path b = target) bs)
      else (case replace_first target e bs of (bs', named) \<Rightarrow> (b # bs', named)))"

definition retarget_guard :: "world \<Rightarrow> string \<Rightarrow> string \<Rightarrow> BinaryEntry \<Rightarrow> GuardInodeKey \<Rightarrow> GuardInodeKey \<Rightarrow> bool \<Rightarrow> Guard \<Rightarrow> Guard" where
  "retarget_guard w link target entry key old deployed g =
     (let resolved = be_Path entry;
          links = AList.update link resolved (g_links g);
          (binaries, named0) = replace_first target entry (g_binaries g);
          named = named0 \<or> list_ex (\<lambda>(_, t). t = target) links;
          g1 = g\<lparr>g_links := links, g_binaries := binaries,
            g_exeEvents := (case map_of (g_exeEvents g) target of Some ts \<Rightarrow> AList.update resolved ts (g_exeEvents g) | None \<Rightarrow> g_exeEvents g),
            g_canonicalPaths := AList.update resolved resolved (g_canonicalPaths g),
            g_deployed := AList.update resolved key (g_deployed g),
            g_retired := AList.delete resolved (g_retired g),
            g_keyPaths := AList.update key resolved (g_keyPaths g),
            g_verifyStates := (if g_pinning g then AList.update resolved (newVerifyState w key (be_Hash entry)) (g_verifyStates g) else g_verifyStates g)\<rparr> in
      if named then g1
      else g1\<lparr>g_deployed := AList.delete target (g_deployed g1), g_retired := AList.delete target (g_retired g1),
        g_verifyStates := (if g_pinning g then AList.delete target (g_verifyStates g1) else g_verifyStates g1),
        g_keyPaths := (if deployed then AList.update old link (g_keyPaths g1) else g_keyPaths g1)\<rparr>)"

definition retargetLink :: "nat \<Rightarrow> string \<Rightarrow> string \<Rightarrow> BinaryEntry \<Rightarrow> GuardInodeKey \<Rightarrow> GuardInodeKey \<Rightarrow> bool \<Rightarrow> unit act" where
  "retargetLink r link target entry key old deployed =
     modify (\<lambda>w. upd_guard r (retarget_guard w link target entry key old deployed) w)"

definition namesExe :: "world \<Rightarrow> GuardInodeKey \<Rightarrow> bool" where
  "namesExe w exe = list_ex (\<lambda>(_, r). list_ex (\<lambda>(_, k). Real k = exe) (g_deployed (w_guards w r))) (live_slots w)"

text \<open>An existing mark keeps its counter.\<close>

definition supersedeUnnamed :: "GuardInodeKey \<Rightarrow> unit act" where
  "supersedeUnnamed k0 =
     (let k = Real k0 in
      and_then (get (\<lambda>w. k = zero_key \<or> namesExe w k)) (\<lambda>keep. if keep then ret () else
      logged (and_then (map_get ExeSeq 0) (\<lambda>now. case now of None \<Rightarrow> fail MapFault | Some now \<Rightarrow>
        and_then (get (\<lambda>w. map_of (ExeSuperseded w) k)) (\<lambda>mark. case mark of
          Some _ \<Rightarrow> ret ()
        | None \<Rightarrow> map_put ExeSuperseded_update k \<lparr>su_Seq = now + 1, su_Freed = 0\<rparr>)))))"

definition resyncLink :: "system \<Rightarrow> nat \<Rightarrow> string \<Rightarrow> string \<Rightarrow> event_lists \<Rightarrow> bool act" where
  "resyncLink X r link target exeEvents =
     and_then (attempt (open_confined X link)) (\<lambda>f. case f of Inl _ \<Rightarrow> ret False | Inr f \<Rightarrow>
     and_then (fd_path X link f) (\<lambda>resolved. case resolved of None \<Rightarrow> ret False | Some resolved \<Rightarrow>
     if resolved = target then ret False else
     and_then (fd_key X link f) (\<lambda>key. case key of None \<Rightarrow> ret False | Some key \<Rightarrow>
     and_then (get (\<lambda>w. w_guards w r)) (\<lambda>g. let old = old_key g target; deployed = map_of (g_deployed g) target \<noteq> None in
     if key = Real old then ret False else
     and_then (appletKeyOrRefuse X r link f key) (\<lambda>exe. case exe of None \<Rightarrow> ret False | Some exe \<Rightarrow>
     and_then (replacementAllowed X link f (Real old) key) (\<lambda>ok. if \<not> ok then and_then (note_refused r link key) (\<lambda>_. ret False) else
     and_then (attempt (hashFileShared X f resolved)) (\<lambda>h. case h of Inl _ \<Rightarrow> ret False | Inr (entry, _) \<Rightarrow>
     and_then (liftSuperseded key) (\<lambda>_.
     and_then (putBinaryKey r exe target exeEvents) (\<lambda>_.
     and_then (retargetLink r link target entry exe old deployed) (\<lambda>_.
     and_then (supersedeUnnamed old) (\<lambda>_. ret True)))))))))))"

text \<open>Counting what changed.\<close>

fun count_each :: "'a list \<Rightarrow> ('a \<Rightarrow> bool act) \<Rightarrow> nat act" where
  "count_each [] f = ret 0"
| "count_each (x # xs) f = and_then (f x) (\<lambda>ok. and_then (count_each xs f) (\<lambda>n. ret (if ok then Suc n else n)))"

definition resyncLinks :: "system \<Rightarrow> nat \<Rightarrow> event_lists \<Rightarrow> nat act" where
  "resyncLinks X r exeEvents =
     and_then (get (\<lambda>w. g_links (w_guards w r))) (\<lambda>links. count_each links (\<lambda>(link, target). resyncLink X r link target exeEvents))"

subsection \<open>Catalog patterns\<close>

definition patternMatches :: "system \<Rightarrow> string \<Rightarrow> string list act" where
  "patternMatches X pattern =
     (if \<not> list_ex (\<lambda>c. c \<in> set ''*?['') pattern then ret [pattern] else look X (\<lambda>s. ge_Glob s pattern))"

definition note_matched :: "string \<Rightarrow> string \<Rightarrow> event_type list \<Rightarrow> BinaryEntry \<Rightarrow> GuardInodeKey \<Rightarrow> world \<Rightarrow> Guard \<Rightarrow> Guard" where
  "note_matched path resolved events entry key w g = g\<lparr>g_binaries := g_binaries g @ [entry],
     g_exeEvents := AList.update path events (g_exeEvents g), g_canonicalPaths := AList.update path resolved (g_canonicalPaths g),
     g_deployed := AList.update resolved key (g_deployed g), g_keyPaths := AList.update key path (g_keyPaths g),
     g_verifyStates := (if g_pinning g then AList.update resolved (newVerifyState w key (be_Hash entry)) (g_verifyStates g) else g_verifyStates g)\<rparr>"

definition admitSystemMatch :: "system \<Rightarrow> nat \<Rightarrow> string \<Rightarrow> event_type list \<Rightarrow> bool act" where
  "admitSystemMatch X r path events =
     and_then (look X (\<lambda>s. ge_OpenSystemPlaced s path)) (\<lambda>f. case f of None \<Rightarrow> ret False | Some f \<Rightarrow>
     and_then (fd_key X path f) (\<lambda>file. case file of None \<Rightarrow> ret False | Some file \<Rightarrow>
     and_then (fd_path X path f) (\<lambda>resolved. case resolved of None \<Rightarrow> ret False | Some resolved \<Rightarrow>
     and_then (get (\<lambda>w. map_of (g_deployed (w_guards w r)) resolved \<noteq> None)) (\<lambda>deployed. if deployed then ret False else
     and_then (replacementAllowed X path f zero_key file) (\<lambda>ok. if \<not> ok then ret False else
     and_then (attempt (hashFileShared X f path)) (\<lambda>h. case h of Inl _ \<Rightarrow> ret False | Inr (entry, _) \<Rightarrow>
     and_then (appletKeyOrRefuse X r path f file) (\<lambda>key. case key of None \<Rightarrow> ret False | Some key \<Rightarrow>
     and_then (liftSuperseded key) (\<lambda>_.
     and_then (putBinaryKey r key path [(path, events)]) (\<lambda>_.
     and_then (modify (\<lambda>w. upd_guard r (note_matched path resolved events entry key w) w)) (\<lambda>_. ret True))))))))))"

text \<open>\<open>known\<close> grows with each match admitted.\<close>

fun admit_matches :: "system \<Rightarrow> nat \<Rightarrow> event_type list \<Rightarrow> string list \<Rightarrow> string list \<Rightarrow> string list act" where
  "admit_matches X r events known [] = ret known"
| "admit_matches X r events known (m # ms) =
     (if m \<in> set known then admit_matches X r events known ms
      else and_then (admitSystemMatch X r m events) (\<lambda>ok. admit_matches X r events (if ok then m # known else known) ms))"

fun admit_patterns :: "system \<Rightarrow> nat \<Rightarrow> string list \<Rightarrow> BinaryRule list \<Rightarrow> string list act" where
  "admit_patterns X r known [] = ret known"
| "admit_patterns X r known (p # ps) =
     and_then (patternMatches X (bin_Path p)) (\<lambda>ms.
     and_then (admit_matches X r (bin_Events p) known ms) (\<lambda>known'. admit_patterns X r known' ps))"

definition admitSystemMatches :: "system \<Rightarrow> nat \<Rightarrow> nat act" where
  "admitSystemMatches X r =
     and_then (get (\<lambda>w. w_guards w r)) (\<lambda>g.
     let known = map be_Path (g_binaries g) @ map (\<lambda>d. bin_Path (db_rule d)) (g_deferred g) in
     and_then (admit_patterns X r known (g_systemPatterns g)) (\<lambda>known'. ret (length known' - length known)))"

subsection \<open>The re-sync\<close>

definition reSyncBinaries :: "system \<Rightarrow> nat \<Rightarrow> bool \<Rightarrow> nat act" where
  "reSyncBinaries X r shared =
     and_then (resolveDeferred X r) (\<lambda>R.
     and_then (retryDeferredBinaries X r R) (\<lambda>_.
     and_then (get (\<lambda>w. w_guards w r)) (\<lambda>g.
     and_then (count_each (g_binaries g) (\<lambda>b.
       and_then (if shared then and_then (look X ge_Now) (unchangedPerShared r (be_Path b)) else ret False) (\<lambda>skip.
       if skip then ret False else resyncOne X r (be_Path b) (g_exeEvents g)))) (\<lambda>changed.
     and_then (resyncLinks X r (g_exeEvents g)) (\<lambda>relinked.
     and_then (admitSystemMatches X r) (\<lambda>added. ret (changed + relinked + added)))))))"

definition resyncLive :: "system \<Rightarrow> nat \<Rightarrow> unit act" where
  "resyncLive X r =
     and_then (get (\<lambda>w. g_stopped (w_guards w r))) (\<lambda>stopped. if stopped then ret () else
     logged (and_then (reSyncBinaries X r False) (\<lambda>_. ret ())))"

definition resyncGuards :: "system \<Rightarrow> unit act" where
  "resyncGuards X = and_then (get live_slots) (\<lambda>slots. for_each slots (\<lambda>(_, r). resyncLive X r))"

end
