(* ===== verification/Guard_Supersede.thy ===== *)
theory Guard_Supersede
  imports Guard_Resync
begin

text \<open>
  The superseded marks (\<open>internal/guard/supersede.go\<close>): dropping the rows of freed inodes, and
  carrying the others to the replacement of a reloading guard; and the verifier that demotes a binary
  rewritten in place (\<open>guard.go\<close>). Times are nanoseconds.
\<close>

subsection \<open>The prune\<close>

definition supersedeHoldMax :: int where "supersedeHoldMax = 300000000000"

text \<open>Which freed keys may be dropped, and when each was first seen freed.\<close>

fun droppableFreed :: "GuardInodeKey list \<Rightarrow> (GuardInodeKey, int) gomap \<Rightarrow> int \<Rightarrow> bool \<Rightarrow> GuardInodeKey list \<times> (GuardInodeKey, int) gomap" where
  "droppableFreed [] freedAt now held = ([], [])"
| "droppableFreed (k # ks) freedAt now held =
     (case droppableFreed ks freedAt now held of (dropped, seen) \<Rightarrow>
      case map_of freedAt k of
        None \<Rightarrow> (dropped, (k, now) # seen)
      | Some at \<Rightarrow> (if \<not> held \<or> now - at \<ge> supersedeHoldMax then k # dropped else dropped, (k, at) # seen))"

definition freed_keys :: "(GuardInodeKey, exeSupersede) gomap \<Rightarrow> GuardInodeKey list" where
  "freed_keys marks = map fst (filter (\<lambda>(_, v). su_Freed v \<noteq> 0) marks)"

definition freedSuperseded :: "system \<Rightarrow> int \<Rightarrow> GuardInodeKey list act" where
  "freedSuperseded X now =
     and_then (look X ge_Hold) (\<lambda>held.
     and_then (attempt (map_rows ExeSuperseded)) (\<lambda>x. case x of Inl _ \<Rightarrow> ret [] | Inr marks \<Rightarrow>
     and_then (get s_freedAt) (\<lambda>freedAt.
     case droppableFreed (freed_keys marks) freedAt now held of (dropped, seen) \<Rightarrow>
       and_then (modify (\<lambda>w. w\<lparr>s_freedAt := seen\<rparr>)) (\<lambda>_. ret dropped))))"

text \<open>One walk sorts the marks into those to drop with their rows and those nothing names.\<close>

fun sort_marks :: "GuardInodeKey list \<Rightarrow> (GuardInodeKey, exeSupersede) gomap \<Rightarrow> (GuardInodeKey list \<times> GuardInodeKey list) act" where
  "sort_marks resynced [] = ret ([], [])"
| "sort_marks resynced ((k, v) # ms) =
     and_then (if su_Freed v \<noteq> 0 then ret False else
       and_then (get (\<lambda>w. admitsExe w k)) (\<lambda>adm. if adm then ret False else
       and_then (get w_trust) (\<lambda>t. if t = None then ret True else and_then (trusts k) (\<lambda>tr. ret (\<not> tr))))) (\<lambda>un.
     and_then (sort_marks resynced ms) (\<lambda>(gone, unused).
     ret (if su_Freed v \<noteq> 0 \<and> k \<in> set resynced then k # gone else gone, if un then k # unused else unused)))"

definition pruneSuperseded :: "GuardInodeKey list \<Rightarrow> unit act" where
  "pruneSuperseded resynced =
     and_then (attempt (map_rows ExeSuperseded)) (\<lambda>x. case x of Inl _ \<Rightarrow> ret () | Inr marks \<Rightarrow>
     and_then (sort_marks resynced marks) (\<lambda>(gone, unused).
     and_then (for_each gone dropSupersededLocked) (\<lambda>_.
     for_each unused (\<lambda>k. logged (map_del ExeSuperseded_update k)))))"

definition PruneSuperseded :: "system \<Rightarrow> unit act" where
  "PruneSuperseded X =
     and_then (look X ge_Now) (\<lambda>now.
     and_then (freedSuperseded X now) (\<lambda>freed.
     if freed = [] then pruneSuperseded []
     else and_then (resyncGuards X) (\<lambda>_. pruneSuperseded freed)))"

subsection \<open>Across a reload\<close>

record supersededBinary =
  sb_path :: string
  sb_key :: GuardInodeKey
  sb_action :: u8
  sb_mask :: "u32 option"

definition superseded_binary :: "nat \<Rightarrow> GuardInodeKey \<Rightarrow> string \<Rightarrow> supersededBinary option act" where
  "superseded_binary r k p =
     and_then (map_look ExeSuperseded (Real k)) (\<lambda>mark. case mark of None \<Rightarrow> ret None | Some v \<Rightarrow>
     if su_Freed v \<noteq> 0 then ret None else
     and_then (get (\<lambda>w. g_resID (w_guards w r))) (\<lambda>res.
     and_then (attempt (map_get GuardExeActions (res, k))) (\<lambda>a. case a of Inl _ \<Rightarrow> ret None | Inr None \<Rightarrow> ret None | Inr (Some action) \<Rightarrow>
     and_then (attempt (map_get GuardExeEvents (res, k))) (\<lambda>m. case m of
       Inl _ \<Rightarrow> ret None
     | Inr msk \<Rightarrow> ret (Some \<lparr>sb_path = p, sb_key = k, sb_action = action, sb_mask = msk\<rparr>)))))"

fun superseded_list :: "nat \<Rightarrow> (GuardInodeKey, string) gomap \<Rightarrow> supersededBinary list act" where
  "superseded_list r [] = ret []"
| "superseded_list r ((k, p) # kps) =
     and_then (superseded_binary r k p) (\<lambda>b. and_then (superseded_list r kps) (\<lambda>bs.
     ret (case b of None \<Rightarrow> bs | Some b \<Rightarrow> b # bs)))"

definition supersededLocked :: "nat \<Rightarrow> supersededBinary list act" where
  "supersededLocked r = and_then (get (\<lambda>w. g_keyPaths (w_guards w r))) (superseded_list r)"

definition carrySupersededLocked :: "nat \<Rightarrow> supersededBinary \<Rightarrow> unit act" where
  "carrySupersededLocked r b =
     and_then (get (\<lambda>w. g_resID (w_guards w r))) (\<lambda>res.
     and_then (case sb_mask b of None \<Rightarrow> ret () | Some m \<Rightarrow> map_put GuardExeEvents_update (res, sb_key b) m) (\<lambda>_.
     and_then (putExeAction r (sb_key b) (sb_action b)) (\<lambda>_.
     modify (upd_guard r (\<lambda>g. g\<lparr>g_keyPaths := AList.update (sb_key b) (sb_path b) (g_keyPaths g)\<rparr>)))))"

definition carriesLine :: "system \<Rightarrow> nat \<Rightarrow> string \<Rightarrow> bool act" where
  "carriesLine X r path =
     and_then (get (\<lambda>w. w_guards w r)) (\<lambda>g.
     if map_of (g_links g) path \<noteq> None \<or> list_ex (\<lambda>b. be_Path b = path) (g_binaries g) \<or>
        list_ex (\<lambda>d. bin_Path (db_rule d) = path) (g_deferred g)
     then ret True else look X (\<lambda>s. ge_Missing s path))"

definition carry_one :: "system \<Rightarrow> nat \<Rightarrow> supersededBinary \<Rightarrow> unit act" where
  "carry_one X r b = and_then (carriesLine X r (sb_path b)) (\<lambda>c. if c then logged (carrySupersededLocked r b) else ret ())"

definition inheritSuperseded :: "system \<Rightarrow> nat \<Rightarrow> unit act" where
  "inheritSuperseded X r =
     and_then (get (\<lambda>w. reloadTwins w r)) (\<lambda>twins.
     for_each twins (\<lambda>twin. and_then (supersededLocked twin) (\<lambda>bs. for_each bs (carry_one X r))))"

definition warnLostStamps :: "u64 \<Rightarrow> u64 act" where
  "warnLostStamps seen = and_then (map_look ExeSeq 1) (\<lambda>lost. ret (case lost of None \<Rightarrow> seen | Some l \<Rightarrow> if l \<le> seen then seen else l))"

subsection \<open>The verifier\<close>

definition put_verify_state :: "nat \<Rightarrow> string \<Rightarrow> verifyState \<Rightarrow> unit act" where
  "put_verify_state r canonical st = modify (upd_guard r (\<lambda>g. g\<lparr>g_verifyStates := AList.update canonical st (g_verifyStates g)\<rparr>))"

definition demoteInPlace :: "nat \<Rightarrow> string \<Rightarrow> verifyState \<Rightarrow> unit act" where
  "demoteInPlace r canonical st =
     and_then (exeGone (vs_key st)) (\<lambda>gone. if gone then ret () else
     and_then (attempt (putExeAction r (vs_key st) GUARD_BLOCK)) (\<lambda>x. case x of
       Inl _ \<Rightarrow> ret ()
     | Inr _ \<Rightarrow> put_verify_state r canonical (st\<lparr>vs_demoted := True\<rparr>)))"

definition adoptReplacedIdentity :: "system \<Rightarrow> nat \<Rightarrow> string \<Rightarrow> BinaryStat \<Rightarrow> bytes \<Rightarrow> unit act" where
  "adoptReplacedIdentity X r canonical fp hash =
     and_then (get (\<lambda>w. case map_of (g_deployed (w_guards w r)) canonical of None \<Rightarrow> zero_key | Some k \<Rightarrow> k)) (\<lambda>deployedKey.
     if Real deployedKey \<noteq> bs_Key fp then ret () else
     and_then (settled X fp) (\<lambda>s.
     put_verify_state r canonical \<lparr>vs_key = deployedKey, vs_stat = fp, vs_hash = hash, vs_hashed = s, vs_demoted = False\<rparr>))"

definition verify_one :: "system \<Rightarrow> nat \<Rightarrow> string \<times> verifyState \<Rightarrow> unit act" where
  "verify_one X r c =
     (case c of (canonical, st) \<Rightarrow>
      and_then (look X (\<lambda>s. ge_StatBinary s canonical)) (\<lambda>fp0. case fp0 of None \<Rightarrow> ret () | Some fp0 \<Rightarrow>
      if vs_hashed st \<and> bs_Key fp0 = Real (vs_key st) \<and> fp0 = vs_stat st then ret () else
      and_then (attempt (hashPathShared X canonical)) (\<lambda>h. case h of Inl _ \<Rightarrow> ret () | Inr (entry, fp) \<Rightarrow>
      if bs_Key fp \<noteq> Real (vs_key st) then adoptReplacedIdentity X r canonical fp (be_Hash entry) else
      and_then (settled X fp) (\<lambda>s.
      let st' = st\<lparr>vs_stat := fp, vs_hashed := s\<rparr> in
      and_then (put_verify_state r canonical st') (\<lambda>_.
      if \<not> vs_demoted st' \<and> be_Hash entry \<noteq> vs_hash st' then demoteInPlace r canonical st' else ret ())))))"

definition verifyBinaryHashesOnce :: "system \<Rightarrow> nat \<Rightarrow> unit act" where
  "verifyBinaryHashesOnce X r =
     and_then (get (\<lambda>w. g_verifyStates (w_guards w r))) (\<lambda>states. for_each states (verify_one X r))"

end
