(* ===== verification/Supersede_Facts.thy ===== *)
theory Supersede_Facts
  imports Guard_Supersede Refresh_Frame Policy_Facts
begin

text \<open>
  What holds of the marks of freed inodes and of the re-sync: which keys a prune takes for droppable, that
  a mark outlives every row of its inode, and that a replacement is admitted only with proof of who made it.
\<close>

subsection \<open>Which keys a prune drops\<close>

lemma droppable_seen: "k \<in> set ks \<Longrightarrow> map_of (snd (droppableFreed ks freedAt now held)) k =
    Some (case map_of freedAt k of None \<Rightarrow> now | Some at \<Rightarrow> at)"
  by (induction ks) (auto split: prod.splits option.splits)

lemma droppable_iff: "k \<in> set (fst (droppableFreed ks freedAt now held)) \<longleftrightarrow>
    k \<in> set ks \<and> (\<exists>at. map_of freedAt k = Some at \<and> (\<not> held \<or> now - at \<ge> supersedeHoldMax))"
  by (induction ks) (auto split: prod.splits option.splits)

text \<open>A walk that fails changes nothing and drops nothing.\<close>

lemma freedSuperseded_run:
  assumes "freedSuperseded X now w = (Inr d, u)" and k: "map_of (ExeSuperseded w) k = Some v" "su_Freed v \<noteq> 0"
  shows "s_freedAt u = s_freedAt w \<or> map_of (s_freedAt u) k = Some (case map_of (s_freedAt w) k of None \<Rightarrow> now | Some at \<Rightarrow> at)"
    and "\<not> faults w (Suc (tick w)) \<Longrightarrow> map_of (s_freedAt u) k = Some (case map_of (s_freedAt w) k of None \<Rightarrow> now | Some at \<Rightarrow> at)"
    and "\<not> faults w (Suc (tick w)) \<Longrightarrow> map_of (s_freedAt w) k = Some at \<Longrightarrow> now - at \<ge> supersedeHoldMax \<Longrightarrow> k \<in> set d"
proof -
  let ?df = "droppableFreed (freed_keys (ExeSuperseded w)) (s_freedAt w) now (ge_Hold (X (tick w)))"
  have mem: "k \<in> set (freed_keys (ExeSuperseded w))"
    using map_of_SomeD [OF k(1)] k(2) by (force simp: freed_keys_def)
  have run: "if faults w (Suc (tick w)) then d = [] \<and> s_freedAt u = s_freedAt w
     else d = fst ?df \<and> s_freedAt u = snd ?df"
    using assms(1) by (auto simp: freedSuperseded_def and_then_def look_def attempt_def map_rows_def get_def modify_def ret_def
        step_tick_def split: prod.splits if_splits)
  show "s_freedAt u = s_freedAt w \<or> map_of (s_freedAt u) k = Some (case map_of (s_freedAt w) k of None \<Rightarrow> now | Some at \<Rightarrow> at)"
    using run droppable_seen [OF mem] by (auto split: if_splits)
  show "\<not> faults w (Suc (tick w)) \<Longrightarrow> map_of (s_freedAt u) k = Some (case map_of (s_freedAt w) k of None \<Rightarrow> now | Some at \<Rightarrow> at)"
    using run droppable_seen [OF mem] by simp
  show "\<not> faults w (Suc (tick w)) \<Longrightarrow> map_of (s_freedAt w) k = Some at \<Longrightarrow> now - at \<ge> supersedeHoldMax \<Longrightarrow> k \<in> set d"
    using run mem by (simp add: droppable_iff)
qed

lemma freedSuperseded_total: "\<exists>d u. freedSuperseded X now w = (Inr d, u) \<and> ExeSuperseded u = ExeSuperseded w \<and> faults u = faults w"
  by (auto simp: freedSuperseded_def and_then_def look_def attempt_def map_rows_def get_def modify_def ret_def split: prod.splits)

subsection \<open>The mark outlives the rows\<close>

context bpf_map
begin

lemma delete_where:
  "run (\<lambda>_. True) (and_then (map_rows sel) (\<lambda>rs. for_each (filter stale (map fst rs)) (map_del upd)))
     (\<lambda>_ w. \<forall>k. stale k \<longrightarrow> view w k = None) (\<lambda>_. True)"
proof (rule run_and_then [where R = "\<lambda>rs w. view w = map_of rs"])
  show "run (\<lambda>_. True) (map_rows sel) (\<lambda>rs w. view w = map_of rs) (\<lambda>_. True)"
    by (rule run_map_rows) (simp_all add: view_def sel_tick)
  show "run (\<lambda>w. view w = map_of rs) (for_each (filter stale (map fst rs)) (map_del upd)) (\<lambda>_ w. \<forall>k. stale k \<longrightarrow> view w k = None) (\<lambda>_. True)"
    for rs
  proof -
    have "view w k = None" if "view w = map_of rs |` (- {k \<in> set (filter stale (map fst rs)). \<not> False})" "stale k" for w k
      using that by (auto simp: restrict_map_def map_of_eq_None_iff)
    then show ?thesis using run_post [OF del_loop [of "map_of rs" "filter stale (map fst rs)" "\<lambda>_. False"],
        of "\<lambda>_ w. \<forall>k. stale k \<longrightarrow> view w k = None" "\<lambda>_. True"] by simp
  qed
qed

end

definition no_rows :: "GuardInodeKey \<Rightarrow> (rkey, 'v) gomap \<Rightarrow> bool" where
  "no_rows k m \<longleftrightarrow> (\<forall>slot exe. Real exe = k \<longrightarrow> map_of m (slot, exe) = None)"

lemma deleteActions_run:
  "run (\<lambda>_. True) (deleteInoKeys GuardExeActions_update GuardExeActions k) (\<lambda>_ w. no_rows k (GuardExeActions w)) (\<lambda>_. True)"
  unfolding deleteInoKeys_def delete_rows_def
  by (rule run_post [OF actions.delete_where]) (simp_all add: no_rows_def actions.view_def)

lemma deleteEvents_run:
  "run (\<lambda>_. True) (deleteInoKeys GuardExeEvents_update GuardExeEvents k) (\<lambda>_ w. no_rows k (GuardExeEvents w)) (\<lambda>_. True)"
  unfolding deleteInoKeys_def delete_rows_def
  by (rule run_post [OF events.delete_where]) (simp_all add: no_rows_def events.view_def)

text \<open>What a forgotten inode leaves: nothing of the guards' rows, then nothing of the trust rows.\<close>

definition guard_free :: "GuardInodeKey \<Rightarrow> world \<Rightarrow> bool" where
  "guard_free k w \<longleftrightarrow> no_rows k (GuardExeActions w) \<and> no_rows k (GuardExeEvents w) \<and> map_of (GuardInspectors w) k = None"

definition trust_free :: "GuardInodeKey \<Rightarrow> world \<Rightarrow> bool" where
  "trust_free k w \<longleftrightarrow> map_of (GuardTrustedFiles w) k = None \<and> map_of (GuardBinOwner w) k = None \<and>
     map_of (GuardBinUpdaters w) k = None \<and> map_of (GuardGlobWriters w) k = None \<and> map_of (GuardLibdirUsers w) k = None"

definition marks :: "world \<Rightarrow> (GuardInodeKey, unit) gomap \<times> (GuardInodeKey, exeSupersede) gomap \<times> nat option" where
  "marks w = (GuardInspectors w, ExeSuperseded w, w_trust w)"

interpretation marks: refresh_frame marks
  by unfold_locales (simp_all add: marks_def)

lemma marks_events: "marks (GuardExeEvents_update f w) = marks w" and marks_guards: "marks (w_guards_update g w) = marks w"
  by (simp_all add: marks_def)

lemma forget_guards_frame:
  "GuardExeActions (forget_guards k w) = GuardExeActions w \<and> GuardExeEvents (forget_guards k w) = GuardExeEvents w \<and> marks (forget_guards k w) = marks w"
proof -
  have "GuardExeActions (foldl (\<lambda>w (_, q). upd_guard q (guard_forgetExe k) w) w qs) = GuardExeActions w \<and>
      GuardExeEvents (foldl (\<lambda>w (_, q). upd_guard q (guard_forgetExe k) w) w qs) = GuardExeEvents w \<and>
      marks (foldl (\<lambda>w (_, q). upd_guard q (guard_forgetExe k) w) w qs) = marks w" for qs :: "(nat \<times> nat) list"
  proof (induction qs arbitrary: w)
    case (Cons p qs)
    show ?case using Cons.IH [of "upd_guard (snd p) (guard_forgetExe k) w"]
      by (cases p) (simp add: upd_guard_def marks_guards)
  qed simp
  then show ?thesis by (simp add: forget_guards_def)
qed

lemma forget_rows_run:
  "run (\<lambda>w. marks w = s) (forget_rows k) (\<lambda>_ w. no_rows k (GuardExeActions w) \<and> no_rows k (GuardExeEvents w) \<and> marks w = s) (\<lambda>w. marks w = s)"
proof -
  let ?I = "\<lambda>w. marks w = s"
  have act: "run ?I (deleteInoKeys GuardExeActions_update GuardExeActions k) (\<lambda>_ w. no_rows k (GuardExeActions w) \<and> ?I w) ?I"
    by (rule run_pre [OF run_post [OF run_conj [OF deleteActions_run marks.deleteActions_part]]]) auto
  have evm: "keeps (\<lambda>w. no_rows k (GuardExeActions w) \<and> ?I w) (deleteInoKeys GuardExeEvents_update GuardExeEvents k)"
    unfolding deleteInoKeys_def delete_rows_def by (intro keep_rules run_map_del) (simp_all add: marks_events marks.part_simps)
  have ev: "run (\<lambda>w. no_rows k (GuardExeActions w) \<and> ?I w) (deleteInoKeys GuardExeEvents_update GuardExeEvents k)
      (\<lambda>_ w. no_rows k (GuardExeActions w) \<and> no_rows k (GuardExeEvents w) \<and> ?I w) ?I"
    by (rule run_pre [OF run_post [OF run_conj [OF deleteEvents_run evm]]]) auto
  show ?thesis unfolding forget_rows_def
    by (rule run_and_then [OF marks.syncShared_part], rule run_and_then [OF act]) (use ev in simp)
qed

lemma forgetExe_run:
  "run (\<lambda>w. marks w = (I, S, t) \<and> e_started w) (forgetExe k) (\<lambda>_ w. guard_free k w \<and> marks w = (AList.delete k I, S, t))
     (\<lambda>w. snd (marks w) = (S, t))"
proof -
  let ?d = "\<lambda>w. marks w = (AList.delete k I, S, t)"
  have rows: "run ?d (\<lambda>w. case forget_rows k w of (r, w') \<Rightarrow> (r, forget_guards k w')) (\<lambda>_ w. guard_free k w \<and> ?d w) (\<lambda>w. snd (marks w) = (S, t))"
  proof (rule runI)
    fix w x w' assume d: "?d w" and m: "(case forget_rows k w of (r, w') \<Rightarrow> (r, forget_guards k w')) = (Inr x, w')"
    then obtain v where v: "forget_rows k w = (Inr x, v)" "w' = forget_guards k v" by (auto split: prod.splits)
    have "GuardInspectors w' = AList.delete k I" if "?d w'" using that by (simp add: marks_def)
    then show "guard_free k w' \<and> ?d w'" using run_Inr [OF forget_rows_run d v(1)] forget_guards_frame [of k v] v(2)
      by (simp add: guard_free_def delete_conv')
  next
    fix w e w' assume d: "?d w" and m: "(case forget_rows k w of (r, w') \<Rightarrow> (r, forget_guards k w')) = (Inl e, w')"
    then obtain v where v: "forget_rows k w = (Inl e, v)" "w' = forget_guards k v" by (auto split: prod.splits)
    show "snd (marks w') = (S, t)" using run_Inl [OF forget_rows_run d v(1)] forget_guards_frame [of k v] v(2) by simp
  qed
  have del: "run (\<lambda>w. marks w = (I, S, t)) (map_del GuardInspectors_update k) (\<lambda>_. ?d) (\<lambda>w. snd (marks w) = (S, t))"
    by (rule run_map_del) (simp_all add: marks_def)
  show ?thesis unfolding forgetExe_def
  proof (rule run_and_then [where R = "\<lambda>_ w. marks w = (I, S, t) \<and> e_started w"], rule run_modify)
    show "run (\<lambda>w. marks w = (I, S, t) \<and> e_started w) (and_then (get e_started) (\<lambda>started. if \<not> started then ret () else
      and_then (map_del GuardInspectors_update k) (\<lambda>_. and_then (modify (\<lambda>w. w\<lparr>e_allows := map (\<lambda>(res, s). (res, gm_keep (\<lambda>ka _. Real ka \<noteq> k) s)) (e_allows w)\<rparr>))
       (\<lambda>_ w. case forget_rows k w of (r, w') \<Rightarrow> (r, forget_guards k w')))))
       (\<lambda>_ w. guard_free k w \<and> ?d w) (\<lambda>w. snd (marks w) = (S, t))"
    proof (rule run_and_then [where R = "\<lambda>st w. marks w = (I, S, t) \<and> st"], rule run_get)
      fix st
      have up: "run ?d (modify (\<lambda>w. w\<lparr>e_allows := map (\<lambda>(res, s). (res, gm_keep (\<lambda>ka _. Real ka \<noteq> k) s)) (e_allows w)\<rparr>)) (\<lambda>_. ?d) (\<lambda>w. snd (marks w) = (S, t))"
        by (rule run_modify) (simp add: marks_def)
      show "run (\<lambda>w. marks w = (I, S, t) \<and> st) (if \<not> st then ret () else
      and_then (map_del GuardInspectors_update k) (\<lambda>_. and_then (modify (\<lambda>w. w\<lparr>e_allows := map (\<lambda>(res, s). (res, gm_keep (\<lambda>ka _. Real ka \<noteq> k) s)) (e_allows w)\<rparr>))
       (\<lambda>_ w. case forget_rows k w of (r, w') \<Rightarrow> (r, forget_guards k w')))) (\<lambda>_ w. guard_free k w \<and> ?d w) (\<lambda>w. snd (marks w) = (S, t))"
        by (rule run_pure) (simp add: run_and_then [OF del run_and_then [OF up rows]])
    qed simp
  qed (simp_all add: marks_def)
qed

lemma retire_keeps: "(\<And>f w. I (t_retired_update f w) = I w) \<Longrightarrow> (\<And>w. I (step_tick w) = I w) \<Longrightarrow> keeps I (retire k)"
proof -
  assume a: "\<And>f w. I (t_retired_update f w) = I w" "\<And>w. I (step_tick w) = I w"
  have rb: "keeps I (read_bits ms k)" for ms by (induction ms) (simp_all add: keep_rules a)
  have "keeps I (modify (\<lambda>w. if length (t_retired w) < maxRetiredRows
           then w\<lparr>t_retired := AList.update k \<lparr>tr_flags = f, tr_bits = bs\<rparr> (t_retired w)\<rparr> else w))" for f bs
    by (rule run_modify) (simp add: a)
  then show ?thesis unfolding retire_def by (intro keep_rules rb) (simp_all add: a)
qed

lemma trust_forgetExe_run:
  "run (\<lambda>w. guard_free k w \<and> ExeSuperseded w = S) (trust_forgetExe k) (\<lambda>_ w. guard_free k w \<and> trust_free k w \<and> ExeSuperseded w = S)
     (\<lambda>w. ExeSuperseded w = S)"
proof -
  let ?P = "\<lambda>w. guard_free k w \<and> ExeSuperseded w = S"
  have ret: "run ?P (retire k) (\<lambda>_. ?P) (\<lambda>w. ExeSuperseded w = S)"
    by (rule run_post [OF retire_keeps]) (simp_all add: guard_free_def)
  show ?thesis unfolding trust_forgetExe_def trustBitMaps_def for_each.simps snd_conv
    apply (rule run_and_then [OF ret])
    apply (rule run_and_then [where R = "\<lambda>_ w. ?P w \<and> map_of (GuardTrustedFiles w) k = None"], rule run_map_del)
      apply (simp_all add: guard_free_def)[2]
    apply (rule run_and_then [where R = "\<lambda>_ w. ?P w \<and> map_of (GuardTrustedFiles w) k = None \<and> map_of (GuardBinOwner w) k = None"], rule run_map_del)
      apply (simp_all add: guard_free_def)[2]
    apply (rule run_and_then [where R = "\<lambda>_ w. ?P w \<and> map_of (GuardTrustedFiles w) k = None \<and> map_of (GuardBinOwner w) k = None \<and> map_of (GuardBinUpdaters w) k = None"], rule run_map_del)
      apply (simp_all add: guard_free_def)[2]
    apply (rule run_and_then [where R = "\<lambda>_ w. ?P w \<and> map_of (GuardTrustedFiles w) k = None \<and> map_of (GuardBinOwner w) k = None \<and> map_of (GuardBinUpdaters w) k = None \<and> map_of (GuardGlobWriters w) k = None"], rule run_map_del)
      apply (simp_all add: guard_free_def)[2]
    apply (rule run_and_then [where R = "\<lambda>_ w. ?P w \<and> trust_free k w"], rule run_map_del)
      apply (simp_all add: guard_free_def trust_free_def)[2]
    by (simp add: run_def ret_def)
qed

lemma dropSuperseded_run:
  "run (\<lambda>w. e_started w \<and> ExeSuperseded w = S \<and> w_trust w = t) (dropSupersededLocked k)
     (\<lambda>_ w. ExeSuperseded w = S \<or> guard_free k w \<and> (t \<noteq> None \<longrightarrow> trust_free k w)) (\<lambda>_. False)"
proof -
  let ?Q = "\<lambda>w. ExeSuperseded w = S \<or> guard_free k w \<and> (t \<noteq> None \<longrightarrow> trust_free k w)"
  let ?F = "\<lambda>w. guard_free k w \<and> ExeSuperseded w = S"
  have del: "run (\<lambda>w. ?F w \<and> (t \<noteq> None \<longrightarrow> trust_free k w)) (map_del ExeSuperseded_update k) (\<lambda>_. ?Q) ?Q"
    by (rule run_map_del) (simp_all add: guard_free_def trust_free_def)
  have trust: "run (\<lambda>w. ?F w \<and> x = t) (if x = None then ret () else trust_forgetExe k)
      (\<lambda>_ w. ?F w \<and> (t \<noteq> None \<longrightarrow> trust_free k w)) ?Q" for x
  proof (rule run_pure)
    assume "x = t"
    moreover have "run ?F (trust_forgetExe k) (\<lambda>_ w. ?F w \<and> (t \<noteq> None \<longrightarrow> trust_free k w)) ?Q"
      by (rule run_post [OF trust_forgetExe_run]) auto
    ultimately show "run ?F (if x = None then ret () else trust_forgetExe k) (\<lambda>_ w. ?F w \<and> (t \<noteq> None \<longrightarrow> trust_free k w)) ?Q"
      by (cases t) (simp_all add: run_ret)
  qed
  have forget: "run (\<lambda>w. e_started w \<and> ExeSuperseded w = S \<and> w_trust w = t) (forgetExe k) (\<lambda>_ w. ?F w \<and> w_trust w = t) ?Q"
  proof (rule runI)
    fix w :: world and x w' assume "e_started w \<and> ExeSuperseded w = S \<and> w_trust w = t"
    then have p: "marks w = (GuardInspectors w, S, t) \<and> e_started w" by (simp add: marks_def)
    show "?F w' \<and> w_trust w' = t" if "forgetExe k w = (Inr x, w')" using run_Inr [OF forgetExe_run p that] by (simp add: marks_def)
    show "?Q w'" if "forgetExe k w = (Inl e, w')" for e using run_Inl [OF forgetExe_run p that] by (simp add: marks_def)
  qed
  have "run (\<lambda>w. e_started w \<and> ExeSuperseded w = S \<and> w_trust w = t) (and_then (forgetExe k) (\<lambda>_. and_then (get w_trust) (\<lambda>x.
     and_then (if x = None then ret () else trust_forgetExe k) (\<lambda>_. map_del ExeSuperseded_update k)))) (\<lambda>_. ?Q) ?Q"
    by (rule run_and_then [OF forget], rule run_and_then [OF run_get run_and_then [OF trust del]]) simp
  then show ?thesis unfolding dropSupersededLocked_def by (rule run_logged)
qed

text \<open>C13 (safety). A superseded mark outlives every row of its inode: whatever map operation fails on the way, once a
  drop has taken the mark away no guard has an action or mask row for the inode, it is no inspector, and, with the trust
  rows open, no trust row names it. So an inode number that is used again inherits nothing.\<close>

theorem mark_outlives_rows:
  assumes "e_started w" and "dropSupersededLocked k w = (x, w')"
    and "map_of (ExeSuperseded w) k \<noteq> None" and "map_of (ExeSuperseded w') k = None"
  shows "guard_free k w' \<and> (w_trust w \<noteq> None \<longrightarrow> trust_free k w')"
proof (cases x)
  case (Inl e)
  with assms(1,2) run_Inl [OF dropSuperseded_run [of "ExeSuperseded w" "w_trust w" k], of w e w'] show ?thesis by simp
next
  case (Inr u)
  with assms run_Inr [OF dropSuperseded_run [of "ExeSuperseded w" "w_trust w" k], of w u w'] show ?thesis by auto
qed

definition marked_world :: world where
  "marked_world = demo_world\<lparr>ExeSuperseded := [(demo_file, \<lparr>su_Seq = 1, su_Freed = 1\<rparr>)], w_trust := Some 0,
     GuardTrustedFiles := [(demo_file, trustedBinary)], GuardBinOwner := [(demo_file, 4)], GuardInspectors := [(demo_file, ())]\<rparr>"

lemma marked_world_drop:
  "case dropSupersededLocked demo_file marked_world of (r, w') \<Rightarrow> r = Inr () \<and> map_of (ExeSuperseded w') demo_file = None"
  by code_simp

theorem mark_outlives_rows_witness:
  "guard_free demo_file (snd (dropSupersededLocked demo_file marked_world)) \<and> trust_free demo_file (snd (dropSupersededLocked demo_file marked_world))"
proof -
  let ?w' = "snd (dropSupersededLocked demo_file marked_world)"
  have run: "dropSupersededLocked demo_file marked_world = (Inr (), ?w')" and gone: "map_of (ExeSuperseded ?w') demo_file = None"
    using marked_world_drop by (auto split: prod.splits)
  have "e_started marked_world" "map_of (ExeSuperseded marked_world) demo_file \<noteq> None" "w_trust marked_world \<noteq> None"
    by (simp_all add: marked_world_def demo_world_def)
  with mark_outlives_rows [OF _ run _ gone] show ?thesis by simp
qed

subsection \<open>What proves a replacement\<close>

definition updater_made :: "world \<Rightarrow> string \<Rightarrow> GuardInodeKey \<Rightarrow> GuardInodeKey \<Rightarrow> bool" where
  "updater_made w path old nk \<longleftrightarrow> old \<noteq> zero_key \<and> Dev old = Dev nk \<and>
     (\<exists>owner exe u. map_of (t_ownerByPath w) path = Some owner \<and> map_of (GuardBinOrigin w) nk = Some (exe, False) \<and>
        map_of (GuardBinUpdaters w) exe = Some u \<and> u AND owner \<noteq> 0)"

definition root_placed :: "system \<Rightarrow> nat \<Rightarrow> world \<Rightarrow> string \<Rightarrow> GuardInodeKey \<Rightarrow> bool" where
  "root_placed X n w path nk \<longleftrightarrow> (\<exists>sp dev synced. ge_OpenSystemPlaced (X n) path = Some sp \<and>
     StatFile (x_kern (X (n + 1))) 0 sp = Some nk \<and> ge_SuperblockDev (X (n + 2)) sp = Some dev \<and>
     map_of (GuardVouchedDevs w) dev = Some synced \<and>
     (faults w (n + 4) \<or> (\<forall>d. map_of (GuardDeadDevs w) dev = Some d \<longrightarrow> d \<le> synced)))"

definition write_protected :: "GuardInodeKey \<Rightarrow> world \<Rightarrow> bool" where
  "write_protected k w \<longleftrightarrow> (case map_of (GuardTrustedFiles w) k of None \<Rightarrow> False | Some f \<Rightarrow> f AND trustedBinary \<noteq> 0)"

text \<open>Everything but the counter.\<close>

definition frozen :: "world \<Rightarrow> world" where "frozen w = w\<lparr>tick := 0\<rparr>"

lemma frozen_step [simp]: "frozen (step_tick w) = frozen w"
  by (simp add: frozen_def step_tick_def)

lemma frozen_eqD: "frozen w = frozen c \<Longrightarrow> t_ownerByPath w = t_ownerByPath c \<and> GuardBinOrigin w = GuardBinOrigin c \<and>
    GuardBinUpdaters w = GuardBinUpdaters c \<and> GuardVouchedDevs w = GuardVouchedDevs c \<and> GuardDeadDevs w = GuardDeadDevs c \<and> faults w = faults c"
  by (cases w; cases c) (simp add: frozen_def)

lemma look_at: "run (\<lambda>w. frozen w = frozen c \<and> tick w = n) (look X f) (\<lambda>x w. (frozen w = frozen c \<and> tick w = Suc n) \<and> x = f (X n)) E"
  by (auto simp: run_def look_def step_tick_def frozen_def)

lemma map_look_at:
  assumes "\<And>w. frozen w = frozen c \<Longrightarrow> sel w = sel c"
  shows "run (\<lambda>w. frozen w = frozen c \<and> tick w = n) (map_look sel k)
    (\<lambda>x w. (frozen w = frozen c \<and> tick w = Suc n) \<and> x = (if faults c n then None else map_of (sel c) k)) E"
proof (rule runI)
  fix w x w' assume w: "frozen w = frozen c \<and> tick w = n" and m: "map_look sel k w = (Inr x, w')"
  from m have x: "x = (if faults w n then None else map_of (sel w) k)" "w' = step_tick w" using w by (simp_all add: map_look_def)
  have "tick (step_tick w) = Suc (tick w)" by (simp add: step_tick_def)
  with x w assms [of w] frozen_eqD [of w c] show "(frozen w' = frozen c \<and> tick w' = Suc n) \<and> x = (if faults c n then None else map_of (sel c) k)"
    by (simp only: frozen_step)
qed (simp add: map_look_def)

text \<open>One case of a branch at a time.\<close>

lemma run_branch: "(b \<Longrightarrow> run P m Q E) \<Longrightarrow> (\<not> b \<Longrightarrow> run P n Q E) \<Longrightarrow> run P (if b then m else n) Q E"
  and run_cases: "(v = None \<Longrightarrow> run P m Q E) \<Longrightarrow> (\<And>x. v = Some x \<Longrightarrow> run P (f x) Q E) \<Longrightarrow> run P (case v of None \<Rightarrow> m | Some x \<Rightarrow> f x) Q E"
  and run_pair: "(\<And>x y. p = (x, y) \<Longrightarrow> run P (g x y) Q E) \<Longrightarrow> run P (case p of (x, y) \<Rightarrow> g x y) Q E"
  by (auto split: option.split prod.split)

lemma get_at:
  assumes "\<And>w. frozen w = frozen c \<Longrightarrow> f w = f c"
  shows "run (\<lambda>w. frozen w = frozen c \<and> tick w = n) (get f) (\<lambda>x w. (frozen w = frozen c \<and> tick w = n) \<and> x = f c) E"
  by (rule run_get) (use assms in blast)

lemma updaterCreated_evidence:
  "run (\<lambda>w. frozen w = frozen c \<and> tick w = n) (updaterCreated path old nk)
     (\<lambda>b w. frozen w = frozen c \<and> (b \<longrightarrow> updater_made c path old nk)) (\<lambda>_. False)"
  unfolding updaterCreated_def
  by (intro run_branch run_cases run_pair run_pure run_and_then [OF get_at] run_and_then [OF map_look_at])
    (auto intro!: run_ret simp: updater_made_def dest: frozen_eqD split: if_splits option.splits)

lemma systemFile_evidence:
  "run (\<lambda>w. frozen w = frozen c \<and> tick w = n) (systemFile X path f nk)
     (\<lambda>b w. frozen w = frozen c \<and> (b \<longrightarrow> f \<noteq> None \<and> root_placed X n c path nk)) (\<lambda>_. False)"
  unfolding systemFile_def
  by (intro run_branch run_cases run_pure run_and_then [OF look_at] run_and_then [OF map_look_at])
    (auto intro!: run_ret simp: root_placed_def numeral_eq_Suc dest: frozen_eqD split: if_splits option.splits)

lemma adoptRows_protects: "run (\<lambda>_. True) (adoptRows old nk) (\<lambda>_. write_protected nk) (\<lambda>_. True)"
proof -
  let ?T = "\<lambda>_. True"
  have skip: "run ?T m (\<lambda>_. ?T) ?T" for m :: "'a act" by (simp add: run_def)
  have stop: "run ?T (fail e) (\<lambda>_. write_protected nk) ?T" for e by (simp add: run_def fail_def)
  have put: "run ?T (or_undo nk (map_put GuardTrustedFiles_update nk f)) (\<lambda>_. write_protected nk) ?T" if "f AND trustedBinary \<noteq> 0" for f
    using that by (auto simp: run_def or_undo_def map_put_def write_protected_def and_then_def fail_def split: sum.splits prod.splits if_splits)
  have seen: "run ?T (map_look GuardTrustedFiles nk) (\<lambda>x w. x \<noteq> None \<longrightarrow> map_of (GuardTrustedFiles w) nk = x) ?T"
    by (simp add: run_def map_look_def)
  have had: "run (\<lambda>w. Some f \<noteq> None \<longrightarrow> map_of (GuardTrustedFiles w) nk = Some f) (if f AND trustedBinary \<noteq> 0 then ret () else fail NotTrusted)
      (\<lambda>_. write_protected nk) ?T" for f
    by (auto simp: run_def ret_def fail_def write_protected_def)
  have none: "run ?T (and_then (map_look GuardTrustedFiles nk) (\<lambda>flags. case flags of
           Some f \<Rightarrow> (if f AND trustedBinary \<noteq> 0 then ret () else fail NotTrusted) | None \<Rightarrow> fail NotTrusted)) (\<lambda>_. write_protected nk) ?T"
    by (rule run_and_then [OF seen], rule run_cases, rule run_pre [OF stop], simp, hypsubst, rule had)
  show ?thesis unfolding adoptRows_def
    by (rule run_and_then [OF skip], rule run_cases, rule none, rule run_branch, rule stop, rule run_and_then [OF skip], rule put)
qed

lemma succeeds_run: "run P m (\<lambda>_. Q) (\<lambda>_. True) \<Longrightarrow> run P (succeeds m) (\<lambda>b w. b \<longrightarrow> Q w) E"
  by (auto simp: run_def succeeds_def split: prod.splits sum.splits)

lemma new_install_protects:
  "run (\<lambda>_. True) (map_put GuardTrustedFiles_update nk (trustedBinary OR rt)) (\<lambda>_. write_protected nk) (\<lambda>_. True)"
proof (rule run_map_put)
  have "(trustedBinary OR rt) AND trustedBinary = trustedBinary" by (auto simp: bit_eq_iff bit_simps)
  then show "write_protected nk (GuardTrustedFiles_update (AList.update nk (trustedBinary OR rt)) (step_tick w))" for w
    by (simp add: write_protected_def) (simp add: trustedBinary_def)
qed simp

lemma AllowReplacement_evidence:
  assumes "AllowReplacement X path f old nk w = (Inr True, w')"
  shows "write_protected nk w' \<and> (updater_made w path old nk \<or> f \<noteq> None \<and> (\<exists>n. root_placed X n w path nk))"
proof -
  let ?T = "\<lambda>_. True" and ?F = "\<lambda>v. frozen v = frozen w"
  let ?why = "updater_made w path old nk \<or> f \<noteq> None \<and> (\<exists>n. root_placed X n w path nk)"
  have made: "run (\<lambda>v. ?F v \<and> tick v = tick w) (updaterCreated path old nk) (\<lambda>b v. ?F v \<and> (b \<longrightarrow> ?why)) ?T"
    by (rule run_post [OF updaterCreated_evidence]) auto
  have placed: "run ?F (systemFile X path f nk) (\<lambda>b v. True \<and> (b \<longrightarrow> ?why)) ?T"
    by (rule runI) (use run_Inr [OF systemFile_evidence] in blast)+
  have skip: "run ?T m (\<lambda>_. ?T) ?T" for m :: "'a act" by (simp add: run_def)
  have adopt: "run ?T (succeeds (adoptRows old nk)) (\<lambda>b v. b \<longrightarrow> write_protected nk v \<and> ?why) ?T" if ?why
    using succeeds_run [OF adoptRows_protects] that by simp
  have install: "run ?T (succeeds (map_put GuardTrustedFiles_update nk (trustedBinary OR rt))) (\<lambda>b v. b \<longrightarrow> write_protected nk v \<and> ?why) ?T" if ?why for rt
    using succeeds_run [OF new_install_protects] that by simp
  have "run (\<lambda>v. ?F v \<and> tick v = tick w) (AllowReplacement X path f old nk) (\<lambda>b v. b \<longrightarrow> write_protected nk v \<and> ?why) ?T"
    unfolding AllowReplacement_def
    apply (rule run_and_then [OF made], rule run_pure, rule run_branch)
     apply (rule run_pre [OF run_and_then [OF skip adopt]], simp, simp)
    apply (rule run_and_then [OF placed], rule run_pure, rule run_branch, rule run_ret, simp)
    apply (rule run_and_then [OF skip], rule run_and_then [OF skip], rule run_branch, rule adopt, simp)
    by (rule run_and_then [OF skip], rule install, simp)
  from run_Inr [OF this _ assms] show ?thesis by simp
qed

text \<open>C14 (safety). A replaced binary is re-admitted only with proof of who made it: when the trust guard allows the
  replacement, an updater of the path's resources created the new inode, on the old inode's device, and nothing else ever
  wrote it; or its name could only have been placed by root, ends on this very inode and is on a vouched superblock that did
  not die since (a failed read of the deaths counts as none). Either way the new inode carries the binary flag of the trust
  rows, so it stays write-protected.\<close>

theorem AllowReplacement_sound:
  assumes "AllowReplacement X path f old nk w = (Inr True, w')"
  shows "write_protected nk w' \<and> (updater_made w path old nk \<or> f \<noteq> None \<and> (\<exists>n. root_placed X n w path nk))"
  using AllowReplacement_evidence [OF assms] .

subsection \<open>Examples\<close>

text \<open>An updater replaced \<open>/bin/cat\<close>, and the new file's number is one freed before.\<close>

definition swap_env :: system where
  "swap_env = (\<lambda>_. demo_env\<lparr>x_Classify := (\<lambda>_. Some \<lparr>mc_Kind = SingleBinary, mc_Applets = []\<rparr>)\<rparr>)"

definition swap_key :: "u64 \<Rightarrow> GuardInodeKey" where "swap_key i = \<lparr>Dev = KernelDev 8 1, Ino = i\<rparr>"

definition swap_world :: "(nat \<Rightarrow> bool) \<Rightarrow> world" where
  "swap_world bad = upd_guard 1 (\<lambda>g. g\<lparr>g_binaries := [demo_entry], g_deployed := [(''/bin/cat'', swap_key 6)],
      g_keyPaths := [(swap_key 6, ''/bin/cat'')]\<rparr>)
    (demo_world\<lparr>e_slots := [(1, 1)], e_allows := [], e_sets := [], GuardExeActions := [], faults := bad, w_check := True, w_trust := Some 0, t_ownerByPath := [(''/bin/cat'', 4)],
      GuardTrustedFiles := [(swap_key 6, trustedBinary)], GuardBinOwner := [(swap_key 6, 4)],
      GuardBinOrigin := [(swap_key 7, (swap_key 5, False))], GuardBinUpdaters := [(swap_key 5, 4)],
      ExeSuperseded := [(swap_key 7, \<lparr>su_Seq = 1, su_Freed = 1\<rparr>)]\<rparr>)"

lemma swap_allowed:
  "case AllowReplacement swap_env ''/bin/cat'' (Some 3) (swap_key 6) (swap_key 7) (swap_world (\<lambda>_. False)) of (x, w') \<Rightarrow> x = Inr True"
  by code_simp

theorem AllowReplacement_sound_witness:
  "write_protected (swap_key 7) (snd (AllowReplacement swap_env ''/bin/cat'' (Some 3) (swap_key 6) (swap_key 7) (swap_world (\<lambda>_. False))))"
proof -
  let ?r = "AllowReplacement swap_env ''/bin/cat'' (Some 3) (swap_key 6) (swap_key 7) (swap_world (\<lambda>_. False))"
  have "?r = (Inr True, snd ?r)" using swap_allowed by (cases ?r) simp
  from AllowReplacement_sound [OF this] show ?thesis ..
qed

subsection \<open>Binaries changed in place\<close>

definition tampered_stat :: BinaryStat where
  "tampered_stat = \<lparr>bs_Key = swap_key 7, bs_Size = 1, bs_MtimeNs = 5, bs_CtimeNs = 5\<rparr>"

definition tampered_env :: system where
  "tampered_env = (\<lambda>_. demo_env\<lparr>ge_StatBinary := (\<lambda>_. Some tampered_stat), ge_OpenPath := (\<lambda>_. Some 3),
     ge_StatBinaryFile := (\<lambda>_. Some tampered_stat), ge_Hash := (\<lambda>_. Some [2]), ge_Now := 2 * settleAge\<rparr>)"

definition tampered_world :: "(nat \<Rightarrow> bool) \<Rightarrow> world" where
  "tampered_world bad = upd_guard 1 (\<lambda>g. g\<lparr>g_pinning := True, g_verifyStates :=
      [(''/bin/cat'', \<lparr>vs_key = swap_key 7, vs_stat = tampered_stat\<lparr>bs_MtimeNs := 1, bs_CtimeNs := 1\<rparr>, vs_hash = [1], vs_hashed = True, vs_demoted = False\<rparr>)]\<rparr>)
    (demo_world\<lparr>e_slots := [(1, 1)], e_sets := [], faults := bad, GuardExeActions := [((1, swap_key 7), GUARD_ALLOW)], e_allows := [(1, [(swap_key 7, GUARD_ALLOW)])]\<rparr>)"


definition verify_round :: "world \<Rightarrow> world" where
  "verify_round w = snd (verifyBinaryHashesOnce tampered_env 1 w)"

lemma verify_skips:
  assumes "\<And>c st n. (c, st) \<in> set states \<Longrightarrow> vs_hashed st \<and> ge_StatBinary (X n) c = Some (vs_stat st) \<and> bs_Key (vs_stat st) = Real (vs_key st)"
  shows "for_each states (verify_one X r) w = (Inr (), (step_tick ^^ length states) w)"
  using assms
proof (induction states arbitrary: w)
  case (Cons p states)
  obtain c st where p: "p = (c, st)" by (cases p)
  have "verify_one X r p w = (Inr (), step_tick w)"
    using Cons.prems [of c st] by (simp add: p verify_one_def and_then_def look_def ret_def)
  moreover have "for_each states (verify_one X r) (step_tick w) = (Inr (), (step_tick ^^ length states) (step_tick w))"
    by (rule Cons.IH, rule Cons.prems) simp
  ultimately show ?case by (simp add: and_then_def funpow_swap1)
qed (simp add: ret_def)

lemma swap_key_real: "Real (swap_key 7) = swap_key 7" by code_simp

end
