(* ===== verification/Prune_Facts.thy ===== *)
theory Prune_Facts
  imports Supersede_Facts
begin

text \<open>
  What repeated prunes and verifier rounds come to: a freed inode loses its mark in the end, the second lift of a
  re-sync may delete rows just adopted, and a demotion that failed is not tried again.
\<close>

subsection \<open>What the re-sync leaves to the prune\<close>

text \<open>Only the prune notes when a freed key was first seen; and no operation changes which later map operations fail.\<close>

definition seen :: "world \<Rightarrow> (GuardInodeKey, int) gomap \<times> (nat \<Rightarrow> bool)" where
  "seen w = (s_freedAt w, faults w)"

interpretation seen: refresh_frame seen
  by unfold_locales (simp_all add: seen_def step_tick_def)

definition unseen :: "'a act \<Rightarrow> bool" where
  "unseen m \<longleftrightarrow> (\<forall>s. keeps (\<lambda>w. seen w = s) m)"

named_theorems unseen_rules "operations that leave the times of first sight alone"

lemma unseen_alt: "unseen m \<longleftrightarrow> (\<forall>w. seen (snd (m w)) = seen w)"
  by (auto simp: unseen_def run_def split: prod.splits sum.splits) (metis snd_conv surj_pair old.sum.exhaust)+

lemma unseen_and_then [unseen_rules]: "unseen m \<Longrightarrow> (\<And>x. unseen (f x)) \<Longrightarrow> unseen (and_then m f)"
  unfolding unseen_def by (blast intro: keep_rules)

lemma unseen_for_each [unseen_rules]: "(\<And>x. x \<in> set xs \<Longrightarrow> unseen (f x)) \<Longrightarrow> unseen (for_each xs f)"
  unfolding unseen_def by (blast intro: keep_rules)

lemma unseen_basic [unseen_rules]: "unseen (ret x)" "unseen (fail e)" "unseen (get f)" "unseen (lift_sum g r)"
    "unseen (look X h)" "unseen (map_look sel k)" "unseen (map_get sel k)" "unseen (map_rows sel)"
  unfolding unseen_def by (intro allI keep_rules, simp add: seen.part_simps)+

lemma unseen_count_each [unseen_rules]: "(\<And>x. unseen (f x)) \<Longrightarrow> unseen (count_each xs f)"
  by (induction xs) (simp_all add: unseen_rules)

lemma unseen_cases [unseen_rules]:
    "unseen m \<Longrightarrow> unseen n \<Longrightarrow> unseen (if b then m else n)"
    "unseen m \<Longrightarrow> (\<And>x. unseen (f x)) \<Longrightarrow> unseen (case o' of None \<Rightarrow> m | Some x \<Rightarrow> f x)"
    "(\<And>x y. unseen (g x y)) \<Longrightarrow> unseen (case p of (x, y) \<Rightarrow> g x y)"
    "(\<And>e. unseen (h e)) \<Longrightarrow> (\<And>x. unseen (f x)) \<Longrightarrow> unseen (case s of Inl e \<Rightarrow> h e | Inr x \<Rightarrow> f x)"
  by (simp_all split: option.split prod.split sum.split)

lemma unseen_wrapped [unseen_rules]: "unseen n \<Longrightarrow> unseen (logged n)" "unseen m \<Longrightarrow> unseen (attempt m)" "unseen n \<Longrightarrow> unseen (succeeds n)"
  by (simp_all add: unseen_alt logged_def attempt_def succeeds_def split: prod.splits sum.splits) (metis snd_conv)+

lemma unseen_modify [unseen_rules]: "(\<And>w. seen (f w) = seen w) \<Longrightarrow> unseen (modify f)"
  by (simp add: unseen_alt modify_def)

lemma unseen_put [unseen_rules]: "(\<And>f w. seen (upd f w) = seen w) \<Longrightarrow> unseen (map_put upd k v)"
  and unseen_del [unseen_rules]: "(\<And>f w. seen (upd f w) = seen w) \<Longrightarrow> unseen (map_del upd k)"
  by (simp_all add: unseen_alt map_put_def map_del_def seen.part_simps)

lemma unseen_or_undo [unseen_rules]: "unseen m \<Longrightarrow> unseen (or_undo k m)"
proof -
  assume m: "unseen m"
  have "unseen (and_then (rollback k) (\<lambda>_. fail e :: unit act))" for e
    unfolding rollback_def trustBitMaps_def for_each.simps snd_conv by (intro unseen_rules) (simp_all add: seen_def)
  then have u: "seen (snd (and_then (rollback k) (\<lambda>_. fail e :: unit act) v)) = seen v" for e v by (simp add: unseen_alt)
  have "seen (snd (or_undo k m w)) = seen w" for w
    using m [unfolded unseen_alt, rule_format, of w] u
    by (cases "m w"; cases "fst (m w)") (simp_all add: or_undo_def)
  then show ?thesis by (simp add: unseen_alt)
qed

lemma seen_guard [simp]: "seen (upd_guard r f w) = seen w"
  by (simp add: seen_def upd_guard_def)

lemma unseen_refreshes [unseen_rules]: "unseen syncSharedLocked" "unseen (putExeAction r k a)"
  unfolding unseen_def by (intro allI seen.syncShared_part seen.putExeAction_part)+

lemma unseen_read_bits [unseen_rules]: "unseen (read_bits ms k)"
  by (induction ms) (simp_all add: unseen_rules)

lemma forget_guards_seen: "seen (forget_guards k w) = seen w"
proof -
  have "seen (foldl (\<lambda>w (_, q). upd_guard q (guard_forgetExe k) w) w qs) = seen w" for qs :: "(nat \<times> nat) list"
    by (induction qs arbitrary: w) auto
  then show ?thesis by (simp add: forget_guards_def)
qed

lemma unseen_forgetExe [unseen_rules]: "unseen (forgetExe k)"
proof -
  have r: "unseen (forget_rows k)"
    unfolding forget_rows_def deleteInoKeys_def delete_rows_def by (intro unseen_rules) (simp_all add: seen_def)
  have "unseen (\<lambda>w. case forget_rows k w of (r, w') \<Rightarrow> (r, forget_guards k w'))"
    using r by (simp add: unseen_alt forget_guards_seen split: prod.splits) (metis snd_conv)
  then show ?thesis unfolding forgetExe_def by (intro unseen_rules) (simp_all add: seen_def)
qed

lemma seen_bits: "m \<in> set trustBitMaps \<Longrightarrow> seen (snd m f w) = seen w"
  by (auto simp: trustBitMaps_def seen_def)

lemma unseen_retire [unseen_rules]: "unseen (retire k)"
  unfolding retire_def by (intro unseen_rules) (simp add: seen_def)

lemma unseen_trust_forgetExe [unseen_rules]: "unseen (trust_forgetExe k)"
  unfolding trust_forgetExe_def by (intro unseen_rules) (simp_all add: seen_bits, simp add: seen_def)

lemma unseen_adoptRows [unseen_rules]: "unseen (adoptRows old k)"
proof -
  have bits: "unseen (case p of (m, b) \<Rightarrow> case b of None \<Rightarrow> ret () | Some bits \<Rightarrow> or_undo k (map_put (snd m) k bits))"
    if "p \<in> set (zip trustBitMaps bs)" for p bs
  proof -
    have "fst p \<in> set trustBitMaps" using that by (metis prod.collapse set_zip_leftD)
    then show ?thesis by (cases p) (auto dest: seen_bits split: option.split intro!: unseen_rules)
  qed
  show ?thesis unfolding adoptRows_def rowsOf_def
    by (intro unseen_and_then unseen_basic unseen_cases(1,2) unseen_or_undo unseen_put unseen_read_bits unseen_for_each bits) (simp_all add: seen_def)
qed

lemma unseen_lift [unseen_rules]: "unseen (exeGone k)" "unseen (dropSupersededLocked k)" "unseen (liftSuperseded k)"
proof -
  show gone: "unseen (exeGone k)" for k unfolding exeGone_def by (intro unseen_rules)
  show dropped: "unseen (dropSupersededLocked k)" for k unfolding dropSupersededLocked_def by (intro unseen_rules) (simp add: seen_def)
  show "unseen (liftSuperseded k)" unfolding liftSuperseded_def by (intro unseen_rules gone dropped)
qed

lemma unseen_AllowReplacement [unseen_rules]: "unseen (AllowReplacement X path f old k)"
  unfolding AllowReplacement_def updaterCreated_def systemFile_def trusts_def by (intro unseen_rules) (simp_all add: seen_def)

lemma unseen_exe_key [unseen_rules]: "unseen (exe_key X path f file)"
  by (simp add: unseen_alt exe_key_def seen_def step_tick_def split: prod.split sum.split)

lemma unseen_hash [unseen_rules]: "unseen (hashFileShared X f path)" "unseen (hashPathShared X path)"
proof -
  have pub: "unseen (publishHash k fp h)" for k fp h unfolding publishHash_def by (intro unseen_rules) (simp add: seen_def)
  have rd: "unseen (read_hash X f path fp d)" for fp d f
    unfolding read_hash_def unchangedSince_def settled_def by (intro unseen_rules pub) (simp_all add: seen_def)
  show fl: "unseen (hashFileShared X f path)" for f
    unfolding hashFileShared_def claimHash_def stat_durable_def by (intro unseen_rules pub rd)
  show "unseen (hashPathShared X path)" unfolding hashPathShared_def by (intro unseen_rules fl)
qed

lemma unseen_putBinaryKey [unseen_rules]: "unseen (putBinaryKey r k path evs)"
  unfolding putBinaryKey_def by (intro unseen_rules) (simp_all add: seen_def)

lemma unseen_addBinaryActions [unseen_rules]: "unseen (addBinaryActions X r bs evs)"
  unfolding addBinaryActions_def addBinaryAction_def binaryKey_def stat_confined_def note_deployed_def by (intro unseen_rules) simp_all

lemma pin_state_seen: "seen (pin_state r c h w) = seen w"
  by (simp add: pin_state_def split: option.split)

lemma unseen_deferred [unseen_rules]: "unseen (resolveDeferred X r)" "unseen (retryDeferredBinaries X r R)"
proof -
  have one: "unseen (resolve_one X r R d)" for R d
    unfolding resolve_one_def confinedEntry_def open_confined_def fd_path_def Let_def by (intro unseen_rules) simp_all
  have "unseen (resolve_all X r R ds)" for R ds by (induction ds arbitrary: R) (simp_all add: unseen_rules one)
  then show "unseen (resolveDeferred X r)" unfolding resolveDeferred_def by (intro unseen_rules)
  show "unseen (retryDeferredBinaries X r R)"
    unfolding retryDeferredBinaries_def pin_entry_def by (intro unseen_rules) (simp_all add: pin_state_seen)
qed

lemma unseen_vetting [unseen_rules]: "unseen (open_confined X path)" "unseen (fd_key X path f)" "unseen (fd_path X path f)"
    "unseen (appletKeyOrRefuse X r path f file)" "unseen (replacementAllowed X path f old k)" "unseen (note_refused r path k)"
  unfolding open_confined_def fd_key_def fd_path_def appletKeyOrRefuse_def replacementAllowed_def note_refused_def by (intro unseen_rules; simp)+

lemma unseen_resyncOne [unseen_rules]: "unseen (resyncOne X r path evs)"
  unfolding resyncOne_def sweep_record_def note_resynced_def by (intro unseen_rules) (simp_all add: seen_def upd_guard_def)

lemma unseen_resyncLink [unseen_rules]: "unseen (resyncLink X r link target evs)"
  unfolding resyncLink_def retargetLink_def supersedeUnnamed_def Let_def by (intro unseen_rules) (simp_all add: seen_def upd_guard_def)

lemma unseen_admitSystemMatches [unseen_rules]: "unseen (admitSystemMatches X r)"
proof -
  have one: "unseen (admitSystemMatch X r path evs)" for path evs
    unfolding admitSystemMatch_def by (intro unseen_rules) simp
  have ms: "unseen (admit_matches X r evs known ms)" for evs known ms
    by (induction ms arbitrary: known) (simp_all add: unseen_rules one)
  have "unseen (admit_patterns X r known ps)" for known ps
    by (induction ps arbitrary: known) (simp_all add: unseen_rules ms patternMatches_def)
  then show ?thesis unfolding admitSystemMatches_def Let_def by (intro unseen_rules)
qed

lemma unseen_resyncGuards [unseen_rules]: "unseen (resyncGuards X)"
  unfolding resyncGuards_def resyncLive_def reSyncBinaries_def resyncLinks_def unchangedPerShared_def by (intro unseen_rules)

lemma unseen_pruneSuperseded [unseen_rules]: "unseen (pruneSuperseded ks)"
proof -
  have "unseen (sort_marks ks ms)" for ms
    by (induction ks ms rule: sort_marks.induct) (simp_all only: sort_marks.simps trusts_def unseen_rules)
  then show ?thesis unfolding pruneSuperseded_def by (intro unseen_rules) (simp_all add: seen_def)
qed

subsection \<open>While no map operation fails\<close>

definition quiet :: "world \<Rightarrow> bool" where
  "quiet w \<longleftrightarrow> (\<forall>n \<ge> tick w. \<not> faults w n)"

definition sure :: "'a act \<Rightarrow> bool" where
  "sure m \<longleftrightarrow> run quiet m (\<lambda>_. quiet) (\<lambda>_. False)"

named_theorems sure_rules "operations that fail only when a map operation fails"

lemma quiet_tick: "quiet w \<Longrightarrow> quiet (step_tick w)" and quiet_now: "quiet w \<Longrightarrow> \<not> faults w (tick w)"
  by (simp_all add: quiet_def step_tick_def)

lemma sure_and_then [sure_rules]: "sure m \<Longrightarrow> (\<And>x. sure (f x)) \<Longrightarrow> sure (and_then m f)"
  unfolding sure_def by (rule run_and_then)

lemma sure_basic [sure_rules]: "sure (ret x)" "sure (get f)" "sure (map_look sel k)" "sure (map_rows sel)"
  by (auto simp: sure_def run_def ret_def get_def map_look_def map_rows_def quiet_tick dest: quiet_now)

lemma sure_for_each [sure_rules]: "(\<And>x. x \<in> set xs \<Longrightarrow> sure (f x)) \<Longrightarrow> sure (for_each xs f)"
  by (induction xs) (simp_all add: sure_rules)

lemma sure_cases [sure_rules]:
    "sure m \<Longrightarrow> sure n \<Longrightarrow> sure (if b then m else n)"
    "sure m \<Longrightarrow> (\<And>x. sure (f x)) \<Longrightarrow> sure (case o' of None \<Rightarrow> m | Some x \<Rightarrow> f x)"
    "(\<And>x y. sure (g x y)) \<Longrightarrow> sure (case p of (x, y) \<Rightarrow> g x y)"
  by (simp_all split: option.split prod.split)

lemma sure_modify [sure_rules]: "(\<And>w. quiet (f w) = quiet w) \<Longrightarrow> sure (modify f)"
  by (simp add: sure_def run_def modify_def)

lemma sure_put [sure_rules]: "(\<And>f w. quiet (upd f w) = quiet w) \<Longrightarrow> sure (map_put upd k v)"
  and sure_del [sure_rules]: "(\<And>f w. quiet (upd f w) = quiet w) \<Longrightarrow> sure (map_del upd k)"
  by (auto simp: sure_def run_def map_put_def map_del_def quiet_tick dest: quiet_now)

lemma sure_syncShared [sure_rules]: "sure syncSharedLocked"
proof -
  have slot: "sure (set_slot key)" for key
    unfolding set_slot_def allocSetSlotLocked_def by (intro sure_rules) (simp_all add: quiet_def)
  have "sure (build_union os)" for os
    by (induction os rule: build_union.induct) (simp_all only: build_union.simps sure_rules slot)
  then show ?thesis
    unfolding syncSharedLocked_def syncTaintLocked_def syncSetsLocked_def syncSetRowsLocked_def syncSetMap_def syncU32Map_def
      refreshGlobalLocked_def clearGlobalAllowsLocked_def Let_def
    by (intro sure_rules) (simp_all add: quiet_def)
qed

lemma forget_guards_quiet: "quiet (forget_guards k w) = quiet w"
proof -
  have "quiet (foldl (\<lambda>w (_, q). upd_guard q (guard_forgetExe k) w) w qs) = quiet w" for qs :: "(nat \<times> nat) list"
    by (induction qs arbitrary: w) (auto simp: upd_guard_def quiet_def)
  then show ?thesis by (simp add: forget_guards_def)
qed

lemma sure_forgetExe [sure_rules]: "sure (forgetExe k)"
proof -
  have r: "sure (forget_rows k)"
    unfolding forget_rows_def deleteInoKeys_def delete_rows_def by (intro sure_rules) (simp_all add: quiet_def)
  have "sure (\<lambda>w. case forget_rows k w of (r, w') \<Rightarrow> (r, forget_guards k w'))"
    using r by (auto simp: sure_def run_def forget_guards_quiet split: prod.splits sum.splits)
  then show ?thesis unfolding forgetExe_def by (intro sure_rules) (simp_all add: quiet_def)
qed

lemma sure_trust_forgetExe [sure_rules]: "sure (trust_forgetExe k)"
proof -
  have "sure (read_bits ms k)" for ms by (induction ms) (simp_all add: sure_rules)
  moreover have "quiet (snd m f w) = quiet w" if "m \<in> set trustBitMaps" for m f w
    using that by (auto simp: trustBitMaps_def quiet_def)
  ultimately show ?thesis unfolding trust_forgetExe_def retire_def by (intro sure_rules) (simp_all add: quiet_def)
qed

text \<open>The drop then goes through: the mark is deleted.\<close>

lemma sure_drop: "run quiet (dropSupersededLocked k) (\<lambda>_ w. quiet w \<and> map_of (ExeSuperseded w) k = None) (\<lambda>_. False)"
proof -
  have del: "run quiet (map_del ExeSuperseded_update k) (\<lambda>_ w. quiet w \<and> map_of (ExeSuperseded w) k = None) (\<lambda>_. False)"
    by (auto simp: run_def map_del_def quiet_def step_tick_def delete_conv')
  have "run quiet (and_then (forgetExe k) (\<lambda>_. and_then (get w_trust) (\<lambda>t.
      and_then (if t = None then ret () else trust_forgetExe k) (\<lambda>_. map_del ExeSuperseded_update k))))
      (\<lambda>_ w. quiet w \<and> map_of (ExeSuperseded w) k = None) (\<lambda>_. False)"
    by (rule run_and_then [OF sure_forgetExe [unfolded sure_def]], rule run_and_then [OF sure_basic(2) [unfolded sure_def]],
        rule run_and_then [OF sure_cases(1) [OF sure_basic(1) sure_trust_forgetExe, unfolded sure_def] del])
  then show ?thesis unfolding dropSupersededLocked_def by (rule run_logged [OF run_post]) simp_all
qed

subsection \<open>Freed keys are dropped in the end\<close>

definition unfreed :: "GuardInodeKey \<Rightarrow> world \<Rightarrow> bool" where
  "unfreed k w \<longleftrightarrow> (\<forall>v. map_of (ExeSuperseded w) k = Some v \<longrightarrow> su_Freed v = 0)"

lemma forget_rows_marks: "marks (snd (forget_rows k w)) = marks w"
proof -
  obtain x v where "forget_rows k w = (x, v)" by fastforce
  then show ?thesis using run_Inr [OF forget_rows_run refl, of k w] run_Inl [OF forget_rows_run refl, of k w] by (cases x) auto
qed

lemma forgetExe_marks: "keeps (\<lambda>w. ExeSuperseded w = S) (forgetExe k)"
proof -
  have "ExeSuperseded (forget_guards k (snd (forget_rows k w))) = ExeSuperseded w" for w
    using forget_rows_marks [of k w] forget_guards_frame [of k "snd (forget_rows k w)"] by (simp add: marks_def)
  then have "keeps (\<lambda>w. ExeSuperseded w = S) (\<lambda>w. case forget_rows k w of (r, w') \<Rightarrow> (r, forget_guards k w'))"
    by (simp add: run_def case_prod_beta split: sum.split)
  then show ?thesis unfolding forgetExe_def by (intro keep_rules run_map_del) simp_all
qed

lemma trust_forgetExe_marks: "keeps (\<lambda>w. ExeSuperseded w = S) (trust_forgetExe k)"
  unfolding trust_forgetExe_def trustBitMaps_def for_each.simps snd_conv by (intro keep_rules retire_keeps run_map_del) simp_all

lemma drop_unfreed: "run (unfreed k) (dropSupersededLocked k') (\<lambda>_. unfreed k) (\<lambda>_. False)"
proof -
  let ?m = "and_then (forgetExe k') (\<lambda>_. and_then (get w_trust) (\<lambda>t.
      and_then (if t = None then ret () else trust_forgetExe k') (\<lambda>_. map_del ExeSuperseded_update k')))"
  have r: "run (\<lambda>w. ExeSuperseded w = S) ?m (\<lambda>_ w. ExeSuperseded w = AList.delete k' S) (\<lambda>w. ExeSuperseded w = S)" for S
    by (rule run_and_then [OF forgetExe_marks], rule run_and_then [OF keeps_get],
        rule run_and_then [OF keeps_if [OF keeps_ret trust_forgetExe_marks]], rule run_map_del) simp_all
  have "run (unfreed k) ?m (\<lambda>_. unfreed k) (unfreed k)"
  proof (rule runI)
    fix w x w' assume u: "unfreed k w" and m: "?m w = (Inr x, w')"
    show "unfreed k w'" using u run_Inr [OF r refl m] by (simp add: unfreed_def delete_conv')
  next
    fix w e w' assume u: "unfreed k w" and m: "?m w = (Inl e, w')"
    show "unfreed k w'" using u run_Inl [OF r refl m] by (simp add: unfreed_def)
  qed
  then show ?thesis unfolding dropSupersededLocked_def by (rule run_logged)
qed

lemma sort_marks_run:
  "run (\<lambda>w. quiet w \<and> ExeSuperseded w = S) (sort_marks ks ms)
     (\<lambda>(gone, _) w. quiet w \<and> ExeSuperseded w = S \<and> set gone = {k \<in> set ks. \<exists>v. (k, v) \<in> set ms \<and> su_Freed v \<noteq> 0}) (\<lambda>_. False)"
proof (induction ks ms rule: sort_marks.induct)
  case (1 ks)
  show ?case by (simp add: run_def ret_def)
next
  case (2 ks k v ms)
  let ?P = "\<lambda>w. quiet w \<and> ExeSuperseded w = S"
  have un: "run ?P (if su_Freed v \<noteq> 0 then ret False else and_then (get (\<lambda>w. admitsExe w k)) (\<lambda>adm. if adm then ret False else
      and_then (get w_trust) (\<lambda>t. if t = None then ret True else and_then (trusts k) (\<lambda>tr. ret (\<not> tr))))) (\<lambda>_. ?P) (\<lambda>_. False)"
    by (auto simp: run_def ret_def get_def and_then_def trusts_def map_look_def quiet_tick)
  show ?case unfolding sort_marks.simps
    by (rule run_and_then [OF un], rule run_and_then [OF 2]) (auto simp: run_def ret_def)
qed

lemma drops_run:
  "run (\<lambda>w. quiet w \<and> (k \<notin> set gone \<longrightarrow> unfreed k w)) (for_each gone dropSupersededLocked) (\<lambda>_ w. quiet w \<and> unfreed k w) (\<lambda>_. False)"
proof (induction gone)
  case Nil
  show ?case by (simp add: run_def ret_def)
next
  case (Cons x gone)
  have "run (\<lambda>w. quiet w \<and> (k \<notin> set (x # gone) \<longrightarrow> unfreed k w)) (dropSupersededLocked x)
      (\<lambda>_ w. quiet w \<and> (k \<notin> set gone \<longrightarrow> unfreed k w)) (\<lambda>_. False)"
  proof (cases "x = k")
    case True
    show ?thesis unfolding True by (rule run_pre [OF run_post [OF sure_drop]]) (auto simp: unfreed_def)
  next
    case False
    have "run (\<lambda>w. quiet w \<and> unfreed k w) (dropSupersededLocked x) (\<lambda>_ w. quiet w \<and> unfreed k w) (\<lambda>_. False)"
      by (rule run_post [OF run_conj [OF sure_drop drop_unfreed]]) auto
    moreover have "run quiet (dropSupersededLocked x) (\<lambda>_. quiet) (\<lambda>_. False)" by (rule run_post [OF sure_drop]) auto
    ultimately show ?thesis using False by (cases "k \<in> set gone") auto
  qed
  then show ?case unfolding for_each.simps by (rule run_and_then [OF _ Cons.IH])
qed

lemma prune_drops:
  assumes "quiet w" and "k \<in> set ks" and "pruneSuperseded ks w = (x, u)"
  shows "unfreed k u"
proof -
  let ?S = "ExeSuperseded w"
  have del: "run (\<lambda>w. quiet w \<and> unfreed k w) (for_each unused (\<lambda>k. logged (map_del ExeSuperseded_update k))) (\<lambda>_. unfreed k) (unfreed k)" for unused
  proof (rule run_pre [where P = "unfreed k"])
    show "keeps (unfreed k) (for_each unused (\<lambda>k. logged (map_del ExeSuperseded_update k)))"
      by (intro keep_rules run_map_del) (auto simp: unfreed_def delete_conv')
  qed simp
  have body: "run (\<lambda>w. quiet w \<and> ExeSuperseded w = ?S) (and_then (sort_marks ks ?S) (\<lambda>(gone, unused).
      and_then (for_each gone dropSupersededLocked) (\<lambda>_. for_each unused (\<lambda>k. logged (map_del ExeSuperseded_update k)))))
      (\<lambda>_. unfreed k) (unfreed k)"
  proof (rule run_and_then [where R = "\<lambda>p w. case p of (gone, _) \<Rightarrow> quiet w \<and> ExeSuperseded w = ?S \<and>
      set gone = {k \<in> set ks. \<exists>v. (k, v) \<in> set ?S \<and> su_Freed v \<noteq> 0}"])
    show "run (\<lambda>w. quiet w \<and> ExeSuperseded w = ?S) (sort_marks ks ?S) (\<lambda>p w. case p of (gone, _) \<Rightarrow> quiet w \<and> ExeSuperseded w = ?S \<and>
      set gone = {k \<in> set ks. \<exists>v. (k, v) \<in> set ?S \<and> su_Freed v \<noteq> 0}) (unfreed k)"
      by (rule run_post [OF sort_marks_run]) auto
    show "run (\<lambda>w. case p of (gone, _) \<Rightarrow> quiet w \<and> ExeSuperseded w = ?S \<and> set gone = {k \<in> set ks. \<exists>v. (k, v) \<in> set ?S \<and> su_Freed v \<noteq> 0})
      (case p of (gone, unused) \<Rightarrow> and_then (for_each gone dropSupersededLocked) (\<lambda>_. for_each unused (\<lambda>k. logged (map_del ExeSuperseded_update k))))
      (\<lambda>_. unfreed k) (unfreed k)" for p
    proof (cases p)
      case (Pair gone unused)
      have "run (\<lambda>w. quiet w \<and> (k \<notin> set gone \<longrightarrow> unfreed k w)) (and_then (for_each gone dropSupersededLocked)
          (\<lambda>_. for_each unused (\<lambda>k. logged (map_del ExeSuperseded_update k)))) (\<lambda>_. unfreed k) (unfreed k)"
        by (rule run_and_then [OF run_post [OF drops_run] del]) auto
      then show ?thesis unfolding Pair prod.case
        by (rule run_pre) (use assms(2) in \<open>auto simp: unfreed_def dest: map_of_SomeD\<close>)
    qed
  qed
  have "pruneSuperseded ks w = and_then (sort_marks ks ?S) (\<lambda>(gone, unused).
      and_then (for_each gone dropSupersededLocked) (\<lambda>_. for_each unused (\<lambda>k. logged (map_del ExeSuperseded_update k)))) (step_tick w)"
    using quiet_now [OF assms(1)] by (simp add: pruneSuperseded_def and_then_def attempt_def map_rows_def)
  with assms(3) have run: "and_then (sort_marks ks ?S) (\<lambda>(gone, unused).
      and_then (for_each gone dropSupersededLocked) (\<lambda>_. for_each unused (\<lambda>k. logged (map_del ExeSuperseded_update k)))) (step_tick w) = (x, u)" by simp
  have start: "quiet (step_tick w) \<and> ExeSuperseded (step_tick w) = ?S" using quiet_tick [OF assms(1)] by simp
  show ?thesis
  proof (cases x)
    case (Inl e)
    show ?thesis by (rule run_Inl [OF body start run [unfolded Inl]])
  next
    case (Inr y)
    show ?thesis by (rule run_Inr [OF body start run [unfolded Inr]])
  qed
qed

lemma resyncGuards_total: "\<exists>w'. resyncGuards X w = (Inr (), w')"
proof -
  have "\<exists>w'. resyncLive X r w = (Inr (), w')" for r w
    by (simp add: resyncLive_def and_then_def get_def ret_def logged_def)
  then have "\<exists>w'. for_each slots (\<lambda>(_, r). resyncLive X r) w = (Inr (), w')" for slots :: "(nat \<times> nat) list" and w
  proof (induction slots arbitrary: w)
    case (Cons p slots)
    obtain v where "(case p of (_, r) \<Rightarrow> resyncLive X r) w = (Inr (), v)" using Cons.prems by (cases p) auto
    with Cons.IH [OF Cons.prems, of v] show ?case by (simp add: and_then_def)
  qed (simp add: ret_def)
  then show ?thesis by (simp add: resyncGuards_def and_then_def get_def)
qed

text \<open>One prune: which keys it takes for droppable, what it notes of them, and what becomes of them.\<close>

lemma prune_round:
  assumes "PruneSuperseded X w = (x, u)"
  obtains d v where "freedSuperseded X (ge_Now (X (tick w))) (step_tick w) = (Inr d, v)" and "s_freedAt u = s_freedAt v" and "faults u = faults w"
    and "\<And>k. faults w = (\<lambda>_. False) \<Longrightarrow> k \<in> set d \<Longrightarrow> unfreed k u"
proof -
  let ?f = "freedSuperseded X (ge_Now (X (tick w))) (step_tick w)"
  obtain d v where f: "?f = (Inr d, v)" and fv: "faults v = faults w"
    using freedSuperseded_total [of X "ge_Now (X (tick w))" "step_tick w"] by (auto simp: step_tick_def)
  define y where "y = (if d = [] then v else snd (resyncGuards X v))"
  have sy: "seen y = seen v" using unseen_resyncGuards [of X] by (simp add: y_def unseen_alt)
  have u: "pruneSuperseded d y = (x, u)"
    using assms f resyncGuards_total [of X v] by (auto simp: PruneSuperseded_def and_then_def look_def y_def split: if_splits prod.splits)
  have "seen u = seen y" using unseen_pruneSuperseded [of d] u by (simp add: unseen_alt) (metis snd_conv)
  with sy fv have "s_freedAt u = s_freedAt v" "faults u = faults w" by (simp_all add: seen_def)
  moreover have "unfreed k u" if "faults w = (\<lambda>_. False)" "k \<in> set d" for k
    by (rule prune_drops [OF _ that(2) u]) (use sy fv that(1) in \<open>simp add: quiet_def seen_def\<close>)
  ultimately show thesis using that f by blast
qed

text \<open>
  C15. A freed inode is forgotten in the end. Along any sequence of prunes, a mark that says its inode is freed, and
  that nothing but the prune takes away, is taken away by one of them: although a hold is asked for every time, although
  walks, re-syncs and drops fail, as long as the clock does not run backwards and a prune none of whose map operations
  fails always comes again, with the time a hold may last gone by since any given prune.
\<close>

theorem freed_key_is_dropped:
  assumes run: "\<And>i. PruneSuperseded (X i) (w i) = (x i, u i)"
    and kept: "\<And>i. s_freedAt (w (Suc i)) = s_freedAt (u i)" "s_freedAt (w 0) = []"
    and freed: "\<not> unfreed k (w 0)" "\<And>i. \<not> unfreed k (u i) \<Longrightarrow> \<not> unfreed k (w (Suc i))"
    and now: "\<And>i. now i = ge_Now (X i (tick (w i)))" and mono: "\<And>i j. i \<le> j \<Longrightarrow> now i \<le> now j"
    and fair: "\<And>i. \<exists>j > i. faults (w j) = (\<lambda>_. False) \<and> now j \<ge> now i + supersedeHoldMax"
  shows "\<exists>j. unfreed k (u j)"
proof (rule ccontr)
  assume no: "\<nexists>j. unfreed k (u j)"
  have mark: "\<exists>m. map_of (ExeSuperseded (step_tick (w i))) k = Some m \<and> su_Freed m \<noteq> 0" for i
    using freed no by (cases i) (auto simp: unfreed_def)
  have round: "\<exists>d v. freedSuperseded (X i) (now i) (step_tick (w i)) = (Inr d, v) \<and> s_freedAt (w (Suc i)) = s_freedAt v \<and>
      (faults (w i) = (\<lambda>_. False) \<longrightarrow> k \<notin> set d)" for i
    using prune_round [OF run [of i]] no kept(1) now by metis
  let ?at = "\<lambda>i. map_of (s_freedAt (w i)) k"
  have step: "?at (Suc i) = ?at i \<or> ?at (Suc i) = Some (case ?at i of None \<Rightarrow> now i | Some t \<Rightarrow> t)"
    and sure: "faults (w i) = (\<lambda>_. False) \<Longrightarrow> ?at (Suc i) = Some (case ?at i of None \<Rightarrow> now i | Some t \<Rightarrow> t)"
    and young: "faults (w i) = (\<lambda>_. False) \<Longrightarrow> ?at i = Some t \<Longrightarrow> now i - t < supersedeHoldMax" for i t
  proof -
    obtain m where m: "map_of (ExeSuperseded (step_tick (w i))) k = Some m" "su_Freed m \<noteq> 0" using mark by blast
    obtain d v where d: "freedSuperseded (X i) (now i) (step_tick (w i)) = (Inr d, v)" "s_freedAt (w (Suc i)) = s_freedAt v"
      "faults (w i) = (\<lambda>_. False) \<Longrightarrow> k \<notin> set d" using round by blast
    note fs = freedSuperseded_run [OF d(1) m]
    show "?at (Suc i) = ?at i \<or> ?at (Suc i) = Some (case ?at i of None \<Rightarrow> now i | Some t \<Rightarrow> t)" using fs(1) d(2) by auto
    show "?at (Suc i) = Some (case ?at i of None \<Rightarrow> now i | Some t \<Rightarrow> t)" if "faults (w i) = (\<lambda>_. False)" using fs(2) d(2) that by simp
    show "now i - t < supersedeHoldMax" if "faults (w i) = (\<lambda>_. False)" "?at i = Some t"
      using fs(3) [of t] d(3) that by fastforce
  qed
  have early: "?at i = Some t \<Longrightarrow> t \<le> now i" for i t
  proof (induction i arbitrary: t)
    case (Suc i)
    then have "t \<le> now i" using step [of i] by (auto split: option.splits)
    also have "now i \<le> now (Suc i)" by (rule mono) simp
    finally show ?case .
  qed (simp add: kept(2))
  obtain i where "faults (w i) = (\<lambda>_. False)" using fair [of 0] by blast
  then obtain t where t: "?at (Suc i) = Some t" using sure by blast
  have stay: "?at (Suc i + n) = Some t" for n
  proof (induction n)
    case (Suc n)
    then show ?case using step [of "Suc i + n"] by auto
  qed (simp add: t)
  obtain j where j: "j > Suc i" "faults (w j) = (\<lambda>_. False)" "now j \<ge> now (Suc i) + supersedeHoldMax" using fair [of "Suc i"] by blast
  from stay [of "j - Suc i"] j(1) have "?at j = Some t" by simp
  from young [OF j(2) this] early [OF t] j(3) show False by simp
qed

text \<open>Prunes five minutes apart while a hold never ends.\<close>

definition held_env :: "nat \<Rightarrow> system" where "held_env i = (\<lambda>_. demo_env\<lparr>ge_Hold := True, ge_Now := int i * supersedeHoldMax\<rparr>)"

fun held_world :: "nat \<Rightarrow> world" where
  "held_world 0 = demo_world\<lparr>ExeSuperseded := [(demo_file, \<lparr>su_Seq = 1, su_Freed = 1\<rparr>)]\<rparr>"
| "held_world (Suc i) = snd (PruneSuperseded (held_env i) (held_world i))"

lemma held_world_faults: "faults (held_world i) = (\<lambda>_. False)"
proof (induction i)
  case (Suc i)
  obtain x u where "PruneSuperseded (held_env i) (held_world i) = (x, u)" by fastforce
  moreover have "faults u = faults (held_world i)" by (rule prune_round [OF calculation])
  ultimately show ?case using Suc by simp
qed (simp add: demo_world_def)

theorem freed_key_is_dropped_witness: "\<exists>j. unfreed demo_file (held_world (Suc j)) \<and> \<not> unfreed demo_file (held_world 0)"
proof -
  have start: "\<not> unfreed demo_file (held_world 0)" by (simp add: unfreed_def)
  have "\<exists>j. unfreed demo_file (held_world (Suc j))"
  proof (rule freed_key_is_dropped [where X = held_env and now = "\<lambda>i. int i * supersedeHoldMax"])
    show "PruneSuperseded (held_env i) (held_world i) = (fst (PruneSuperseded (held_env i) (held_world i)), held_world (Suc i))" for i by simp
    show "s_freedAt (held_world 0) = []" by (simp add: demo_world_def)
    show "int i * supersedeHoldMax \<le> int j * supersedeHoldMax" if "i \<le> j" for i j
      using that by (intro mult_right_mono) (simp_all add: supersedeHoldMax_def)
    show "\<exists>j > i. faults (held_world j) = (\<lambda>_. False) \<and> int j * supersedeHoldMax \<ge> int i * supersedeHoldMax + supersedeHoldMax" for i
      by (rule exI [of _ "Suc i"]) (simp add: held_world_faults algebra_simps del: held_world.simps)
  qed (use start in \<open>simp_all add: held_env_def del: held_world.simps\<close>)
  with start show ?thesis by blast
qed

subsection \<open>A second lift after the adoption\<close>

text \<open>
  C38. A lift after the adoption takes the adopted rows away. When a replacement was allowed although the lift on the way
  failed, so that the new inode still carries the mark of its freed predecessor, the lift with which every re-sync goes on
  (\<open>resyncOne\<close>, \<open>resyncLink\<close>, \<open>admitSystemMatch\<close>) deletes the flag and every other trust row the replacement has just been
  given, when no further map operation fails.
\<close>

theorem second_lift_drops_adopted_rows:
  assumes allow: "AllowReplacement X path f old k w = (Inr True, v)" and mark: "map_of (ExeSuperseded v) k = Some m" "su_Freed m \<noteq> 0"
    and k: "Real k = k" and live: "e_started v" "w_trust v \<noteq> None" and quiet: "quiet v" and lift: "liftSuperseded k v = (x, u)"
  shows "write_protected k v \<and> \<not> write_protected k u \<and> trust_free k u"
proof -
  let ?v = "step_tick v"
  have d: "dropSupersededLocked k ?v = (x, u)"
    using lift mark k quiet_now [OF quiet] by (simp add: liftSuperseded_def exeGone_def and_then_def map_look_def ret_def)
  have gone: "map_of (ExeSuperseded u) k = None"
    using run_Inr [OF sure_drop [of k] quiet_tick [OF quiet]] run_Inl [OF sure_drop [of k] quiet_tick [OF quiet]] d by (cases x) auto
  have p: "e_started ?v \<and> ExeSuperseded ?v = ExeSuperseded v \<and> w_trust ?v = w_trust v" using live by simp
  from run_Inr [OF dropSuperseded_run [of _ _ k] p] run_Inl [OF dropSuperseded_run [of _ _ k] p] d
  have "ExeSuperseded u = ExeSuperseded v \<or> trust_free k u" using live(2) by (cases x) auto
  with gone mark(1) have "trust_free k u" by auto
  then show ?thesis using AllowReplacement_evidence [OF allow] by (simp add: trust_free_def write_protected_def)
qed

definition swap_lift :: "(gerr + bool) \<times> world" where
  "swap_lift = AllowReplacement swap_env ''/bin/cat'' (Some 3) (swap_key 6) (swap_key 7) (swap_world (\<lambda>n. n = 2))"

lemma swap_lift_run: "fst swap_lift = Inr True \<and> map_of (ExeSuperseded (snd swap_lift)) (swap_key 7) = Some \<lparr>su_Seq = 1, su_Freed = 1\<rparr> \<and>
    e_started (snd swap_lift) \<and> w_trust (snd swap_lift) = Some 0 \<and> 2 < tick (snd swap_lift)"
  by code_simp

text \<open>The re-sync as a whole, with one failed operation and with none.\<close>

lemma swap_resync:
  "(case resyncOne swap_env 1 ''/bin/cat'' [] (swap_world (\<lambda>n. n = 8)) of (x, w') \<Rightarrow> x = Inr True \<and>
      map_of (GuardExeActions w') (1, swap_key 7) = Some GUARD_ALLOW \<and> \<not> write_protected (swap_key 7) w')"
  "(case resyncOne swap_env 1 ''/bin/cat'' [] (swap_world (\<lambda>_. False)) of (x, w') \<Rightarrow> x = Inr True \<and>
      map_of (GuardExeActions w') (1, swap_key 7) = Some GUARD_ALLOW \<and> write_protected (swap_key 7) w')"
  by code_simp+

theorem second_lift_drops_adopted_rows_witness:
  "write_protected (swap_key 7) (snd swap_lift) \<and> \<not> write_protected (swap_key 7) (snd (liftSuperseded (swap_key 7) (snd swap_lift)))"
proof -
  have "AllowReplacement swap_env ''/bin/cat'' (Some 3) (swap_key 6) (swap_key 7) (swap_world (\<lambda>n. n = 2)) = (Inr True, snd swap_lift)"
    using swap_lift_run by (simp add: swap_lift_def [symmetric] prod_eq_iff)
  moreover have "faults (snd swap_lift) = (\<lambda>n. n = 2)"
    using unseen_AllowReplacement [of swap_env "''/bin/cat''" "Some 3" "swap_key 6" "swap_key 7"]
    by (auto simp: unseen_alt swap_lift_def seen_def swap_world_def upd_guard_def)
  ultimately show ?thesis
    using second_lift_drops_adopted_rows [OF _ _ _ swap_key_real _ _ _ prod.collapse [symmetric],
        of swap_env "''/bin/cat''" "Some 3" "swap_key 6" "swap_world (\<lambda>n. n = 2)" "snd swap_lift"] swap_lift_run
    by (simp add: quiet_def)
qed

subsection \<open>Binaries changed in place\<close>

interpretation guards: refresh_frame w_guards
  by unfold_locales (simp_all add: step_tick_def)

lemma hash_guards: "keeps (\<lambda>w. w_guards w = G) (hashPathShared X path)"
  unfolding hashPathShared_def hashFileShared_def read_hash_def claimHash_def stat_durable_def publishHash_def unchangedSince_def settled_def
  by (intro keep_rules run_map_put) simp_all

lemma demote_states:
  "run (\<lambda>w. g_verifyStates (w_guards w r) = [(c, st)]) (demoteInPlace r c st)
     (\<lambda>_ w. \<exists>d. g_verifyStates (w_guards w r) = [(c, st\<lparr>vs_demoted := d\<rparr>)]) (\<lambda>w. \<exists>d. g_verifyStates (w_guards w r) = [(c, st\<lparr>vs_demoted := d\<rparr>)])"
proof -
  let ?P = "\<lambda>w. g_verifyStates (w_guards w r) = [(c, st)]"
  let ?Q = "\<lambda>w. \<exists>d. g_verifyStates (w_guards w r) = [(c, st\<lparr>vs_demoted := d\<rparr>)]"
  have PQ: "?Q w" if "?P w" for w using that by (intro exI [of _ "vs_demoted st"]) simp
  have put: "keeps ?P (putExeAction r k a)" for k a
    by (auto simp: run_def dest: keeps_Inr [OF guards.putExeAction_part, rotated] split: prod.splits sum.splits)
  have "run ?P (attempt (putExeAction r (vs_key st) GUARD_BLOCK)) (\<lambda>_. ?P) ?Q"
    using put [of "vs_key st" GUARD_BLOCK] by (fastforce simp: run_def attempt_def split: prod.splits sum.splits)
  moreover have "run ?P (exeGone (vs_key st)) (\<lambda>_. ?P) ?Q"
    by (simp add: run_def exeGone_def and_then_def map_look_def ret_def)
  moreover have "run ?P (put_verify_state r c (st\<lparr>vs_demoted := True\<rparr>)) (\<lambda>_. ?Q) ?Q"
    unfolding put_verify_state_def by (intro run_modify exI [of _ True]) (simp add: upd_guard_def)
  ultimately show ?thesis
    unfolding demoteInPlace_def
    by (intro run_and_then run_branch) (auto intro!: run_ret PQ split: sum.splits)
qed

text \<open>
  C37. A demotion that fails is not tried again. One binary is pinned; it was rewritten in place, so that its inode is the one
  admitted, its fingerprint has changed and its hash differs, and it has been left alone long enough to count as settled. If the
  round that finds this does not get its block written, then no later round changes any row, as long as the file stays as it is:
  a binary that is still allowed stays allowed.
\<close>

theorem failed_demotion_not_retried:
  assumes pinned: "g_verifyStates (w_guards w r) = [(c, st)]" "\<not> vs_demoted st"
    and same: "\<And>t. ge_StatBinary (X t) c = Some fp" "bs_Key fp = Real (vs_key st)" "vs_stat st \<noteq> fp"
    and old: "\<And>t. sint (word_of_int (ge_Now (X t) - bs_CtimeNs fp) :: 64 word) \<ge> settleAge"
    and hash: "hashPathShared X c (step_tick w) = (Inr (entry, fp), v)" "be_Hash entry \<noteq> vs_hash st"
    and first: "verifyBinaryHashesOnce X r w = (x, u)"
    and failed: "g_verifyStates (w_guards u r) = [(c, st')]" "\<not> vs_demoted st'"
  shows "vs_hash st' = vs_hash st \<and> g_verifyStates (w_guards (((\<lambda>w. snd (verifyBinaryHashesOnce X r w)) ^^ n) u) r) = [(c, st')] \<and>
    GuardExeActions (((\<lambda>w. snd (verifyBinaryHashesOnce X r w)) ^^ n) u) = GuardExeActions u"
proof -
  have gv: "w_guards v = w_guards w" using keeps_Inr [OF hash_guards [of "w_guards w"] _ hash(1)] by simp
  let ?st = "st\<lparr>vs_stat := fp, vs_hashed := True\<rparr>"
  let ?v = "upd_guard r (\<lambda>g. g\<lparr>g_verifyStates := AList.update c ?st (g_verifyStates g)\<rparr>) (step_tick v)"
  have "verify_one X r (c, st) w = demoteInPlace r c ?st ?v"
    using same hash old pinned(2)
    by (simp add: verify_one_def and_then_def look_def attempt_def settled_def put_verify_state_def modify_def Let_def)
  then have "\<exists>y. demoteInPlace r c ?st ?v = (y, u)"
    using first pinned(1) by (auto simp: verifyBinaryHashesOnce_def and_then_def get_def ret_def split: prod.splits sum.splits)
  then obtain y where d: "demoteInPlace r c ?st ?v = (y, u)" ..
  have "g_verifyStates (w_guards ?v r) = [(c, ?st)]" using pinned(1) gv by (simp add: upd_guard_def)
  then have "\<exists>b. g_verifyStates (w_guards u r) = [(c, ?st\<lparr>vs_demoted := b\<rparr>)]"
    using run_Inr [OF demote_states, of ?v r c ?st _ u] run_Inl [OF demote_states, of ?v r c ?st _ u] d by (cases y) blast+
  with failed pinned(2) have st': "st' = ?st" by auto
  have "for_each [(c, st')] (verify_one X r) z = (Inr (), (step_tick ^^ length [(c, st')]) z)" for z
    by (rule verify_skips) (use same in \<open>auto simp: st'\<close>)
  then have later: "g_verifyStates (w_guards z r) = [(c, st')] \<Longrightarrow> snd (verifyBinaryHashesOnce X r z) = step_tick z" for z
    by (simp add: verifyBinaryHashesOnce_def and_then_def get_def)
  have "g_verifyStates (w_guards (((\<lambda>w. snd (verifyBinaryHashesOnce X r w)) ^^ n) u) r) = [(c, st')] \<and>
      GuardExeActions (((\<lambda>w. snd (verifyBinaryHashesOnce X r w)) ^^ n) u) = GuardExeActions u"
    by (induction n) (simp_all add: failed later)
  then show ?thesis by (simp add: st')
qed

lemma tampered_once:
  "map_of (GuardExeActions (verify_round (tampered_world (\<lambda>n. n = 8)))) (1, swap_key 7) = Some GUARD_ALLOW \<and>
   g_verifyStates (w_guards (verify_round (tampered_world (\<lambda>n. n = 8))) 1) =
     [(''/bin/cat'', \<lparr>vs_key = swap_key 7, vs_stat = tampered_stat, vs_hash = [1], vs_hashed = True, vs_demoted = False\<rparr>)]"
  "(case hashPathShared tampered_env ''/bin/cat'' (step_tick (tampered_world (\<lambda>n. n = 8))) of (x, v) \<Rightarrow>
     (case x of Inl _ \<Rightarrow> False | Inr (entry, fp) \<Rightarrow> fp = tampered_stat \<and> be_Hash entry = [2]))"
  "sint (word_of_int (2 * settleAge - 5) :: 64 word) \<ge> settleAge"
  by code_simp+

theorem failed_demotion_not_retried_witness:
  "map_of (GuardExeActions ((verify_round ^^ 1000) (verify_round (tampered_world (\<lambda>n. n = 8))))) (1, swap_key 7) = Some GUARD_ALLOW"
proof -
  let ?w = "tampered_world (\<lambda>n. n = 8)"
  obtain entry v where h: "hashPathShared tampered_env ''/bin/cat'' (step_tick ?w) = (Inr (entry, tampered_stat), v)" "be_Hash entry = [2]"
    using tampered_once(2) by (auto split: prod.splits sum.splits)
  have p: "g_verifyStates (w_guards ?w 1) = [(''/bin/cat'', \<lparr>vs_key = swap_key 7,
      vs_stat = tampered_stat\<lparr>bs_MtimeNs := 1, bs_CtimeNs := 1\<rparr>, vs_hash = [1], vs_hashed = True, vs_demoted = False\<rparr>)]"
    by (simp add: tampered_world_def upd_guard_def)
  have r: "verify_round = (\<lambda>w. snd (verifyBinaryHashesOnce tampered_env 1 w))" by (rule ext) (simp add: verify_round_def)
  from failed_demotion_not_retried [OF p _ _ _ _ _ h(1) _ prod.collapse [symmetric] tampered_once(1) [THEN conjunct2, unfolded verify_round_def], of 1000]
    h(2) tampered_once(1,3)
  show ?thesis by (simp add: r tampered_env_def tampered_stat_def swap_key_real)
qed

end
