(* ===== verification/Binary_Ledger.thy ===== *)
theory Binary_Ledger
  imports Guard_State
begin

text \<open>
  The binary ledger, \<open>binaries.db\<close> (\<open>internal/binledger\<close>): which content each whitelist line was
  confirmed for, which binaries were refused, the one-time grants of an install, the cached content
  hashes and the password record with its guess budget. SQLite is a parameter: a statement has the
  documented effect on its table or fails and changes nothing, a transaction takes effect as a whole
  when its commit succeeds. The oracle \<open>db_faults\<close> says which of the statements, counted by
  \<open>db_tick\<close>, fail. The clock is an argument, in nanoseconds since the epoch.
\<close>

subsection \<open>Tables\<close>

datatype Source = SourceInstall | SourceBootstrap | SourceUpdater | SourceConfirmed | SourceRecorded

record binaryRow =
  br_sha256 :: bytes
  br_source :: Source
  br_updated_at :: int

record Pending =
  p_Line :: string
  p_Resolved :: string
  p_SHA256 :: bytes
  p_Resources :: string
  p_SeenAt :: int \<comment> \<open>seconds\<close>

record cacheRow =
  cr_fsid :: int
  cr_size :: int
  cr_mtime_ns :: int
  cr_ctime_ns :: int
  cr_btime_ns :: int
  cr_sha256 :: bytes

text \<open>One table each; \<open>pending\<close> rows are keyed by their line, \<open>hash_cache\<close> rows by device and inode
  as SQLite's signed integers.\<close>

record db =
  db_tick :: nat
  db_faults :: "nat \<Rightarrow> bool"
  t_meta :: "(string, string) gomap"
  t_binaries :: "(string, binaryRow) gomap"
  t_grants :: "(string, unit) gomap"
  t_pending :: "(string, Pending) gomap"
  t_hash_cache :: "(int \<times> int, cacheRow) gomap"
  t_edit_auth :: "(string \<times> int) option"
  t_throttle :: "(int \<times> int) option"

datatype ledger_err = Sql | MalformedHash string | EmptyRecord | Locked int

type_synonym 'a dbact = "db \<Rightarrow> (ledger_err + 'a) \<times> db"

subsection \<open>Statements and transactions\<close>

definition db_step :: "db \<Rightarrow> db" where
  "db_step d = d\<lparr>db_tick := Suc (db_tick d)\<rparr>"

definition stmt :: "(db \<Rightarrow> 'a \<times> db) \<Rightarrow> 'a dbact" where
  "stmt f d = (if db_faults d (db_tick d) then (Inl Sql, db_step d) else (case f (db_step d) of (x, d') \<Rightarrow> (Inr x, d')))"

definition db_then :: "'a dbact \<Rightarrow> ('a \<Rightarrow> 'b dbact) \<Rightarrow> 'b dbact" where
  "db_then m f d = (case m d of (Inl e, d') \<Rightarrow> (Inl e, d') | (Inr x, d') \<Rightarrow> f x d')"

definition db_ret :: "'a \<Rightarrow> 'a dbact" where
  "db_ret x d = (Inr x, d)"

definition db_fail :: "ledger_err \<Rightarrow> 'a dbact" where
  "db_fail e d = (Inl e, d)"

text \<open>\<open>BeginTx\<close>, the body, \<open>Commit\<close>. A body that fails, or that returns without committing (\<open>None\<close>), is
  rolled back.\<close>

definition undone :: "db \<Rightarrow> db \<Rightarrow> db" where
  "undone d0 d = d0\<lparr>db_tick := db_tick d\<rparr>"

definition tx :: "(bool \<times> 'a) dbact \<Rightarrow> 'a dbact" where
  "tx body = db_then (stmt (\<lambda>d. ((), d))) (\<lambda>_ d. case body d of
     (Inl e, d') \<Rightarrow> (Inl e, undone d d')
   | (Inr (False, x), d') \<Rightarrow> (Inr x, undone d d')
   | (Inr (True, x), d') \<Rightarrow> (case stmt (\<lambda>d. ((), d)) d' of
       (Inl e, d'') \<Rightarrow> (Inl e, undone d d'')
     | (Inr _, d'') \<Rightarrow> (Inr x, d'')))"

text \<open>\<open>DELETE\<close> tells how many rows it removed.\<close>

definition sql_delete :: "('k \<Rightarrow> 'v \<Rightarrow> bool) \<Rightarrow> ('k, 'v) gomap \<Rightarrow> nat \<times> ('k, 'v) gomap" where
  "sql_delete c t = (length (gm_keep c t), gm_keep (\<lambda>k v. \<not> c k v) t)"

definition unix_seconds :: "int \<Rightarrow> int" where "unix_seconds ns = ns div 1000000000"

definition sum32 :: "bytes \<Rightarrow> bytes" where "sum32 b = take 32 (b @ replicate 32 0)"

subsection \<open>Confirmed, refused and granted lines\<close>

definition Line :: "BinaryRule \<Rightarrow> string" where
  "Line r = (if bin_Link r \<noteq> [] then bin_Link r else bin_Path r)"

definition Lines :: "Config \<Rightarrow> string list" where
  "Lines cfg = concat (map (\<lambda>r. map Line (res_Binaries r) @ map Line (res_PendingBinaries r)) (Resources cfg))"

definition initializedKey :: string where "initializedKey = ''initialized''"

definition Initialized :: "bool dbact" where
  "Initialized = stmt (\<lambda>d. (map_of (t_meta d) initializedKey \<noteq> None, d))"

definition MarkInitialized :: "string \<Rightarrow> unit dbact" where
  "MarkInitialized now = stmt (\<lambda>d. ((), d\<lparr>t_meta := AList.update initializedKey now (t_meta d)\<rparr>))"

definition Lookup :: "string \<Rightarrow> bytes option dbact" where
  "Lookup line = db_then (stmt (\<lambda>d. (map_of (t_binaries d) line, d))) (\<lambda>r. case r of
     None \<Rightarrow> db_ret None
   | Some b \<Rightarrow> if length (br_sha256 b) \<noteq> 32 then db_fail (MalformedHash line) else db_ret (Some (br_sha256 b)))"

definition put_binary :: "string \<Rightarrow> bytes \<Rightarrow> Source \<Rightarrow> int \<Rightarrow> unit dbact" where
  "put_binary line h src now = stmt (\<lambda>d. ((), d\<lparr>t_binaries :=
     AList.update line \<lparr>br_sha256 = h, br_source = src, br_updated_at = unix_seconds now\<rparr> (t_binaries d)\<rparr>))"

definition DropPending :: "string \<Rightarrow> unit dbact" where
  "DropPending line = stmt (\<lambda>d. ((), d\<lparr>t_pending := AList.delete line (t_pending d)\<rparr>))"

definition Record :: "string \<Rightarrow> bytes \<Rightarrow> Source \<Rightarrow> int \<Rightarrow> unit dbact" where
  "Record line h src now =
     tx (db_then (put_binary line h src now) (\<lambda>_. db_then (DropPending line) (\<lambda>_. db_ret (True, ()))))"

definition RecordIfAbsent :: "string \<Rightarrow> bytes \<Rightarrow> Source \<Rightarrow> int \<Rightarrow> bool dbact" where
  "RecordIfAbsent line h src now = tx (
     db_then (stmt (\<lambda>d. case map_of (t_binaries d) line of
         Some _ \<Rightarrow> (0 :: nat, d)
       | None \<Rightarrow> (1, d\<lparr>t_binaries := AList.update line \<lparr>br_sha256 = h, br_source = src, br_updated_at = unix_seconds now\<rparr> (t_binaries d)\<rparr>))) (\<lambda>n.
     if n = 0 then db_ret (False, False)
     else db_then (DropPending line) (\<lambda>_. db_ret (True, True))))"

definition Forget :: "string \<Rightarrow> bytes \<Rightarrow> Source \<Rightarrow> unit dbact" where
  "Forget line h src = stmt (\<lambda>d. ((), d\<lparr>t_binaries :=
     snd (sql_delete (\<lambda>k b. k = line \<and> br_sha256 b = h \<and> br_source b = src) (t_binaries d))\<rparr>))"

definition AddPending :: "Pending \<Rightarrow> unit dbact" where
  "AddPending p = stmt (\<lambda>d. ((), d\<lparr>t_pending := AList.update (p_Line p) p (t_pending d)\<rparr>))"

definition ListPending :: "Pending list dbact" where
  "ListPending = stmt (\<lambda>d. (map (\<lambda>(_, p). p\<lparr>p_SHA256 := sum32 (p_SHA256 p)\<rparr>)
     (sort_key (\<lambda>(_, p). p_SeenAt p) (sort_key (\<lambda>(k, _). map (of_char :: char \<Rightarrow> nat) k) (t_pending d))), d))"

definition ConfirmPending :: "string \<Rightarrow> bytes \<Rightarrow> int \<Rightarrow> bool dbact" where
  "ConfirmPending line h now = tx (
     db_then (stmt (\<lambda>d. case sql_delete (\<lambda>k p. k = line \<and> p_SHA256 p = h) (t_pending d) of
       (n, t) \<Rightarrow> (n, d\<lparr>t_pending := t\<rparr>))) (\<lambda>n.
     if n = 0 then db_ret (False, False)
     else db_then (put_binary line h SourceConfirmed now) (\<lambda>_. db_ret (True, True))))"

definition Grant :: "string \<Rightarrow> unit dbact" where
  "Grant line = stmt (\<lambda>d. ((), if map_of (t_grants d) line = None then d\<lparr>t_grants := AList.update line () (t_grants d)\<rparr> else d))"

definition TakeGrant :: "string \<Rightarrow> bool dbact" where
  "TakeGrant line = stmt (\<lambda>d. case sql_delete (\<lambda>k _. k = line) (t_grants d) of (n, t) \<Rightarrow> (n > 0, d\<lparr>t_grants := t\<rparr>))"

definition DropGrants :: "unit dbact" where
  "DropGrants = stmt (\<lambda>d. ((), d\<lparr>t_grants := []\<rparr>))"

subsection \<open>Content hashes of earlier runs\<close>

definition MaxHashCacheRows :: nat where "MaxHashCacheRows = 16384"

definition to_int64 :: "u64 \<Rightarrow> int" where "to_int64 w = sint w"
definition of_int64 :: "int \<Rightarrow> u64" where "of_int64 i = word_of_int i"

definition load_row :: "(int \<times> int) \<times> cacheRow \<Rightarrow> (durableStat \<times> bytes) option" where
  "load_row r = (case r of ((dev, ino), c) \<Rightarrow>
     if length (cr_sha256 c) \<noteq> 32 then None
     else Some (\<lparr>ds_stat = \<lparr>bs_Key = \<lparr>Dev = of_int64 dev, Ino = of_int64 ino\<rparr>, bs_Size = cr_size c,
        bs_MtimeNs = cr_mtime_ns c, bs_CtimeNs = cr_ctime_ns c\<rparr>, ds_BtimeNs = cr_btime_ns c, ds_Fsid = of_int64 (cr_fsid c)\<rparr>, cr_sha256 c))"

definition LoadHashCache :: "(durableStat, bytes) gomap dbact" where
  "LoadHashCache = stmt (\<lambda>d. (foldl (\<lambda>m r. case load_row r of None \<Rightarrow> m | Some (ds, h) \<Rightarrow> AList.update ds h m) []
     (take MaxHashCacheRows (t_hash_cache d)), d))"

definition save_row :: "durableStat \<times> bytes \<Rightarrow> (int \<times> int) \<times> cacheRow" where
  "save_row r = (case r of (ds, h) \<Rightarrow>
     ((to_int64 (Dev (bs_Key (ds_stat ds))), to_int64 (Ino (bs_Key (ds_stat ds)))),
      \<lparr>cr_fsid = to_int64 (ds_Fsid ds), cr_size = bs_Size (ds_stat ds), cr_mtime_ns = bs_MtimeNs (ds_stat ds),
       cr_ctime_ns = bs_CtimeNs (ds_stat ds), cr_btime_ns = ds_BtimeNs ds, cr_sha256 = h\<rparr>))"

text \<open>\<open>rows\<close> is listed in the order the map is walked.\<close>

fun save_rows :: "(durableStat \<times> bytes) list \<Rightarrow> nat \<Rightarrow> unit dbact" where
  "save_rows [] n = db_ret ()"
| "save_rows (r # rs) n =
     (if n \<ge> MaxHashCacheRows then db_ret ()
      else db_then (stmt (\<lambda>d. case save_row r of (k, c) \<Rightarrow> ((), d\<lparr>t_hash_cache := AList.update k c (t_hash_cache d)\<rparr>)))
        (\<lambda>_. save_rows rs (Suc n)))"

definition SaveHashCache :: "(durableStat, bytes) gomap \<Rightarrow> bool \<Rightarrow> unit dbact" where
  "SaveHashCache rows prune = tx (
     db_then (if prune then stmt (\<lambda>d. ((), d\<lparr>t_hash_cache := []\<rparr>)) else db_ret ()) (\<lambda>_.
     db_then (stmt (\<lambda>d. ((), d))) (\<lambda>_.
     db_then (save_rows rows 0) (\<lambda>_. db_ret (True, ())))))"

subsection \<open>The password record and the guess budget\<close>

definition MaxAuthFailures :: int where "MaxAuthFailures = 5"
definition AuthLockout :: int where "AuthLockout = 60000000000"

definition EditAuthHash :: "string dbact" where
  "EditAuthHash = stmt (\<lambda>d. (case t_edit_auth d of None \<Rightarrow> [] | Some (h, _) \<Rightarrow> h, d))"

definition SetEditAuthHash :: "string \<Rightarrow> int \<Rightarrow> unit dbact" where
  "SetEditAuthHash encoded now = (if encoded = [] then db_fail EmptyRecord
     else stmt (\<lambda>d. ((), d\<lparr>t_edit_auth := Some (encoded, unix_seconds now)\<rparr>)))"

definition BeginAuthAttempt :: "int \<Rightarrow> unit dbact" where
  "BeginAuthAttempt now = tx (
     db_then (stmt (\<lambda>d. (case t_throttle d of None \<Rightarrow> (0, 0) | Some r \<Rightarrow> r, d))) (\<lambda>(failures, lockedUntil).
     if now < lockedUntil * 1000000000 then db_fail (Locked lockedUntil)
     else (let r = (if failures + 1 \<ge> MaxAuthFailures then (0, unix_seconds (now + AuthLockout)) else (failures + 1, 0)) in
       db_then (stmt (\<lambda>d. ((), d\<lparr>t_throttle := Some r\<rparr>))) (\<lambda>_. db_ret (True, ())))))"

definition AuthSucceeded :: "unit dbact" where
  "AuthSucceeded = stmt (\<lambda>d. ((), d\<lparr>t_throttle := None\<rparr>))"

end
