(* ===== verification/Ledger_Facts.thy ===== *)
theory Ledger_Facts
  imports Binary_Ledger
begin

text \<open>
  What the binary ledger promises to its users, as an abstract machine over verdicts, and that every
  operation on the tables implements it.
\<close>

subsection \<open>Primary keys\<close>

definition lined :: "(string, Pending) gomap \<Rightarrow> bool" where
  "lined t \<longleftrightarrow> (\<forall>(k, p) \<in> set t. p_Line p = k)"

lemma lined_update [simp]: "lined t \<Longrightarrow> lined (AList.update (p_Line q) q t)"
  by (induction t) (auto simp: lined_def)

lemma lined_delete [simp]: "lined t \<Longrightarrow> lined (AList.delete l t)"
  by (auto simp: lined_def AList.delete_eq)

lemma lined_keep [simp]: "lined t \<Longrightarrow> lined (gm_keep c t)"
  by (auto simp: lined_def gm_keep_def)

definition db_ok :: "db \<Rightarrow> bool" where
  "db_ok d \<longleftrightarrow> gm_wf (t_meta d) \<and> gm_wf (t_binaries d) \<and> gm_wf (t_grants d) \<and> gm_wf (t_pending d) \<and> gm_wf (t_hash_cache d) \<and> lined (t_pending d)"

subsection \<open>What the ledger promises\<close>

text \<open>The verdicts: what each line is confirmed for, what was refused, what may be recorded once, whether the first
  recording is over, the password and the guesses of the running budget.\<close>

record verdicts =
  confirmed :: "string \<Rightarrow> (bytes \<times> Source) option"
  refused :: "string \<Rightarrow> Pending option"
  granted :: "string set"
  started :: bool
  password :: string
  budget :: "int \<times> int"

definition verdicts_of :: "db \<Rightarrow> verdicts" where
  "verdicts_of d = \<lparr>confirmed = (\<lambda>l. map_option (\<lambda>b. (br_sha256 b, br_source b)) (map_of (t_binaries d) l)),
     refused = map_of (t_pending d), granted = dom (map_of (t_grants d)), started = (map_of (t_meta d) initializedKey \<noteq> None),
     password = (case t_edit_auth d of None \<Rightarrow> [] | Some (h, _) \<Rightarrow> h), budget = (case t_throttle d of None \<Rightarrow> (0, 0) | Some r \<Rightarrow> r)\<rparr>"

datatype ledger_op = O_Initialized | O_MarkInitialized string | O_Lookup string | O_Record string bytes Source int
  | O_RecordIfAbsent string bytes Source int | O_Forget string bytes Source | O_AddPending Pending | O_ListPending
  | O_ConfirmPending string bytes int | O_DropPending string | O_Grant string | O_TakeGrant string | O_DropGrants
  | O_EditAuthHash | O_SetEditAuthHash string int | O_BeginAuthAttempt int | O_AuthSucceeded
  | O_LoadHashCache | O_SaveHashCache "(durableStat, bytes) gomap" bool

datatype answer = A_done | A_bool bool | A_hash "bytes option" | A_rows "Pending set" | A_text string

definition answering :: "('a \<Rightarrow> answer) \<Rightarrow> 'a dbact \<Rightarrow> answer dbact" where
  "answering f m = db_then m (\<lambda>x. db_ret (f x))"

fun perform :: "ledger_op \<Rightarrow> answer dbact" where
  "perform O_Initialized = answering A_bool Initialized"
| "perform (O_MarkInitialized now) = answering (\<lambda>_. A_done) (MarkInitialized now)"
| "perform (O_Lookup l) = answering A_hash (Lookup l)"
| "perform (O_Record l h src now) = answering (\<lambda>_. A_done) (Record l h src now)"
| "perform (O_RecordIfAbsent l h src now) = answering A_bool (RecordIfAbsent l h src now)"
| "perform (O_Forget l h src) = answering (\<lambda>_. A_done) (Forget l h src)"
| "perform (O_AddPending p) = answering (\<lambda>_. A_done) (AddPending p)"
| "perform O_ListPending = answering (\<lambda>ps. A_rows (set ps)) ListPending"
| "perform (O_ConfirmPending l h now) = answering A_bool (ConfirmPending l h now)"
| "perform (O_DropPending l) = answering (\<lambda>_. A_done) (DropPending l)"
| "perform (O_Grant l) = answering (\<lambda>_. A_done) (Grant l)"
| "perform (O_TakeGrant l) = answering A_bool (TakeGrant l)"
| "perform O_DropGrants = answering (\<lambda>_. A_done) DropGrants"
| "perform O_EditAuthHash = answering A_text EditAuthHash"
| "perform (O_SetEditAuthHash e now) = answering (\<lambda>_. A_done) (SetEditAuthHash e now)"
| "perform (O_BeginAuthAttempt now) = answering (\<lambda>_. A_done) (BeginAuthAttempt now)"
| "perform O_AuthSucceeded = answering (\<lambda>_. A_done) AuthSucceeded"
| "perform O_LoadHashCache = answering (\<lambda>_. A_done) LoadHashCache"
| "perform (O_SaveHashCache rows prune) = answering (\<lambda>_. A_done) (SaveHashCache rows prune)"

fun demand :: "ledger_op \<Rightarrow> verdicts \<Rightarrow> (ledger_err + answer) \<times> verdicts" where
  "demand O_Initialized v = (Inr (A_bool (started v)), v)"
| "demand (O_MarkInitialized now) v = (Inr A_done, v\<lparr>started := True\<rparr>)"
| "demand (O_Lookup l) v = (case confirmed v l of None \<Rightarrow> Inr (A_hash None)
     | Some (h, _) \<Rightarrow> if length h \<noteq> 32 then Inl (MalformedHash l) else Inr (A_hash (Some h)), v)"
| "demand (O_Record l h src now) v = (Inr A_done, v\<lparr>confirmed := (confirmed v)(l \<mapsto> (h, src)), refused := (refused v)(l := None)\<rparr>)"
| "demand (O_RecordIfAbsent l h src now) v = (if confirmed v l \<noteq> None then (Inr (A_bool False), v)
     else (Inr (A_bool True), v\<lparr>confirmed := (confirmed v)(l \<mapsto> (h, src)), refused := (refused v)(l := None)\<rparr>))"
| "demand (O_Forget l h src) v = (Inr A_done, if confirmed v l = Some (h, src) then v\<lparr>confirmed := (confirmed v)(l := None)\<rparr> else v)"
| "demand (O_AddPending p) v = (Inr A_done, v\<lparr>refused := (refused v)(p_Line p \<mapsto> p)\<rparr>)"
| "demand O_ListPending v = (Inr (A_rows ((\<lambda>p. p\<lparr>p_SHA256 := sum32 (p_SHA256 p)\<rparr>) ` ran (refused v))), v)"
| "demand (O_ConfirmPending l h now) v = (if map_option p_SHA256 (refused v l) = Some h
     then (Inr (A_bool True), v\<lparr>confirmed := (confirmed v)(l \<mapsto> (h, SourceConfirmed)), refused := (refused v)(l := None)\<rparr>)
     else (Inr (A_bool False), v))"
| "demand (O_DropPending l) v = (Inr A_done, v\<lparr>refused := (refused v)(l := None)\<rparr>)"
| "demand (O_Grant l) v = (Inr A_done, v\<lparr>granted := insert l (granted v)\<rparr>)"
| "demand (O_TakeGrant l) v = (Inr (A_bool (l \<in> granted v)), v\<lparr>granted := granted v - {l}\<rparr>)"
| "demand O_DropGrants v = (Inr A_done, v\<lparr>granted := {}\<rparr>)"
| "demand O_EditAuthHash v = (Inr (A_text (password v)), v)"
| "demand (O_SetEditAuthHash e now) v = (if e = [] then (Inl EmptyRecord, v) else (Inr A_done, v\<lparr>password := e\<rparr>))"
| "demand (O_BeginAuthAttempt now) v = (case budget v of (failures, until) \<Rightarrow>
     if now < until * 1000000000 then (Inl (Locked until), v)
     else (Inr A_done, v\<lparr>budget := (if failures \<ge> 4 then (0, (now + 60000000000) div 1000000000) else (failures + 1, 0))\<rparr>))"
| "demand O_AuthSucceeded v = (Inr A_done, v\<lparr>budget := (0, 0)\<rparr>)"
| "demand O_LoadHashCache v = (Inr A_done, v)"
| "demand (O_SaveHashCache rows prune) v = (Inr A_done, v)"

text \<open>What one operation does: fail as SQL and leave the verdicts, or answer and act as demanded.\<close>

definition refines :: "ledger_op \<Rightarrow> db \<Rightarrow> bool" where
  "refines op d \<longleftrightarrow> (case perform op d of (r, d') \<Rightarrow> db_ok d' \<and>
     (r = Inl Sql \<and> verdicts_of d' = verdicts_of d \<or> (r, verdicts_of d') = demand op (verdicts_of d)))"

lemma tick_irrelevant [simp]: "verdicts_of (d\<lparr>db_tick := n\<rparr>) = verdicts_of d" "db_ok (d\<lparr>db_tick := n\<rparr>) = db_ok d"
  by (simp_all add: verdicts_of_def db_ok_def)

lemma step_irrelevant [simp]: "verdicts_of (db_step d) = verdicts_of d" "db_ok (db_step d) = db_ok d"
  by (simp_all add: db_step_def)

text \<open>The rule of a single statement, and of a transaction.\<close>

lemma stmt_cases:
  assumes "perform op = answering g (stmt f)" and "db_ok d"
    and "case f (db_step d) of (x, d') \<Rightarrow> db_ok d' \<and> (Inr (g x), verdicts_of d') = demand op (verdicts_of d)"
  shows "refines op d"
  using assms by (auto simp: refines_def answering_def db_then_def db_ret_def stmt_def split: prod.splits)

definition sql_wp :: "'a dbact \<Rightarrow> db \<Rightarrow> (ledger_err \<Rightarrow> bool) \<Rightarrow> ('a \<Rightarrow> db \<Rightarrow> bool) \<Rightarrow> bool" where
  "sql_wp m d E Q \<longleftrightarrow> (case m d of (Inl e, _) \<Rightarrow> e = Sql \<or> E e | (Inr x, d') \<Rightarrow> Q x d')"

lemma wp_stmt: "(case f (db_step d) of (x, d') \<Rightarrow> sql_wp (k x) d' E Q) \<Longrightarrow> sql_wp (db_then (stmt f) k) d E Q"
  by (simp add: sql_wp_def db_then_def stmt_def split: prod.splits)

lemma wp_ret: "Q x d \<Longrightarrow> sql_wp (db_ret x) d E Q" and wp_fail: "E e \<Longrightarrow> sql_wp (db_fail e) d E Q"
  by (simp_all add: sql_wp_def db_ret_def db_fail_def)

lemma tx_cases:
  assumes op: "perform op = answering g (tx body)" and ok: "db_ok d"
    and body: "sql_wp body (db_step d) (\<lambda>e. (Inl e, verdicts_of d) = demand op (verdicts_of d))
      (\<lambda>(commit, x) d'. if commit then db_ok d' \<and> (Inr (g x), verdicts_of d') = demand op (verdicts_of d)
         else (Inr (g x), verdicts_of d) = demand op (verdicts_of d))"
  shows "refines op d"
proof -
  obtain r d' where b: "body (db_step d) = (r, d')" by (cases "body (db_step d)")
  consider e where "r = Inl e" | x where "r = Inr (False, x)" | x where "r = Inr (True, x)" by (cases r) auto
  then show ?thesis using ok body
    by cases (simp_all add: refines_def sql_wp_def op b answering_def db_then_def db_ret_def tx_def stmt_def undone_def split: if_splits)
qed

text \<open>Row facts the cases share.\<close>

lemma kept_key: "gm_wf t \<Longrightarrow> gm_keep (\<lambda>k v. k = l \<and> c v) t \<noteq> [] \<longleftrightarrow> (\<exists>v. map_of t l = Some v \<and> c v)"
proof -
  assume "gm_wf t"
  then have "(l, v) \<in> set t \<longleftrightarrow> map_of t l = Some v" for v by (simp add: map_of_eq_Some_iff)
  then show ?thesis by (auto simp: gm_keep_def filter_empty_conv)
qed

lemma kept_rest: "gm_wf t \<Longrightarrow> map_of (gm_keep (\<lambda>k v. \<not> (k = l \<and> c v)) t) =
    (if \<exists>v. map_of t l = Some v \<and> c v then (map_of t)(l := None) else map_of t)"
proof (rule ext)
  fix x assume wf: "gm_wf t"
  show "map_of (gm_keep (\<lambda>k v. \<not> (k = l \<and> c v)) t) x = (if \<exists>v. map_of t l = Some v \<and> c v then (map_of t)(l := None) else map_of t) x"
    unfolding map_of_keep [OF wf] by (cases "map_of t x"; cases "x = l"; cases "map_of t l") (simp_all del: map_of_eq_Some_iff)
qed

lemmas ledger_defs = db_ok_def verdicts_of_def initializedKey_def sql_delete_def

lemma refines_reads:
  assumes ok: "db_ok d"
  shows "refines O_Initialized d" "refines O_EditAuthHash d" "refines O_LoadHashCache d" "refines O_ListPending d"
proof -
  show "refines O_Initialized d" by (rule stmt_cases [OF _ ok, where g = A_bool]) (use ok in \<open>auto simp: Initialized_def ledger_defs db_step_def\<close>)
  show "refines O_EditAuthHash d" by (rule stmt_cases [OF _ ok, where g = A_text]) (use ok in \<open>auto simp: EditAuthHash_def ledger_defs db_step_def\<close>)
  show "refines O_LoadHashCache d" by (rule stmt_cases [OF _ ok, where g = "\<lambda>_. A_done"]) (use ok in \<open>auto simp: LoadHashCache_def\<close>)
  have "ran (map_of (t_pending d)) = snd ` set (t_pending d)" using ok by (simp add: db_ok_def ran_distinct)
  then have "(\<lambda>(_, p). p\<lparr>p_SHA256 := sum32 (p_SHA256 p)\<rparr>) ` set (t_pending d) = (\<lambda>p. p\<lparr>p_SHA256 := sum32 (p_SHA256 p)\<rparr>) ` ran (map_of (t_pending d))"
    by (simp add: image_image case_prod_beta)
  then show "refines O_ListPending d"
    by (intro stmt_cases [OF _ ok, where g = "\<lambda>ps. A_rows (set ps)"])
      (use ok in \<open>auto simp: ListPending_def verdicts_of_def db_step_def simp del: image_iff\<close>)
qed

lemma refines_Lookup: "db_ok d \<Longrightarrow> refines (O_Lookup l) d"
  by (auto simp: refines_def Lookup_def answering_def db_then_def db_ret_def db_fail_def stmt_def verdicts_of_def db_step_def split: option.splits)

lemma refines_writes:
  assumes ok: "db_ok d"
  shows "refines (O_MarkInitialized now) d" "refines (O_AddPending p) d" "refines (O_DropPending l) d" "refines (O_Grant l) d"
    "refines O_DropGrants d" "refines O_AuthSucceeded d"
proof -
  note go = stmt_cases [OF _ ok, where g = "\<lambda>_. A_done"]
  show "refines (O_MarkInitialized now) d" by (rule go) (use ok in \<open>auto simp: MarkInitialized_def ledger_defs db_step_def\<close>)
  show "refines (O_AddPending p) d" by (rule go) (use ok in \<open>auto simp: AddPending_def ledger_defs db_step_def\<close>)
  show "refines (O_DropPending l) d" by (rule go) (use ok in \<open>auto simp: DropPending_def ledger_defs db_step_def\<close>)
  show "refines (O_Grant l) d"
  proof (cases "map_of (t_grants d) l")
    case None
    then show ?thesis by (intro go) (simp add: Grant_def, use ok in \<open>simp add: ledger_defs db_step_def\<close>)
  next
    case (Some x)
    then have "insert l (dom (map_of (t_grants d))) = dom (map_of (t_grants d))" by (simp add: insert_absorb dom_def del: map_of_eq_Some_iff)
    with Some show ?thesis by (intro go) (simp add: Grant_def, use ok in \<open>simp add: ledger_defs db_step_def del: map_of_eq_Some_iff\<close>)
  qed
  show "refines O_DropGrants d" by (rule go) (use ok in \<open>auto simp: DropGrants_def ledger_defs db_step_def\<close>)
  show "refines O_AuthSucceeded d" by (rule go) (use ok in \<open>auto simp: AuthSucceeded_def ledger_defs db_step_def\<close>)
qed

lemma refines_SetEditAuthHash: "db_ok d \<Longrightarrow> refines (O_SetEditAuthHash e now) d"
  by (auto simp: refines_def SetEditAuthHash_def answering_def db_then_def db_ret_def db_fail_def stmt_def ledger_defs db_step_def split: if_splits)

lemma refines_deletes:
  assumes ok: "db_ok d"
  shows "refines (O_Forget l h src) d" "refines (O_TakeGrant l) d"
proof -
  have wf: "gm_wf (t_binaries d)" "gm_wf (t_grants d)" using ok by (simp_all add: db_ok_def)
  define kept where "kept = gm_keep (\<lambda>k b. \<not> (k = l \<and> br_sha256 b = h \<and> br_source b = src)) (t_binaries d)"
  have b: "map_of kept = (if \<exists>b. map_of (t_binaries d) l = Some b \<and> br_sha256 b = h \<and> br_source b = src
      then (map_of (t_binaries d))(l := None) else map_of (t_binaries d))"
    unfolding kept_def by (rule kept_rest [OF wf(1)])
  have forget: "perform (O_Forget l h src) = answering (\<lambda>_. A_done) (stmt (\<lambda>d. ((), d\<lparr>t_binaries :=
      gm_keep (\<lambda>k b. \<not> (k = l \<and> br_sha256 b = h \<and> br_source b = src)) (t_binaries d)\<rparr>)))"
    by (simp add: Forget_def sql_delete_def)
  have ok': "db_ok ((db_step d)\<lparr>t_binaries := kept\<rparr>)"
    using ok by (simp add: db_ok_def db_step_def kept_def)
  have v: "(Inr A_done, verdicts_of ((db_step d)\<lparr>t_binaries := kept\<rparr>)) = demand (O_Forget l h src) (verdicts_of d)"
    by (cases "map_of (t_binaries d) l") (auto simp: verdicts_of_def db_step_def b fun_eq_iff simp del: map_of_eq_Some_iff)
  have "t_binaries (db_step d) = t_binaries d" by (simp add: db_step_def)
  then show "refines (O_Forget l h src) d"
    by (intro stmt_cases [OF forget ok]) (simp only: kept_def [symmetric] prod.case ok' v simp_thms)
  have g: "map_of (gm_keep (\<lambda>k _. k \<noteq> l) (t_grants d)) = (map_of (t_grants d))(l := None)"
    by (rule ext) (simp add: map_of_keep [OF wf(2)] split: option.split)
  have "gm_keep (\<lambda>k _. k = l) (t_grants d) \<noteq> [] \<longleftrightarrow> l \<in> dom (map_of (t_grants d))"
    using kept_key [OF wf(2), of l "\<lambda>_. True"] by (simp add: dom_def)
  then have n: "0 < length (gm_keep (\<lambda>k _. k = l) (t_grants d)) \<longleftrightarrow> l \<in> dom (map_of (t_grants d))" by simp
  have ok': "db_ok ((db_step d)\<lparr>t_grants := gm_keep (\<lambda>k _. k \<noteq> l) (t_grants d)\<rparr>)"
    using ok by (simp add: db_ok_def db_step_def)
  have v: "verdicts_of ((db_step d)\<lparr>t_grants := gm_keep (\<lambda>k _. k \<noteq> l) (t_grants d)\<rparr>) =
      (verdicts_of d)\<lparr>granted := granted (verdicts_of d) - {l}\<rparr>"
    by (simp add: verdicts_of_def db_step_def g)
  have gr: "granted (verdicts_of d) = dom (map_of (t_grants d))" by (simp add: verdicts_of_def)
  have t: "t_grants (db_step d) = t_grants d" by (simp add: db_step_def)
  have take: "perform (O_TakeGrant l) = answering A_bool (stmt (\<lambda>d. (length (gm_keep (\<lambda>k _. k = l) (t_grants d)) > 0,
      d\<lparr>t_grants := gm_keep (\<lambda>k _. k \<noteq> l) (t_grants d)\<rparr>)))"
    by (simp add: TakeGrant_def sql_delete_def)
  show "refines (O_TakeGrant l) d"
    by (rule stmt_cases [OF take ok]) (simp only: t prod.case n ok' v gr demand.simps simp_thms)
qed

lemma refines_Record:
  assumes ok: "db_ok d"
  shows "refines (O_Record l h src now) d"
  by (rule tx_cases [OF perform.simps(4) [unfolded Record_def put_binary_def DropPending_def] ok],
    intro wp_stmt, unfold prod.case, intro wp_stmt, unfold prod.case, intro wp_ret)
    (use ok in \<open>simp add: ledger_defs db_step_def fun_eq_iff del: map_of_eq_Some_iff\<close>)

lemma refines_RecordIfAbsent:
  assumes ok: "db_ok d"
  shows "refines (O_RecordIfAbsent l h src now) d"
proof (rule tx_cases [OF perform.simps(5) [unfolded RecordIfAbsent_def DropPending_def] ok], rule wp_stmt, goal_cases)
  case 1
  have t: "t_binaries (db_step (db_step d)) = t_binaries d" by (simp add: db_step_def)
  show ?case
  proof (cases "map_of (t_binaries d) l")
    case None
    then show ?thesis
      by (simp only: t option.case prod.case one_neq_zero if_False) (intro wp_stmt, unfold prod.case, intro wp_ret,
        use ok in \<open>simp add: ledger_defs db_step_def fun_eq_iff del: map_of_eq_Some_iff\<close>)
  next
    case (Some b)
    then show ?thesis
      by (simp only: t option.case prod.case if_True refl) (intro wp_ret, simp add: verdicts_of_def del: map_of_eq_Some_iff)
  qed
qed

lemma refines_ConfirmPending:
  assumes ok: "db_ok d"
  shows "refines (O_ConfirmPending l h now) d"
proof (rule tx_cases [OF perform.simps(9) [unfolded ConfirmPending_def put_binary_def sql_delete_def prod.case] ok], rule wp_stmt, goal_cases)
  case 1
  define kept where "kept = gm_keep (\<lambda>k p. \<not> (k = l \<and> p_SHA256 p = h)) (t_pending d)"
  have wf: "gm_wf (t_pending d)" using ok by (simp add: db_ok_def)
  note hit = kept_key [OF wf, of l "\<lambda>p. p_SHA256 p = h"]
  have t: "t_pending (db_step (db_step d)) = t_pending d" by (simp add: db_step_def)
  show ?case
  proof (cases "gm_keep (\<lambda>k p. k = l \<and> p_SHA256 p = h) (t_pending d) = []")
    case True
    with hit have "demand (O_ConfirmPending l h now) (verdicts_of d) = (Inr (A_bool False), verdicts_of d)"
      by (auto simp: verdicts_of_def simp del: map_of_eq_Some_iff)
    then show ?thesis by (simp only: t True prod.case list.size if_True refl) (intro wp_ret, simp)
  next
    case False
    then have n: "(length (gm_keep (\<lambda>k p. k = l \<and> p_SHA256 p = h) (t_pending d)) = 0) = False" by simp
    from False hit have rest: "map_of kept = (map_of (t_pending d))(l := None)"
      using kept_rest [OF wf, of l "\<lambda>p. p_SHA256 p = h"] by (simp add: kept_def)
    have ok': "db_ok ((db_step (db_step d))\<lparr>t_pending := kept\<rparr>)" using ok by (simp add: db_ok_def db_step_def kept_def)
    from False hit have d: "demand (O_ConfirmPending l h now) (verdicts_of d) = (Inr (A_bool True), (verdicts_of d)\<lparr>
        confirmed := (confirmed (verdicts_of d))(l \<mapsto> (h, SourceConfirmed)), refused := (refused (verdicts_of d))(l := None)\<rparr>)"
      by (auto simp: verdicts_of_def simp del: map_of_eq_Some_iff)
    show ?thesis
      by (simp only: t n prod.case if_False kept_def [symmetric] d) (intro wp_stmt, unfold prod.case, intro wp_ret,
        use ok' rest in \<open>simp add: db_ok_def verdicts_of_def db_step_def fun_eq_iff del: map_of_eq_Some_iff\<close>)
  qed
qed

lemma refines_BeginAuthAttempt:
  assumes ok: "db_ok d"
  shows "refines (O_BeginAuthAttempt now) d"
proof (rule tx_cases [OF perform.simps(16) [unfolded BeginAuthAttempt_def Let_def] ok], rule wp_stmt, goal_cases)
  case 1
  obtain f u where b: "budget (verdicts_of d) = (f, u)" by (cases "budget (verdicts_of d)")
  then have r: "(case t_throttle (db_step (db_step d)) of None \<Rightarrow> (0, 0) | Some r \<Rightarrow> r) = (f, u)" by (simp add: verdicts_of_def db_step_def)
  show ?case
  proof (cases "now < u * 1000000000")
    case True
    then show ?thesis by (simp only: r prod.case if_True) (intro wp_fail, simp add: b)
  next
    case False
    then show ?thesis
      by (simp only: r prod.case if_False) (intro wp_stmt, unfold prod.case, intro wp_ret,
        use ok b in \<open>simp add: ledger_defs db_step_def MaxAuthFailures_def AuthLockout_def unix_seconds_def\<close>)
  qed
qed

text \<open>The cached hashes are no verdicts.\<close>

lemma wp_save_rows: "(\<And>d'. db_ok d' \<Longrightarrow> verdicts_of d' = v \<Longrightarrow> sql_wp (k ()) d' E Q) \<Longrightarrow> db_ok d \<Longrightarrow> verdicts_of d = v \<Longrightarrow>
    sql_wp (db_then (save_rows rs n) k) d E Q"
proof (induction rs arbitrary: n d)
  case Nil
  then show ?case by (simp add: sql_wp_def db_then_def db_ret_def)
next
  case (Cons r rs)
  have "db_then (save_rows (r # rs) n) k = (if n \<ge> MaxHashCacheRows then db_then (db_ret ()) k
      else db_then (stmt (\<lambda>d. ((), d\<lparr>t_hash_cache := AList.update (fst (save_row r)) (snd (save_row r)) (t_hash_cache d)\<rparr>))) (\<lambda>_. db_then (save_rows rs (Suc n)) k))"
    by (rule ext) (simp add: db_then_def case_prod_beta split: sum.splits prod.splits)
  moreover have "sql_wp (db_then (db_ret ()) k) d E Q" using Cons.prems by (simp add: sql_wp_def db_then_def db_ret_def)
  moreover have "sql_wp (db_then (stmt (\<lambda>d. ((), d\<lparr>t_hash_cache := AList.update (fst (save_row r)) (snd (save_row r)) (t_hash_cache d)\<rparr>)))
      (\<lambda>_. db_then (save_rows rs (Suc n)) k)) d E Q"
    by (rule wp_stmt, unfold prod.case, rule Cons.IH [OF Cons.prems(1)])
      (use Cons.prems in \<open>simp_all add: db_ok_def verdicts_of_def db_step_def\<close>)
  ultimately show ?case by simp
qed

lemma db_then_ret: "db_then (db_ret x) k = k x"
  by (rule ext) (simp add: db_then_def db_ret_def)

lemma refines_SaveHashCache:
  assumes ok: "db_ok d"
  shows "refines (O_SaveHashCache rows prune) d"
proof (rule tx_cases [OF perform.simps(19) [unfolded SaveHashCache_def] ok])
  have rest: "sql_wp (db_then (stmt (\<lambda>d. ((), d))) (\<lambda>_. db_then (save_rows rows 0) (\<lambda>_. db_ret (True, ())))) d' E
      (\<lambda>(commit, x) d'. if commit then db_ok d' \<and> (Inr A_done, verdicts_of d') = demand (O_SaveHashCache rows prune) (verdicts_of d)
         else (Inr A_done, verdicts_of d) = demand (O_SaveHashCache rows prune) (verdicts_of d))"
    if "db_ok d'" "verdicts_of d' = verdicts_of d" for d' E
    by (rule wp_stmt, unfold prod.case, rule wp_save_rows [where v = "verdicts_of d"]) (use that in \<open>simp_all add: wp_ret\<close>)
  show "sql_wp (db_then (if prune then stmt (\<lambda>d. ((), d\<lparr>t_hash_cache := []\<rparr>)) else db_ret ()) (\<lambda>_. db_then (stmt (\<lambda>d. ((), d))) (\<lambda>_.
     db_then (save_rows rows 0) (\<lambda>_. db_ret (True, ()))))) (db_step d) (\<lambda>e. (Inl e, verdicts_of d) = demand (O_SaveHashCache rows prune) (verdicts_of d))
     (\<lambda>(commit, x) d'. if commit then db_ok d' \<and> (Inr A_done, verdicts_of d') = demand (O_SaveHashCache rows prune) (verdicts_of d)
         else (Inr A_done, verdicts_of d) = demand (O_SaveHashCache rows prune) (verdicts_of d))"
  proof (cases prune)
    case True
    show ?thesis unfolding if_P [OF True] by (rule wp_stmt, unfold prod.case, rule rest)
      (use ok in \<open>simp_all add: db_ok_def verdicts_of_def db_step_def\<close>)
  next
    case False
    show ?thesis unfolding if_not_P [OF False] db_then_ret by (rule rest) (use ok in simp_all)
  qed
qed

text \<open>C16 (refinement). The ledger keeps its promise: every operation, on tables with unique keys, either fails as SQL and
  leaves every verdict as it was, or answers and changes the verdicts as the specification demands: a line is confirmed
  only by recording it, an absent line only by \<open>RecordIfAbsent\<close>, a refused content only while the refusal still names it, a
  grant is used once; the unique keys stay.\<close>

theorem ledger_refines:
  assumes "db_ok d"
  shows "case perform op d of (r, d') \<Rightarrow> db_ok d' \<and>
     (r = Inl Sql \<and> verdicts_of d' = verdicts_of d \<or> (r, verdicts_of d') = demand op (verdicts_of d))"
proof -
  have "refines op d"
    using refines_reads refines_writes refines_deletes refines_Lookup refines_SetEditAuthHash refines_Record refines_RecordIfAbsent
      refines_ConfirmPending refines_BeginAuthAttempt refines_SaveHashCache assms by (cases op) simp_all
  then show ?thesis by (simp add: refines_def)
qed

definition empty_db :: db where
  "empty_db = \<lparr>db_tick = 0, db_faults = (\<lambda>_. False), t_meta = [], t_binaries = [], t_grants = [], t_pending = [], t_hash_cache = [],
     t_edit_auth = None, t_throttle = None\<rparr>"

theorem ledger_refines_witness:
  "case perform (O_ConfirmPending ''/bin/a'' [1] 0) (empty_db\<lparr>t_pending := [(''/bin/a'', \<lparr>p_Line = ''/bin/a'', p_Resolved = [],
      p_SHA256 = [1], p_Resources = [], p_SeenAt = 0\<rparr>)]\<rparr>) of (r, d') \<Rightarrow> r = Inr (A_bool True) \<and> confirmed (verdicts_of d') ''/bin/a'' = Some ([1], SourceConfirmed)"
proof -
  let ?d = "empty_db\<lparr>t_pending := [(''/bin/a'', \<lparr>p_Line = ''/bin/a'', p_Resolved = [], p_SHA256 = [1], p_Resources = [], p_SeenAt = 0\<rparr>)]\<rparr>"
  let ?op = "O_ConfirmPending ''/bin/a'' [1] 0"
  have "db_ok ?d" by (simp add: db_ok_def lined_def empty_db_def)
  from ledger_refines [OF this, of ?op] obtain r d' where p: "perform ?op ?d = (r, d')"
    and x: "r = Inl Sql \<and> verdicts_of d' = verdicts_of ?d \<or> (r, verdicts_of d') = demand ?op (verdicts_of ?d)" by (auto split: prod.splits)
  have "r \<noteq> Inl Sql" using p by (auto simp: ConfirmPending_def answering_def tx_def stmt_def db_then_def db_ret_def put_binary_def sql_delete_def
      gm_keep_def empty_db_def db_step_def)
  moreover have "demand ?op (verdicts_of ?d) = (Inr (A_bool True), (verdicts_of ?d)\<lparr>confirmed := (confirmed (verdicts_of ?d))(''/bin/a'' \<mapsto> ([1], SourceConfirmed)),
      refused := (refused (verdicts_of ?d))(''/bin/a'' := None)\<rparr>)" by (simp add: verdicts_of_def empty_db_def)
  ultimately have "r = Inr (A_bool True)" "confirmed (verdicts_of d') ''/bin/a'' = Some ([1], SourceConfirmed)" using x by auto
  then show ?thesis unfolding p by simp
qed

end
