(* ===== verification/Kernel_Identity.thy ===== *)
theory Kernel_Identity
  imports Guard_State
begin

text \<open>
  The kernel side's view of who runs: the exec stamps and superseded marks of
  \<open>internal/bpf/exe_supersede.h\<close> and the exe identity of \<open>internal/guard/bpf/guard.bpf.c\<close>.

  The maps userspace writes are those of \<open>world\<close>; \<open>kernel\<close> adds the maps only the BPF programs write
  and the fields of \<open>res_config\<close> only they read. A program is a function on \<open>kernel\<close>. A map update
  that can fail (a full map) takes a flag \<open>ok\<close> saying whether it does, so a theorem for every flag
  covers every failure. A missing array cell is the NULL of the lookup.
\<close>

subsection \<open>State\<close>

record exec_stamp =
  es_seq :: u64
  es_start :: u64
  es_tag :: u32

text \<open>The rest of \<open>struct res_config\<close>.\<close>

record res_tree =
  rt_recursive :: bool
  rt_depth :: nat
  rt_root_sbdev :: u64
  rt_move_peer :: u64
  rt_chmod_drop_write :: bool

record kernel =
  maps :: world
  exe_stamps :: "(u32, exec_stamp) gomap"
  trust_code_suspect :: "(u32, u8) gomap"
  guard_tainted_pids :: "(u32, nat) gomap"
  guard_fs_sbdevs :: "(u64, unit) gomap"
  guard_fs_devices :: "(u32, unit) gomap"
  res_trees :: "nat \<Rightarrow> res_tree"
  guard_root_moved :: "(nat, GuardInodeKey) gomap"
  guard_path :: "(string, nat) gomap" \<comment> \<open>watch root to slot\<close>

text \<open>
  A task as the programs read it. \<open>tk_start\<close> is its group leader's start time; \<open>tk_exe\<close> the key of
  the inode of \<open>mm->exe_file\<close>, \<open>None\<close> if the task has no \<open>mm\<close> or a pointer on the way is NULL.
\<close>

record task =
  tk_pid :: u32
  tk_tgid :: u32
  tk_start :: u64
  tk_mm :: bool
  tk_exe :: "GuardInodeKey option"
  tk_in_execve :: bool
  tk_uid :: u32

definition EXE_SEQ_NOW :: nat where "EXE_SEQ_NOW = 0"
definition EXE_SEQ_LOST :: nat where "EXE_SEQ_LOST = 1"

subsection \<open>Superseded images\<close>

definition exe_refused :: "kernel \<Rightarrow> task \<Rightarrow> GuardInodeKey \<Rightarrow> bool" where
  "exe_refused s t exe =
     (case map_of (ExeSuperseded (maps s)) (Real exe) of
        None \<Rightarrow> False
      | Some m \<Rightarrow>
          (case map_of (exe_stamps s) (tk_tgid t) of
             Some st \<Rightarrow> es_start st \<noteq> tk_start t \<or> su_Seq m \<le> es_seq st
           | None \<Rightarrow> (case map_of (ExeSeq (maps s)) EXE_SEQ_LOST of None \<Rightarrow> True | Some lost \<Rightarrow> lost \<noteq> 0)))"

definition exe_is_superseded :: "kernel \<Rightarrow> GuardInodeKey \<Rightarrow> bool" where
  "exe_is_superseded s exe = (map_of (ExeSuperseded (maps s)) (Real exe) \<noteq> None)"

definition exe_stamp_lost :: "u32 \<Rightarrow> kernel \<Rightarrow> kernel" where
  "exe_stamp_lost tgid s =
     (let s' = s\<lparr>exe_stamps := AList.delete tgid (exe_stamps s)\<rparr> in
      case map_of (ExeSeq (maps s)) EXE_SEQ_LOST of
        None \<Rightarrow> s'
      | Some lost \<Rightarrow> s'\<lparr>maps := (maps s)\<lparr>ExeSeq := AList.update EXE_SEQ_LOST (lost + 1) (ExeSeq (maps s))\<rparr>\<rparr>)"

definition exe_stamp_exec :: "bool \<Rightarrow> task \<Rightarrow> kernel \<Rightarrow> kernel" where
  "exe_stamp_exec ok t s =
     (case map_of (ExeSeq (maps s)) EXE_SEQ_NOW of
        None \<Rightarrow> exe_stamp_lost (tk_tgid t) s
      | Some seq \<Rightarrow>
          (let s' = s\<lparr>maps := (maps s)\<lparr>ExeSeq := AList.update EXE_SEQ_NOW (seq + 1) (ExeSeq (maps s))\<rparr>\<rparr>;
               st = \<lparr>es_seq = seq + 1, es_start = tk_start t, es_tag = mcTagNone\<rparr> in
           if ok then s'\<lparr>exe_stamps := AList.update (tk_tgid t) st (exe_stamps s')\<rparr>
           else exe_stamp_lost (tk_tgid t) s'))"

definition exe_stamp_fork :: "bool \<Rightarrow> task \<Rightarrow> task \<Rightarrow> kernel \<Rightarrow> kernel" where
  "exe_stamp_fork ok parent child s =
     (if tk_tgid parent = tk_tgid child then s
      else case map_of (exe_stamps s) (tk_tgid parent) of
        None \<Rightarrow> s\<lparr>exe_stamps := AList.delete (tk_tgid child) (exe_stamps s)\<rparr>
      | Some pst \<Rightarrow>
          (let same = (es_start pst = tk_start parent);
               st = \<lparr>es_seq = (if same then es_seq pst else NOT 0), es_start = tk_start child,
                     es_tag = (if same then es_tag pst else mcTagNone)\<rparr> in
           if ok then s\<lparr>exe_stamps := AList.update (tk_tgid child) st (exe_stamps s)\<rparr>
           else exe_stamp_lost (tk_tgid child) s))"

definition exe_stamp_free :: "task \<Rightarrow> u32 \<Rightarrow> kernel \<Rightarrow> kernel" where
  "exe_stamp_free t tgid s =
     (case map_of (exe_stamps s) tgid of
        None \<Rightarrow> s
      | Some st \<Rightarrow> if es_start st = tk_start t then s\<lparr>exe_stamps := AList.delete tgid (exe_stamps s)\<rparr> else s)"

definition exe_seq_now :: "kernel \<Rightarrow> u64" where
  "exe_seq_now s = (case map_of (ExeSeq (maps s)) EXE_SEQ_NOW of None \<Rightarrow> 0 | Some seq \<Rightarrow> seq)"

text \<open>
  The result is true when the mark could not be recorded. Programs run one after the other here, so nobody writes the row
  between the lookup and the update, and the update's \<open>BPF_NOEXIST\<close> never finds one.
\<close>

definition exe_note_supersede :: "bool \<Rightarrow> GuardInodeKey \<Rightarrow> u64 \<Rightarrow> kernel \<Rightarrow> bool \<times> kernel" where
  "exe_note_supersede ok k freed s =
     (let M = ExeSuperseded (maps s) in
      case map_of M k of
        Some cur \<Rightarrow> (False, s\<lparr>maps := (maps s)\<lparr>ExeSuperseded := AList.update k (cur\<lparr>su_Freed := freed\<rparr>) M\<rparr>\<rparr>)
      | None \<Rightarrow>
          if ok then (False, s\<lparr>maps := (maps s)\<lparr>ExeSuperseded :=
            AList.update k \<lparr>su_Seq = exe_seq_now s, su_Freed = freed\<rparr> M\<rparr>\<rparr>)
          else (True, s))"

definition exe_note_freed :: "bool \<Rightarrow> GuardInodeKey \<Rightarrow> bool \<Rightarrow> kernel \<Rightarrow> kernel" where
  "exe_note_freed ok k is_member s =
     (if map_of (ExeSuperseded (maps s)) k \<noteq> None \<or> is_member then snd (exe_note_supersede ok k 1 s) else s)"

subsection \<open>The identity of a process\<close>

definition exe_tag_bits :: "kernel \<Rightarrow> task \<Rightarrow> GuardInodeKey \<Rightarrow> u64" where
  "exe_tag_bits s t exe =
     (if map_of (GuardMulticall (maps s)) exe = None then 0
      else push_bit 32 (ucast
        (case map_of (exe_stamps s) (tk_tgid t) of
           Some st \<Rightarrow> if es_tag st \<noteq> 0 \<and> es_start st = tk_start t then es_tag st else mcTagNone
         | None \<Rightarrow> mcTagNone)))"

definition get_task_exe_inode :: "kernel \<Rightarrow> task \<Rightarrow> GuardInodeKey option" where
  "get_task_exe_inode s t =
     (if tk_mm t then map_option (\<lambda>k. k\<lparr>Dev := Dev k OR exe_tag_bits s t k\<rparr>) (tk_exe t) else None)"

subsection \<open>Naming the applet of a multicall\<close>

text \<open>The last component of a path of \<open>n - 1\<close> bytes, padded with zeros to \<open>MC_NAME\<close> bytes.\<close>

definition MAX_PATH :: nat where "MAX_PATH = 256"

fun slash_back :: "nat \<Rightarrow> nat \<Rightarrow> string \<Rightarrow> nat option" where
  "slash_back 0 len s = None"
| "slash_back (Suc k) len s =
     (if len = 0 then Some 0 else if s ! (len - 1) = CHR ''/'' then Some len else slash_back k (len - 1) s)"

definition mc_basename :: "string \<Rightarrow> string option" where
  "mc_basename s =
     (if s = [] \<or> length s + 1 \<ge> MAX_PATH then None
      else case slash_back MC_NAME (length s) s of
        None \<Rightarrow> None
      | Some start \<Rightarrow>
          (let name = List.drop start s in
           if name = [] \<or> length name \<ge> MC_NAME then None
           else Some (name @ replicate (MC_NAME - length name) (CHR 0x00))))"

text \<open>
  \<open>filename\<close> is \<open>bprm->filename\<close> (\<open>None\<close> when NULL or not \<open>bprm->interp\<close>), \<open>argv0\<close> the string at
  \<open>mm->arg_start\<close> (\<open>None\<close> without an \<open>mm\<close> or when unreadable).
\<close>

definition guard_exec_applet :: "task \<Rightarrow> GuardInodeKey \<Rightarrow> string option \<Rightarrow> string option \<Rightarrow> kernel \<Rightarrow> kernel" where
  "guard_exec_applet t real filename argv0 s =
     (if map_of (GuardMulticall (maps s)) real = None then s
      else case map_of (exe_stamps s) (tk_tgid t) of
        None \<Rightarrow> s
      | Some st \<Rightarrow>
          if es_start st \<noteq> tk_start t then s
          else case Option.bind filename mc_basename of
            None \<Rightarrow> s
          | Some a \<Rightarrow>
              if Option.bind argv0 mc_basename \<noteq> Some a then s
              else case map_of (GuardMulticallNames (maps s)) (real, a) of
                None \<Rightarrow> s
              | Some tag \<Rightarrow> s\<lparr>exe_stamps := AList.update (tk_tgid t) (st\<lparr>es_tag := tag\<rparr>) (exe_stamps s)\<rparr>)"

end
