(* ===== verification/Kernel_Gate.thy ===== *)
theory Kernel_Gate
  imports Kernel_Identity
begin

text \<open>
  The decisions of \<open>internal/guard/bpf/guard.bpf.c\<close>: which accesses are guarded, whether a guarded
  access is allowed, and which processes are tainted by what they read. The hooks are in
  \<open>Kernel_Hooks\<close>.

  A dentry is the list of itself and its ancestors up to the root of its filesystem (whose parent is
  itself, so the list ends there); the empty list is the NULL dentry. The paths and names a report
  carries for its reader are left out. A returned \<open>True\<close> is \<open>-EPERM\<close>.
\<close>

subsection \<open>Kernel objects\<close>

text \<open>\<open>ki_id\<close> is the address; \<open>ki_sb\<close> the device of the superblock, \<open>ki_rdev\<close> that of a block special
  file.\<close>

record kinode =
  ki_id :: nat
  ki_key :: GuardInodeKey
  ki_sb :: "u64 option"
  ki_btrfs :: bool
  ki_rdev :: "u32 option"
  ki_mode :: u32
  ki_uid :: u32
  ki_nlink :: nat

record dentry =
  de_name :: string
  de_inode :: "kinode option"

definition d_inode :: "dentry list \<Rightarrow> kinode option" where
  "d_inode ds = (case ds of [] \<Rightarrow> None | d # _ \<Rightarrow> de_inode d)"

definition same_inode :: "kinode option \<Rightarrow> kinode option \<Rightarrow> bool" where
  "same_inode a b = (map_option ki_id a = map_option ki_id b)"

definition sb_dev :: "kinode \<Rightarrow> u64" where
  "sb_dev i = (case ki_sb i of None \<Rightarrow> 0 | Some d \<Rightarrow> d)"

definition S_IFMT :: u32 where "S_IFMT = 0xf000"
definition S_IFDIR :: u32 where "S_IFDIR = 0x4000"
definition S_IFREG :: u32 where "S_IFREG = 0x8000"
definition S_IALLUGO :: u32 where "S_IALLUGO = 0xfff"
definition S_IWUGO :: u32 where "S_IWUGO = 0x92"

definition is_dir :: "kinode \<Rightarrow> bool" where "is_dir i = (ki_mode i AND S_IFMT = S_IFDIR)"
definition is_reg :: "kinode \<Rightarrow> bool" where "is_reg i = (ki_mode i AND S_IFMT = S_IFREG)"

subsection \<open>Resources\<close>

definition GUARD_RES_NONE :: nat where "GUARD_RES_NONE = 0xffffffff"
definition ANCESTOR_WALK :: nat where "ANCESTOR_WALK = 16"

definition res_cfg :: "kernel \<Rightarrow> nat \<Rightarrow> (GuardResConfig \<times> res_tree) option" where
  "res_cfg s res =
     (case map_of (ResConfigs (maps s)) res of
        None \<Rightarrow> None
      | Some c \<Rightarrow> if rc_Active c then Some (c, res_trees s res) else None)"

definition read_inode_guard :: "kernel \<Rightarrow> kinode option \<Rightarrow> nat option" where
  "read_inode_guard s i = (case i of None \<Rightarrow> None | Some n \<Rightarrow> map_of (GuardInodes (maps s)) (ki_key n))"

definition should_add_new_dir :: "kernel \<Rightarrow> nat \<Rightarrow> bool" where
  "should_add_new_dir s res = (case res_cfg s res of None \<Rightarrow> False | Some (_, t) \<Rightarrow> rt_recursive t)"

definition is_readonly_mode :: "kernel \<Rightarrow> nat \<Rightarrow> bool" where
  "is_readonly_mode s res = (case res_cfg s res of None \<Rightarrow> False | Some (c, _) \<Rightarrow> rc_Mode c = ModeReadOnly)"

definition inode_is_watch_root :: "kernel \<Rightarrow> kinode option \<Rightarrow> nat option" where
  "inode_is_watch_root s i =
     (case i of None \<Rightarrow> None
      | Some n \<Rightarrow>
          (case map_of (GuardInodes (maps s)) (ki_key n) of
             None \<Rightarrow> None
           | Some res \<Rightarrow>
               (case res_cfg s res of None \<Rightarrow> None
                | Some (c, _) \<Rightarrow> if rc_Root c = ki_key n then Some res else None)))"

definition is_guarded_block_device :: "kernel \<Rightarrow> kinode option \<Rightarrow> bool" where
  "is_guarded_block_device s i =
     (case Option.bind i ki_rdev of None \<Rightarrow> False | Some d \<Rightarrow> map_of (guard_fs_devices s) d \<noteq> None)"

subsection \<open>Which accesses are guarded\<close>

text \<open>The walk to the watch root: \<open>ds\<close> are the dentries above the one reached so far.\<close>

fun root_walk :: "u64 \<Rightarrow> kinode option \<Rightarrow> nat \<Rightarrow> dentry list \<Rightarrow> bool" where
  "root_walk want file 0 ds = (ds \<noteq> [])"
| "root_walk want file (Suc n) [] = False"
| "root_walk want file (Suc n) (d # ds) =
     (case de_inode d of
        None \<Rightarrow> False
      | Some a \<Rightarrow>
          if same_inode (Some a) file then False
          else if Ino (ki_key a) = want then True else root_walk want file n ds)"

definition root_in_chain :: "kernel \<Rightarrow> dentry list \<Rightarrow> kinode option \<Rightarrow> nat \<Rightarrow> nat \<Rightarrow> bool" where
  "root_in_chain s ds file bound res =
     (case res_cfg s res of
        None \<Rightarrow> False
      | Some (c, t) \<Rightarrow>
          if Ino (rc_Root c) = 0 \<or> rt_root_sbdev t = 0 then True
          else
            (let on_dev = (case file of None \<Rightarrow> False | Some f \<Rightarrow> sb_dev f = rt_root_sbdev t) in
             if on_dev \<and> map_option ki_key file = Some (rc_Root c) then True
             else if file \<noteq> None \<and> \<not> on_dev then False
             else ds \<noteq> [] \<and> root_walk (Ino (rc_Root c)) file bound (tl ds)))"

definition guarded_map_hit :: "kernel \<Rightarrow> dentry list \<Rightarrow> kinode option \<Rightarrow> nat \<Rightarrow> nat option" where
  "guarded_map_hit s ds i bound =
     (if ds = [] then None
      else case read_inode_guard s i of
        None \<Rightarrow> None
      | Some res \<Rightarrow> if root_in_chain s ds i bound res then Some res else None)"

definition sb_unguarded :: "kernel \<Rightarrow> kinode option \<Rightarrow> bool" where
  "sb_unguarded s i = (case Option.bind i ki_sb of None \<Rightarrow> False | Some d \<Rightarrow> map_of (guard_fs_sbdevs s) d = None)"

definition off_guarded_fs :: "kernel \<Rightarrow> dentry list \<Rightarrow> kinode option \<Rightarrow> bool" where
  "off_guarded_fs s ds file =
     (ds \<noteq> [] \<and> sb_unguarded s file \<and> (same_inode (d_inode ds) file \<or> sb_unguarded s (d_inode ds)))"

text \<open>The farthest mapped ancestor within the bound: how many steps away, its inode number and owner.\<close>

fun farthest :: "kernel \<Rightarrow> kinode \<Rightarrow> nat \<Rightarrow> nat \<Rightarrow> dentry list \<Rightarrow> (nat \<times> u64 \<times> nat) option \<Rightarrow> (nat \<times> u64 \<times> nat) option" where
  "farthest s parent i 0 ds found = found"
| "farthest s parent i (Suc n) [] found = found"
| "farthest s parent i (Suc n) (d # ds) found =
     (case de_inode d of
        None \<Rightarrow> found
      | Some a \<Rightarrow>
          if ki_id a = ki_id parent then found
          else farthest s parent (Suc i) n ds
            (case read_inode_guard s (Some a) of None \<Rightarrow> found | Some res \<Rightarrow> Some (Suc i, Ino (ki_key a), res)))"

definition guarded_ancestor_within_limit :: "kernel \<Rightarrow> dentry list \<Rightarrow> nat \<Rightarrow> nat option" where
  "guarded_ancestor_within_limit s parent bound =
     (case d_inode parent of
        None \<Rightarrow> None
      | Some p \<Rightarrow>
          if sb_unguarded s (Some p) then None
          else case farthest s p 0 bound (tl parent) None of
            None \<Rightarrow> None
          | Some (steps, ino, res) \<Rightarrow>
              (case res_cfg s res of
                 None \<Rightarrow> None
               | Some (c, t) \<Rightarrow>
                   if \<not> rt_recursive t then None
                   else if rt_depth t > 0 \<and> steps \<ge> rt_depth t then None
                   else if ino \<noteq> Ino (rc_Root c) then None
                   else Some res))"

definition is_guarded_access :: "kernel \<Rightarrow> dentry list \<Rightarrow> kinode option \<Rightarrow> nat option" where
  "is_guarded_access s ds file =
     (let rooted = (\<lambda>res. if root_in_chain s ds file 32 res then Some res else None) in
      case read_inode_guard s file of
        Some res \<Rightarrow> rooted res
      | None \<Rightarrow>
          if length ds < 2 then None
          else
            (let p = d_inode (tl ds) in
             case (if p = None \<or> same_inode p file then None else read_inode_guard s p) of
               Some res \<Rightarrow> rooted res
             | None \<Rightarrow> guarded_ancestor_within_limit s (tl ds) ANCESTOR_WALK))"

subsection \<open>Runtime discovery\<close>

definition add_inode_to_guard :: "bool \<Rightarrow> kinode option \<Rightarrow> nat \<Rightarrow> kernel \<Rightarrow> kernel" where
  "add_inode_to_guard ok i res s =
     (case i of None \<Rightarrow> s
      | Some n \<Rightarrow> if ok then s\<lparr>maps := (maps s)\<lparr>GuardInodes := AList.update (ki_key n) res (GuardInodes (maps s))\<rparr>\<rparr> else s)"

definition discover_guarded_parent :: "bool \<Rightarrow> dentry list \<Rightarrow> kernel \<Rightarrow> kernel" where
  "discover_guarded_parent ok ds s =
     (if length ds < 2 then s
      else case d_inode (tl ds) of
        None \<Rightarrow> s
      | Some p \<Rightarrow>
          if read_inode_guard s (Some p) \<noteq> None then s
          else case farthest s p 0 ANCESTOR_WALK (tl (tl ds)) None of
            None \<Rightarrow> s
          | Some (steps, _, res) \<Rightarrow>
              (case res_cfg s res of
                 None \<Rightarrow> s
               | Some (c, t) \<Rightarrow>
                   if \<not> rt_recursive t \<or> rt_depth t > 0 \<and> steps \<ge> rt_depth t then s
                   else if root_in_chain s (tl ds) (Some p) 32 res then add_inode_to_guard ok (Some p) res s
                   else s))"

definition note_root_moved1 :: "kinode option \<Rightarrow> kernel \<Rightarrow> kernel" where
  "note_root_moved1 i s =
     (case (i, inode_is_watch_root s i) of
        (Some n, Some res) \<Rightarrow> s\<lparr>guard_root_moved := AList.update res (ki_key n) (guard_root_moved s)\<rparr>
      | _ \<Rightarrow> s)"

definition note_root_moved :: "kinode option \<Rightarrow> kinode option \<Rightarrow> kernel \<Rightarrow> kernel" where
  "note_root_moved src victim s = note_root_moved1 victim (note_root_moved1 src s)"

definition drop_row :: "kinode option \<Rightarrow> kernel \<Rightarrow> kernel" where
  "drop_row i s =
     (case i of None \<Rightarrow> s
      | Some n \<Rightarrow> s\<lparr>maps := (maps s)\<lparr>GuardInodes := AList.delete (ki_key n) (GuardInodes (maps s))\<rparr>\<rparr>)"

definition evict_inode_from_guard :: "kinode option \<Rightarrow> kernel \<Rightarrow> kernel" where
  "evict_inode_from_guard i s = (if i = None then s else drop_row i (note_root_moved i None s))"

subsection \<open>Taint\<close>

definition successor_is :: "kernel \<Rightarrow> nat \<Rightarrow> nat \<Rightarrow> bool" where
  "successor_is s slot other = (case map_of (GuardTaintSuccessor (maps s)) slot of None \<Rightarrow> False | Some n \<Rightarrow> n \<noteq> 0 \<and> n = other)"

definition taint_merge :: "kernel \<Rightarrow> nat \<Rightarrow> nat \<Rightarrow> nat" where
  "taint_merge s cur res =
     (if successor_is s cur res then cur
      else if successor_is s res cur then res
      else if map_of (GuardTaintMembers (maps s)) (cur, res) \<noteq> None then cur
      else if map_of (GuardTaintMembers (maps s)) (res, cur) \<noteq> None then res
      else resGlobal)"

definition set_taint :: "bool \<Rightarrow> u32 \<Rightarrow> nat \<Rightarrow> kernel \<Rightarrow> kernel" where
  "set_taint ok tgid v s = (if ok then s\<lparr>guard_tainted_pids := AList.update tgid v (guard_tainted_pids s)\<rparr> else s)"

definition mark_tainted :: "bool \<Rightarrow> task \<Rightarrow> nat \<Rightarrow> kernel \<Rightarrow> kernel" where
  "mark_tainted ok t res s =
     (case map_of (guard_tainted_pids s) (tk_tgid t) of
        None \<Rightarrow> set_taint ok (tk_tgid t) res s
      | Some c \<Rightarrow>
          if c = res then s
          else (let v = taint_merge s c res in if v = c then s else set_taint ok (tk_tgid t) v s))"

text \<open>The number a directory under \<open>/proc\<close> is named by; at most twelve digits are looked at.\<close>

fun parse_pid :: "nat \<Rightarrow> string \<Rightarrow> u32 \<Rightarrow> u32 option" where
  "parse_pid 0 cs pid = Some pid"
| "parse_pid (Suc n) [] pid = Some pid"
| "parse_pid (Suc n) (c # cs) pid =
     (if 48 \<le> (of_char c :: nat) \<and> of_char c \<le> (57 :: nat) then parse_pid n cs (pid * 10 + (of_char c - 48))
      else if c = CHR 0x00 then Some pid else None)"

definition is_proc_mem_of_tainted :: "kernel \<Rightarrow> dentry list \<Rightarrow> (u32 \<times> nat) option" where
  "is_proc_mem_of_tainted s ds =
     (case ds of
        d # p # _ \<Rightarrow>
          if de_name d \<noteq> ''mem'' then None
          else (case parse_pid 12 (de_name p) 0 of
             None \<Rightarrow> None
           | Some pid \<Rightarrow> if pid = 0 then None else map_option (Pair pid) (map_of (guard_tainted_pids s) pid))
      | _ \<Rightarrow> None)"

subsection \<open>The decision\<close>

abbreviation (input) EVENT_OPEN :: nat where "EVENT_OPEN \<equiv> 0"
abbreviation (input) EVENT_READ :: nat where "EVENT_READ \<equiv> 1"
abbreviation (input) EVENT_WRITE :: nat where "EVENT_WRITE \<equiv> 2"
abbreviation (input) EVENT_DELETE :: nat where "EVENT_DELETE \<equiv> 3"
abbreviation (input) EVENT_RENAME :: nat where "EVENT_RENAME \<equiv> 4"
abbreviation (input) EVENT_SYMLINK :: nat where "EVENT_SYMLINK \<equiv> 5"
abbreviation (input) EVENT_HARDLINK :: nat where "EVENT_HARDLINK \<equiv> 6"
abbreviation (input) EVENT_MKDIR :: nat where "EVENT_MKDIR \<equiv> 7"
abbreviation (input) EVENT_MMAP :: nat where "EVENT_MMAP \<equiv> 8"
abbreviation (input) EVENT_ATTR :: nat where "EVENT_ATTR \<equiv> 9"
abbreviation (input) EVENT_STAT :: nat where "EVENT_STAT \<equiv> 10"
abbreviation (input) EVENT_MKNOD :: nat where "EVENT_MKNOD \<equiv> 11"

abbreviation (input) GUARD_REASON_NONE :: u32 where "GUARD_REASON_NONE \<equiv> 0"
abbreviation (input) GUARD_REASON_RAW_DEVICE :: u32 where "GUARD_REASON_RAW_DEVICE \<equiv> 1"
abbreviation (input) GUARD_REASON_PTRACE :: u32 where "GUARD_REASON_PTRACE \<equiv> 2"
abbreviation (input) GUARD_REASON_TRACED_EXEC :: u32 where "GUARD_REASON_TRACED_EXEC \<equiv> 3"
abbreviation (input) GUARD_REASON_PROC_MEM :: u32 where "GUARD_REASON_PROC_MEM \<equiv> 4"
abbreviation (input) GUARD_REASON_BTRFS_IOCTL :: u32 where "GUARD_REASON_BTRFS_IOCTL \<equiv> 5"

record guard_event =
  ev_type :: nat
  ev_blocked :: bool
  ev_reason :: u32
  ev_res :: nat
  ev_exe :: GuardInodeKey

text \<open>The answer of a program: whether it denies, and what it puts in the ring buffer.\<close>

type_synonym answer = "bool \<times> guard_event option"

definition pass :: answer where "pass = (False, None)"

definition no_key :: GuardInodeKey where "no_key = \<lparr>Dev = 0, Ino = 0\<rparr>"

record emit_args =
  ea_type :: nat
  ea_target :: "kinode option" \<comment> \<open>the inode of the dentry accessed\<close>
  ea_exec_open :: bool
  ea_quiet_allow :: bool
  ea_write_intent :: bool
  ea_reason :: u32
  ea_res :: nat

definition event_is_read_class :: "nat \<Rightarrow> bool \<Rightarrow> bool" where
  "event_is_read_class type write_intent =
     (type = EVENT_READ \<or> type = EVENT_STAT \<or> (type = EVENT_OPEN \<or> type = EVENT_MMAP) \<and> \<not> write_intent)"

definition is_allow_action :: "task \<Rightarrow> u8 option \<Rightarrow> bool" where
  "is_allow_action t action =
     (case action of None \<Rightarrow> False
      | Some a \<Rightarrow> if a = GUARD_ALLOW then True else if a = GUARD_ALLOW_ROOT then tk_uid t = 0 else False)"

text \<open>A refused image looks its row up in a slot no resource has.\<close>

definition slot_unless :: "bool \<Rightarrow> nat \<Rightarrow> nat" where
  "slot_unless refused res = (if refused then GUARD_RES_NONE else res)"

definition caller_row :: "kernel \<Rightarrow> task \<Rightarrow> nat \<Rightarrow> rkey \<times> u8 option" where
  "caller_row s t res =
     (case get_task_exe_inode s t of
        None \<Rightarrow> ((res, no_key), None)
      | Some k \<Rightarrow>
          (let ik = (slot_unless (exe_refused s t k) res, k) in (ik, map_of (GuardExeActions (maps s)) ik)))"

text \<open>The whitelist branch: blocked, the reason, and the row that decided.\<close>

definition whitelist_branch :: "kernel \<Rightarrow> task \<Rightarrow> emit_args \<Rightarrow> rkey \<Rightarrow> u8 option \<Rightarrow> bool \<times> u32 \<times> rkey" where
  "whitelist_branch s t a ik action =
     (let w = maps s;
          why = (if action = Some GUARD_ALLOW then map_of (trust_code_suspect s) (tk_tgid t) else None);
          blocked = (\<not> is_allow_action t action \<or> why \<noteq> None);
          reason = (case why of None \<Rightarrow> ea_reason a | Some v \<Rightarrow> ea_reason a OR push_bit 8 (ucast v));
          attributed = (blocked \<and> (ea_type a = EVENT_OPEN \<and> ea_exec_open a \<or> tk_in_execve t));
          (blocked', reason', ik') =
            (case (if attributed then ea_target a else None) of
               None \<Rightarrow> (blocked, reason, ik)
             | Some n \<Rightarrow>
                 (let tk = (slot_unless (exe_is_superseded s (ki_key n)) (ea_res a), ki_key n) in
                  if is_allow_action t (map_of (GuardExeActions w) tk) then (False, reason AND 0xff, tk)
                  else (blocked, reason, ik)));
          masked = (case map_of (GuardExeEvents w) ik' of None \<Rightarrow> False | Some m \<Rightarrow> ea_type a < 32 \<and> \<not> bit m (ea_type a))
      in (blocked' \<or> masked, reason', ik'))"

definition check_and_emit_args :: "kernel \<Rightarrow> task \<Rightarrow> emit_args \<Rightarrow> answer" where
  "check_and_emit_args s t a =
     (case res_cfg s (ea_res a) of
        None \<Rightarrow> (True, None)
      | Some (c, _) \<Rightarrow>
          (let w = maps s;
               (ik, action) = (if tk_mm t then caller_row s t (ea_res a) else ((0, no_key), None));
               (blocked, reason, ik', quiet) =
                 (if \<not> tk_mm t then (True, ea_reason a, ik, ea_quiet_allow a)
                  else case rc_Mode c of
                    ModeBlacklist \<Rightarrow> (action = Some GUARD_BLOCK, ea_reason a, ik, ea_quiet_allow a)
                  | ModeReadOnly \<Rightarrow>
                      if event_is_read_class (ea_type a) (ea_write_intent a) then (False, ea_reason a, ik, True)
                      else (\<not> is_allow_action t action, ea_reason a, ik, ea_quiet_allow a)
                  | ModeWhitelist \<Rightarrow>
                      (case whitelist_branch s t a ik action of (b, r, k) \<Rightarrow> (b, r, k, ea_quiet_allow a)));
               muted = (case map_of (GuardQuietAllow w) (ea_res a) of None \<Rightarrow> False | Some q \<Rightarrow> q \<noteq> 0)
           in if \<not> blocked \<and> (quiet \<or> muted) then pass
              else (blocked, Some \<lparr>ev_type = ea_type a, ev_blocked = blocked, ev_reason = reason, ev_res = ea_res a, ev_exe = snd ik'\<rparr>)))"

text \<open>The common call: no write intent, no special reason.\<close>

definition check_and_emit :: "kernel \<Rightarrow> task \<Rightarrow> nat \<Rightarrow> dentry list \<Rightarrow> nat \<Rightarrow> answer" where
  "check_and_emit s t type ds res = check_and_emit_args s t
     \<lparr>ea_type = type, ea_target = d_inode ds, ea_exec_open = False, ea_quiet_allow = False,
      ea_write_intent = False, ea_reason = GUARD_REASON_NONE, ea_res = res\<rparr>"

subsection \<open>Process gates\<close>

definition PTRACE_MODE_ATTACH :: u32 where "PTRACE_MODE_ATTACH = 2"
definition PTRACE_MODE_NOAUDIT :: u32 where "PTRACE_MODE_NOAUDIT = 4"

definition emit_process_denial :: "u32 \<Rightarrow> nat \<Rightarrow> u32 \<Rightarrow> nat \<Rightarrow> answer" where
  "emit_process_denial reason type mode res =
     (True, if mode AND PTRACE_MODE_NOAUDIT \<noteq> 0 then None
            else Some \<lparr>ev_type = type, ev_blocked = True, ev_reason = reason, ev_res = res, ev_exe = no_key\<rparr>)"

definition is_inspector :: "kernel \<Rightarrow> GuardInodeKey \<Rightarrow> bool" where
  "is_inspector s exe = (map_of (GuardInspectors (maps s)) exe \<noteq> None)"

definition current_is_inspector :: "kernel \<Rightarrow> task \<Rightarrow> bool" where
  "current_is_inspector s t =
     (case get_task_exe_inode s t of
        None \<Rightarrow> False
      | Some k \<Rightarrow> is_inspector s k \<and> map_of (trust_code_suspect s) (tk_tgid t) = None \<and> \<not> exe_refused s t k)"

end
