(* ===== verification/Kernel_Hooks.thy ===== *)
theory Kernel_Hooks
  imports Kernel_Gate
begin

text \<open>
  The programs of \<open>internal/guard/bpf/guard.bpf.c\<close>, one definition per hook: those that open and use
  files, those that change names and attributes, those that watch over a process, and those that keep
  the books on exec, fork, exit and freed inodes. \<open>t\<close> is the current task; a program that only
  decides returns an \<open>answer\<close>, one that also writes maps the new state with it.
\<close>

definition or_else :: "'a option \<Rightarrow> 'a option \<Rightarrow> 'a option" where
  "or_else a b = (case a of None \<Rightarrow> b | Some x \<Rightarrow> Some x)"

text \<open>The directory a path hook is given, unless it is the file itself.\<close>

definition other_dir_hit :: "kernel \<Rightarrow> dentry list \<Rightarrow> kinode option \<Rightarrow> nat \<Rightarrow> nat option" where
  "other_dir_hit s dir i bound =
     (if d_inode dir = None \<or> same_inode (d_inode dir) i then None else guarded_map_hit s dir (d_inode dir) bound)"

definition decide :: "kernel \<Rightarrow> task \<Rightarrow> nat \<Rightarrow> dentry list \<Rightarrow> nat option \<Rightarrow> answer" where
  "decide s t type ds res = (case res of None \<Rightarrow> pass | Some r \<Rightarrow> check_and_emit s t type ds r)"

subsection \<open>Files\<close>

record open_file =
  f_dentry :: "dentry list"
  f_inode :: "kinode option"
  f_exec :: bool \<comment> \<open>\<open>__FMODE_EXEC\<close>\<close>
  f_write :: bool \<comment> \<open>\<open>FMODE_WRITE\<close>\<close>

text \<open>Decide on content of \<open>res\<close>; a process let through holds it from here on.\<close>

definition use_content :: "bool \<Rightarrow> task \<Rightarrow> emit_args \<Rightarrow> kernel \<Rightarrow> answer \<times> kernel" where
  "use_content ok t a s =
     (let r = check_and_emit_args s t a in
      (r, if \<not> fst r \<and> \<not> is_readonly_mode s (ea_res a) then mark_tainted ok t (ea_res a) s else s))"

definition guard_file_open :: "bool \<Rightarrow> bool \<Rightarrow> task \<Rightarrow> open_file \<Rightarrow> kernel \<Rightarrow> answer \<times> kernel" where
  "guard_file_open okI okT t f s =
     (let ds = f_dentry f in
      if ds = [] then (pass, s)
      else case is_proc_mem_of_tainted s ds of
        Some (_, mem_res) \<Rightarrow> (emit_process_denial GUARD_REASON_PROC_MEM EVENT_OPEN PTRACE_MODE_ATTACH mem_res, s)
      | None \<Rightarrow>
          (let s1 = discover_guarded_parent okI ds s in
           case is_guarded_access s1 ds (f_inode f) of
             Some res \<Rightarrow> use_content okT t
               \<lparr>ea_type = EVENT_OPEN, ea_target = d_inode ds, ea_exec_open = f_exec f, ea_quiet_allow = False,
                ea_write_intent = f_write f, ea_reason = GUARD_REASON_NONE, ea_res = res\<rparr> s1
           | None \<Rightarrow>
               if is_guarded_block_device s1 (f_inode f)
               then (check_and_emit_args s1 t
                 \<lparr>ea_type = EVENT_OPEN, ea_target = d_inode ds, ea_exec_open = False, ea_quiet_allow = False,
                  ea_write_intent = False, ea_reason = GUARD_REASON_RAW_DEVICE, ea_res = resGlobal\<rparr>, s1)
               else (pass, s1)))"

definition is_btrfs_copy_ioctl :: "u32 \<Rightarrow> bool" where
  "is_btrfs_copy_ioctl cmd =
     (drop_bit 8 cmd AND 0xff = 0x94 \<and> (let nr = cmd AND 0xff in nr = 1 \<or> nr = 17 \<or> nr = 23 \<or> nr = 38))"

definition btrfs_copy_gate :: "task \<Rightarrow> open_file \<Rightarrow> u32 \<Rightarrow> kernel \<Rightarrow> answer" where
  "btrfs_copy_gate t f cmd s =
     (if \<not> is_btrfs_copy_ioctl cmd then pass
      else case f_inode f of
        None \<Rightarrow> pass
      | Some i \<Rightarrow>
          if ki_sb i = None \<or> \<not> ki_btrfs i \<or> map_of (guard_fs_sbdevs s) (sb_dev i) = None then pass
          else check_and_emit_args s t
            \<lparr>ea_type = EVENT_READ, ea_target = d_inode (f_dentry f), ea_exec_open = False, ea_quiet_allow = False,
             ea_write_intent = False, ea_reason = GUARD_REASON_BTRFS_IOCTL, ea_res = resGlobal\<rparr>)"

definition guard_mmap_file :: "bool \<Rightarrow> task \<Rightarrow> open_file \<Rightarrow> bool \<Rightarrow> bool \<Rightarrow> kernel \<Rightarrow> answer \<times> kernel" where
  "guard_mmap_file okT t f prot_write map_shared s =
     (let ds = f_dentry f in
      if ds = [] \<or> off_guarded_fs s ds (f_inode f) then (pass, s)
      else case is_guarded_access s ds (f_inode f) of
        None \<Rightarrow> (pass, s)
      | Some res \<Rightarrow> use_content okT t
          \<lparr>ea_type = EVENT_MMAP, ea_target = d_inode ds, ea_exec_open = False, ea_quiet_allow = False,
           ea_write_intent = (prot_write \<and> map_shared), ea_reason = GUARD_REASON_NONE, ea_res = res\<rparr> s)"

text \<open>A read or write through an open file, and \<open>ftruncate\<close>.\<close>

definition use_open_file :: "bool \<Rightarrow> task \<Rightarrow> open_file \<Rightarrow> nat \<Rightarrow> kernel \<Rightarrow> answer \<times> kernel" where
  "use_open_file okT t f type s =
     (let ds = f_dentry f in
      if off_guarded_fs s ds (f_inode f) then (pass, s)
      else case is_guarded_access s ds (f_inode f) of
        None \<Rightarrow> (pass, s)
      | Some res \<Rightarrow> use_content okT t
          \<lparr>ea_type = type, ea_target = d_inode ds, ea_exec_open = False, ea_quiet_allow = False,
           ea_write_intent = False, ea_reason = GUARD_REASON_NONE, ea_res = res\<rparr> s)"

definition guard_file_permission :: "bool \<Rightarrow> task \<Rightarrow> open_file \<Rightarrow> bool \<Rightarrow> kernel \<Rightarrow> answer \<times> kernel" where
  "guard_file_permission okT t f may_write s =
     (if f_dentry f = [] then (pass, s)
      else case is_proc_mem_of_tainted s (f_dentry f) of
        Some (_, mem_res) \<Rightarrow> (emit_process_denial GUARD_REASON_PROC_MEM EVENT_READ PTRACE_MODE_ATTACH mem_res, s)
      | None \<Rightarrow> use_open_file okT t f (if may_write then EVENT_WRITE else EVENT_READ) s)"

definition guard_file_truncate :: "bool \<Rightarrow> task \<Rightarrow> open_file \<Rightarrow> kernel \<Rightarrow> answer \<times> kernel" where
  "guard_file_truncate okT t f s = (if f_dentry f = [] then (pass, s) else use_open_file okT t f EVENT_WRITE s)"

subsection \<open>Names\<close>

definition guard_path_unlink :: "task \<Rightarrow> dentry list \<Rightarrow> dentry list \<Rightarrow> kernel \<Rightarrow> answer \<times> kernel" where
  "guard_path_unlink t parent ds s =
     (if ds = [] then (pass, s)
      else
        (let i = d_inode ds;
             was_guarded = (read_inode_guard s i \<noteq> None);
             nlink = (case i of None \<Rightarrow> 0 | Some n \<Rightarrow> ki_nlink n);
             res = or_else (guarded_map_hit s ds i 16)
                     (or_else (other_dir_hit s parent i 12) (guarded_ancestor_within_limit s parent ANCESTOR_WALK));
             r = decide s t EVENT_DELETE ds res
         in (r, if \<not> fst r \<and> was_guarded \<and> nlink \<le> 1 then evict_inode_from_guard i s else s)))"

definition xres_judge :: "nat \<Rightarrow> nat option \<Rightarrow> nat" where
  "xres_judge src dst = (if dst \<noteq> None \<and> dst \<noteq> Some src then resGlobal else src)"

definition move_peers :: "kernel \<Rightarrow> nat \<Rightarrow> nat \<Rightarrow> bool" where
  "move_peers s src dst =
     (case (res_cfg s src, res_cfg s dst) of
        (Some (_, a), Some (_, b)) \<Rightarrow> rt_move_peer a \<noteq> 0 \<and> rt_move_peer a = rt_move_peer b
      | _ \<Rightarrow> False)"

text \<open>The slot that judges a move, and whether the moved file's row goes.\<close>

definition xres_judge_move :: "kernel \<Rightarrow> nat \<Rightarrow> nat option \<Rightarrow> bool \<Rightarrow> nat \<times> bool" where
  "xres_judge_move s src dst peer_ok =
     (case dst of
        None \<Rightarrow> (src, False)
      | Some d \<Rightarrow>
          if d = src then (src, False)
          else if peer_ok \<and> move_peers s src d then (src, True) else (resGlobal, False))"

definition rename_done :: "kinode option \<Rightarrow> kinode option \<Rightarrow> bool \<Rightarrow> answer \<Rightarrow> kernel \<Rightarrow> answer \<times> kernel" where
  "rename_done i victim evict r s =
     (r, if fst r then s
         else (let s1 = note_root_moved i victim s in if evict then drop_row i s1 else s1))"

definition guard_path_rename ::
    "bool \<Rightarrow> task \<Rightarrow> dentry list \<Rightarrow> dentry list \<Rightarrow> dentry list \<Rightarrow> dentry list \<Rightarrow> bool \<Rightarrow> kernel \<Rightarrow> answer \<times> kernel" where
  "guard_path_rename ok t old_parent old new_parent new exchange s =
     (if old = [] then (pass, s)
      else
        (let i = d_inode old;
             victim = d_inode new;
             victim_root = inode_is_watch_root s victim;
             dst = or_else victim_root
               (or_else (other_dir_hit s new_parent i 12) (guarded_ancestor_within_limit s new_parent ANCESTOR_WALK));
             dir = (case i of None \<Rightarrow> False | Some n \<Rightarrow> is_dir n);
             peer_ok = (victim_root = None \<and> \<not> exchange \<and> \<not> dir);
             own = or_else (read_inode_guard s i)
               (if d_inode old_parent = None \<or> same_inode (d_inode old_parent) i then None
                else read_inode_guard s (d_inode old_parent));
             rooted = (case own of None \<Rightarrow> None | Some r \<Rightarrow> if root_in_chain s old i 16 r then Some r else None);
             src = or_else rooted (guarded_ancestor_within_limit s old_parent ANCESTOR_WALK)
         in case src of
              Some r \<Rightarrow>
                (let (slot, evict) = xres_judge_move s r dst peer_ok in
                 rename_done i victim evict (check_and_emit s t EVENT_RENAME old slot) s)
            | None \<Rightarrow>
                (case victim_root of
                   Some d \<Rightarrow> rename_done i victim False (check_and_emit s t EVENT_RENAME new d) s
                 | None \<Rightarrow>
                     (case dst of
                        None \<Rightarrow> (pass, s)
                      | Some d \<Rightarrow>
                          (let r = check_and_emit s t EVENT_RENAME old d in
                           (r, if \<not> fst r \<and> should_add_new_dir s d \<and> dir then add_inode_to_guard ok i d s else s))))))"

text \<open>Every prefix of a symlink target that ends at a slash or at the end is looked up; the longest
  root that is not read-only decides.\<close>

definition scan_hit :: "kernel \<Rightarrow> string \<Rightarrow> nat option \<Rightarrow> nat option" where
  "scan_hit s pre res =
     (if pre = [] then res
      else case map_of (guard_path s) pre of
        None \<Rightarrow> res
      | Some owner \<Rightarrow> if is_readonly_mode s owner then res else Some owner)"

fun symlink_scan :: "kernel \<Rightarrow> string \<Rightarrow> string \<Rightarrow> nat option \<Rightarrow> nat option" where
  "symlink_scan s pre [] res = scan_hit s pre res"
| "symlink_scan s pre (c # cs) res =
     symlink_scan s (pre @ [c]) cs (if c = CHR ''/'' then scan_hit s pre res else res)"

definition guard_path_symlink :: "task \<Rightarrow> dentry list \<Rightarrow> dentry list \<Rightarrow> string \<Rightarrow> kernel \<Rightarrow> answer" where
  "guard_path_symlink t parent ds old_name s =
     (case or_else (if d_inode parent = None then None else guarded_map_hit s parent (d_inode parent) 32)
        (guarded_ancestor_within_limit s parent ANCESTOR_WALK) of
        Some res \<Rightarrow> check_and_emit s t EVENT_SYMLINK ds res
      | None \<Rightarrow> decide s t EVENT_SYMLINK ds (symlink_scan s [] (take (MAX_PATH - 1) old_name) None))"

text \<open>The top of a filesystem is its own parent; the parent hit is then skipped, the walk is not.\<close>

definition guard_path_link :: "task \<Rightarrow> dentry list \<Rightarrow> dentry list \<Rightarrow> kernel \<Rightarrow> answer" where
  "guard_path_link t old new_parent s =
     (if old = [] then pass
      else
        (let i = d_inode old;
             old_parent = (if tl old = [] then old else tl old);
             dst = or_else (other_dir_hit s new_parent i 12) (guarded_ancestor_within_limit s new_parent ANCESTOR_WALK);
             src = or_else (guarded_map_hit s old i 16)
               (or_else (other_dir_hit s (tl old) i 16) (guarded_ancestor_within_limit s old_parent ANCESTOR_WALK))
         in decide s t EVENT_HARDLINK old (case src of Some r \<Rightarrow> Some (xres_judge r dst) | None \<Rightarrow> dst)))"

text \<open>The directory a new or removed name is in.\<close>

definition dir_res :: "kernel \<Rightarrow> dentry list \<Rightarrow> nat option" where
  "dir_res s parent =
     or_else (guarded_map_hit s parent (d_inode parent) 32) (guarded_ancestor_within_limit s parent ANCESTOR_WALK)"

definition guard_path_mkdir :: "bool \<Rightarrow> task \<Rightarrow> dentry list \<Rightarrow> dentry list \<Rightarrow> kernel \<Rightarrow> answer \<times> kernel" where
  "guard_path_mkdir ok t parent ds s =
     (let s1 = discover_guarded_parent ok ds s in (decide s1 t EVENT_MKDIR ds (dir_res s1 parent), s1))"

definition guard_path_mknod :: "task \<Rightarrow> dentry list \<Rightarrow> dentry list \<Rightarrow> kernel \<Rightarrow> answer" where
  "guard_path_mknod t parent ds s = (if ds = [] then pass else decide s t EVENT_MKNOD ds (dir_res s parent))"

definition guard_path_rmdir :: "task \<Rightarrow> dentry list \<Rightarrow> dentry list \<Rightarrow> kernel \<Rightarrow> answer \<times> kernel" where
  "guard_path_rmdir t parent ds s =
     (if ds = [] then (pass, s)
      else
        (let i = d_inode ds;
             was_guarded = (read_inode_guard s i \<noteq> None);
             r = decide s t EVENT_DELETE ds (dir_res s parent)
         in (r, if \<not> fst r \<and> was_guarded then evict_inode_from_guard i s else s)))"

subsection \<open>Attributes\<close>

definition judge_access :: "task \<Rightarrow> nat \<Rightarrow> dentry list \<Rightarrow> kernel \<Rightarrow> answer" where
  "judge_access t type ds s = (if ds = [] then pass else decide s t type ds (is_guarded_access s ds (d_inode ds)))"

definition guard_path_truncate :: "task \<Rightarrow> dentry list \<Rightarrow> kernel \<Rightarrow> answer" where
  "guard_path_truncate t ds s = judge_access t EVENT_ATTR ds s"

definition ATTR_MODE :: u32 where "ATTR_MODE = 1"
definition ATTR_CTIME :: u32 where "ATTR_CTIME = 0x40"
definition ATTR_SIZE :: u32 where "ATTR_SIZE = 8"
definition ATTR_FILE :: u32 where "ATTR_FILE = 0x2000"

definition chmod_only_drops_write :: "kernel \<Rightarrow> nat \<Rightarrow> kinode option \<Rightarrow> u32 \<Rightarrow> u32 \<Rightarrow> bool" where
  "chmod_only_drops_write s res i ia_valid new_mode =
     (case (res_cfg s res, i) of
        (Some (_, t), Some n) \<Rightarrow>
          (let old = ki_mode n AND S_IALLUGO; new = new_mode AND S_IALLUGO in
           rt_chmod_drop_write t \<and>
           ia_valid AND ATTR_MODE \<noteq> 0 \<and> ia_valid AND NOT (ATTR_MODE OR ATTR_CTIME) = 0 \<and>
           ki_uid n \<noteq> 0 \<and> is_reg n \<and> new_mode AND S_IFMT = S_IFREG \<and>
           new AND NOT old = 0 \<and> (old XOR new) AND NOT S_IWUGO = 0)
      | _ \<Rightarrow> False)"

text \<open>\<open>attr\<close>: \<open>ia_valid\<close> and \<open>ia_mode\<close>.\<close>

definition guard_inode_setattr :: "task \<Rightarrow> dentry list \<Rightarrow> (u32 \<times> u32) option \<Rightarrow> kernel \<Rightarrow> answer" where
  "guard_inode_setattr t ds attr s =
     (if ds = [] \<or> off_guarded_fs s ds (d_inode ds) then pass
      else case is_guarded_access s ds (d_inode ds) of
        None \<Rightarrow> pass
      | Some res \<Rightarrow>
          if (case attr of None \<Rightarrow> False
              | Some (ia_valid, ia_mode) \<Rightarrow> ia_valid AND (ATTR_SIZE OR ATTR_FILE) \<noteq> 0 \<or>
                  chmod_only_drops_write s res (d_inode ds) ia_valid ia_mode) then pass
          else check_and_emit s t EVENT_ATTR ds res)"

definition guard_inode_setxattr :: "task \<Rightarrow> dentry list \<Rightarrow> kernel \<Rightarrow> answer" where
  "guard_inode_setxattr t ds s = judge_access t EVENT_ATTR ds s"

definition guard_inode_removexattr :: "task \<Rightarrow> dentry list \<Rightarrow> kernel \<Rightarrow> answer" where
  "guard_inode_removexattr t ds s = judge_access t EVENT_ATTR ds s"

definition guard_inode_getattr :: "task \<Rightarrow> dentry list \<Rightarrow> kernel \<Rightarrow> answer" where
  "guard_inode_getattr t ds s =
     (if ds = [] \<or> off_guarded_fs s ds (d_inode ds) then pass
      else case is_guarded_access s ds (d_inode ds) of
        None \<Rightarrow> pass
      | Some res \<Rightarrow>
          (case (d_inode ds, inode_is_watch_root s (d_inode ds)) of
             (Some n, Some res') \<Rightarrow> if is_dir n then pass else check_and_emit s t EVENT_STAT ds res'
           | _ \<Rightarrow> check_and_emit s t EVENT_STAT ds res))"

text \<open>\<open>readlink\<close>, \<open>getxattr\<close> and \<open>listxattr\<close>.\<close>

definition read_metadata :: "task \<Rightarrow> dentry list \<Rightarrow> kernel \<Rightarrow> answer" where
  "read_metadata t ds s = (if off_guarded_fs s ds (d_inode ds) then pass else judge_access t EVENT_STAT ds s)"

definition guard_inode_readlink :: "task \<Rightarrow> dentry list \<Rightarrow> kernel \<Rightarrow> answer" where
  "guard_inode_readlink = read_metadata"

definition guard_inode_getxattr :: "task \<Rightarrow> dentry list \<Rightarrow> kernel \<Rightarrow> answer" where
  "guard_inode_getxattr = read_metadata"

definition guard_inode_listxattr :: "task \<Rightarrow> dentry list \<Rightarrow> kernel \<Rightarrow> answer" where
  "guard_inode_listxattr = read_metadata"

definition guard_sb_mount :: "task \<Rightarrow> dentry list \<Rightarrow> kernel \<Rightarrow> answer" where
  "guard_sb_mount t ds s =
     (if d_inode ds = None then pass else decide s t EVENT_OPEN ds (guarded_map_hit s ds (d_inode ds) 32))"

subsection \<open>Processes\<close>

text \<open>\<open>Some True\<close> is \<open>-EPERM\<close>, \<open>None\<close> is \<open>-ENOSYS\<close>: the kernel goes on with the call.\<close>

definition prctl_gate :: "int \<Rightarrow> u64 \<Rightarrow> bool option" where
  "prctl_gate option arg2 = (if option = 35 \<and> (arg2 = 14 \<or> arg2 = 13) then Some True else None)"

definition attaches :: "u32 \<Rightarrow> bool" where "attaches mode = (mode AND PTRACE_MODE_ATTACH \<noteq> 0)"

text \<open>The slot whose whitelist judges an access to \<open>child\<close>, if any does.\<close>

definition ptrace_slot :: "kernel \<Rightarrow> task \<Rightarrow> u32 \<Rightarrow> nat option" where
  "ptrace_slot s child mode =
     (let taint = map_of (guard_tainted_pids s) (tk_tgid child) in
      if \<not> attaches mode then taint
      else case get_task_exe_inode s child of
        None \<Rightarrow> taint
      | Some k \<Rightarrow>
          if is_inspector s k then Some resGlobal
          else case taint of
            Some res \<Rightarrow> Some res
          | None \<Rightarrow>
              (case map_of (GuardExeUnion (maps s)) k of
                 None \<Rightarrow> None
               | Some w \<Rightarrow> if is_readonly_mode s w then Some w else None))"

definition guard_ptrace_access_check :: "task \<Rightarrow> task \<Rightarrow> u32 \<Rightarrow> kernel \<Rightarrow> answer" where
  "guard_ptrace_access_check t child mode s =
     (case ptrace_slot s child mode of
        None \<Rightarrow> pass
      | Some res \<Rightarrow>
          if \<not> attaches mode \<and> snd (caller_row s child res) = Some GUARD_ALLOW_ROOT then pass
          else if \<not> attaches mode \<and> current_is_inspector s t then pass
          else if get_task_exe_inode s t \<noteq> None \<and> is_allow_action t (snd (caller_row s t res)) then pass
          else emit_process_denial GUARD_REASON_PTRACE EVENT_READ mode res)"

text \<open>\<open>img\<close>: the key of the file to be executed, \<open>None\<close> if a pointer to it is NULL. \<open>traced\<close>: whether
  the task is traced, and by whom (\<open>Some None\<close>: the tracer cannot be read).\<close>

definition guard_bprm_check_security ::
    "bool \<Rightarrow> task \<Rightarrow> GuardInodeKey option \<Rightarrow> task option option \<Rightarrow> kernel \<Rightarrow> answer \<times> kernel" where
  "guard_bprm_check_security okT t img traced s =
     (case img of
        None \<Rightarrow> (pass, s)
      | Some k \<Rightarrow>
          (let union_res = map_of (GuardExeUnion (maps s)) k; inspector = is_inspector s k in
           if union_res = None \<and> \<not> inspector then (pass, s)
           else
             (let s1 = (case union_res of
                  None \<Rightarrow> s
                | Some r \<Rightarrow> if r \<noteq> GUARD_RES_NONE \<and> \<not> is_readonly_mode s r then mark_tainted okT t r s else s);
                  res = (if inspector then resGlobal else the union_res);
                  denial = emit_process_denial GUARD_REASON_TRACED_EXEC EVENT_OPEN 0 res
              in case traced of
                   None \<Rightarrow> (pass, s1)
                 | Some None \<Rightarrow> (denial, s1)
                 | Some (Some tracer) \<Rightarrow>
                     if get_task_exe_inode s1 tracer \<noteq> None \<and> is_allow_action t (snd (caller_row s1 tracer res)) then (pass, s1)
                     else (denial, s1))))"

definition guard_bprm_committed :: "bool \<Rightarrow> task \<Rightarrow> GuardInodeKey option \<Rightarrow> kernel \<Rightarrow> kernel" where
  "guard_bprm_committed ok t img s =
     (let s1 = exe_stamp_exec ok t s; w = maps s1 in
      case (map_of (guard_tainted_pids s1) (tk_tgid t), img) of
        (Some res, Some ik) \<Rightarrow>
          (let anywhere = (map_of (GuardExeUnion w) ik \<noteq> None);
               several = (res = resGlobal \<or> (case map_of (ResConfigs w) res of None \<Rightarrow> False | Some c \<Rightarrow> rc_TaintSet c));
               keep = (map_of (GuardMulticall w) ik \<noteq> None \<and> anywhere \<or>
                 (if several then anywhere else is_allow_action t (map_of (GuardExeActions w) (res, ik))))
           in if keep then s1 else s1\<lparr>guard_tainted_pids := AList.delete (tk_tgid t) (guard_tainted_pids s1)\<rparr>)
      | _ \<Rightarrow> s1)"

definition guard_sched_process_fork :: "bool \<Rightarrow> bool \<Rightarrow> task \<Rightarrow> task \<Rightarrow> kernel \<Rightarrow> kernel" where
  "guard_sched_process_fork okS okT parent child s =
     (let s1 = exe_stamp_fork okS parent child s in
      case map_of (guard_tainted_pids s1) (tk_tgid parent) of
        None \<Rightarrow> s1
      | Some v \<Rightarrow> set_taint okT (tk_tgid child) v s1)"

definition guard_task_free :: "task \<Rightarrow> kernel \<Rightarrow> kernel" where
  "guard_task_free t s =
     (if tk_pid t \<noteq> tk_tgid t then s
      else exe_stamp_free t (tk_tgid t)
        (s\<lparr>guard_tainted_pids := AList.delete (tk_tgid t) (guard_tainted_pids s)\<rparr>))"

subsection \<open>Inodes\<close>

definition exe_last_link_key :: "kinode option \<Rightarrow> GuardInodeKey option" where
  "exe_last_link_key i = (case i of None \<Rightarrow> None | Some n \<Rightarrow> if is_reg n \<and> ki_nlink n = 1 then Some (ki_key n) else None)"

text \<open>\<open>inode_unlink\<close> of the name, and \<open>inode_rename\<close> over the victim: the same program text.\<close>

definition note_last_link :: "bool \<Rightarrow> kinode option \<Rightarrow> kernel \<Rightarrow> answer \<times> kernel" where
  "note_last_link ok i s =
     (case exe_last_link_key i of
        None \<Rightarrow> (pass, s)
      | Some k \<Rightarrow>
          if map_of (GuardExeUnion (maps s)) k = None then (pass, s)
          else (case exe_note_supersede ok k 0 s of (failed, s') \<Rightarrow> ((failed, None), s')))"

definition guard_inode_unlink :: "bool \<Rightarrow> dentry list \<Rightarrow> kernel \<Rightarrow> answer \<times> kernel" where
  "guard_inode_unlink ok ds s = note_last_link ok (d_inode ds) s"

definition guard_inode_rename :: "bool \<Rightarrow> dentry list \<Rightarrow> kernel \<Rightarrow> answer \<times> kernel" where
  "guard_inode_rename ok new s = note_last_link ok (d_inode new) s"

definition forget_root :: "nat option \<Rightarrow> GuardInodeKey \<Rightarrow> kernel \<Rightarrow> kernel" where
  "forget_root owner k s =
     (case owner of
        None \<Rightarrow> s
      | Some r \<Rightarrow>
          (case map_of (ResConfigs (maps s)) r of
             None \<Rightarrow> s
           | Some c \<Rightarrow>
               if r < GuardMaxRes \<and> rc_Root c = k
               then s\<lparr>maps := (maps s)\<lparr>ResConfigs := AList.update r (c\<lparr>rc_Root := k\<lparr>Ino := 0\<rparr>\<rparr>) (ResConfigs (maps s))\<rparr>\<rparr>
               else s))"

definition guard_inode_free :: "bool \<Rightarrow> kinode option \<Rightarrow> kernel \<Rightarrow> kernel" where
  "guard_inode_free ok i s =
     (case i of
        None \<Rightarrow> s
      | Some n \<Rightarrow>
          if ki_nlink n \<noteq> 0 then s
          else
            (let k = ki_key n;
                 s1 = exe_note_freed ok k (map_of (GuardExeUnion (maps s)) k \<noteq> None) s;
                 s2 = s1\<lparr>maps := (maps s1)\<lparr>GuardMulticall := AList.delete k (GuardMulticall (maps s1))\<rparr>\<rparr>
             in if map_of (guard_fs_sbdevs s2) (sb_dev n) = None then s2
                else (let owner = map_of (GuardInodes (maps s2)) k in forget_root owner k (drop_row i s2))))"

end
