(* ===== verification/Gate_Facts.thy ===== *)
theory Gate_Facts
  imports Kernel_Hooks Temp_Facts
begin

text \<open>
  What the kernel's decision allows, in terms of the rows userspace writes, and what follows for a
  process when its binary leaves a whitelist.
\<close>

subsection \<open>The whitelist decision\<close>

definition is_root :: "task \<Rightarrow> bool" where
  "is_root t = (tk_uid t = 0)"

lemma is_allow_action_grants:
  "is_allow_action t v = (case v of None \<Rightarrow> False | Some a \<Rightarrow> grants a (is_root t))"
  by (auto simp: is_allow_action_def grants_def is_root_def split: option.splits)

text \<open>No resource has the slot of a refused lookup.\<close>

definition none_slot_empty :: "world \<Rightarrow> bool" where
  "none_slot_empty w = list_all (\<lambda>((slot, _), _). slot \<noteq> GUARD_RES_NONE) (GuardExeActions w)"

lemma none_slot_rows: "none_slot_empty w \<Longrightarrow> rows w GUARD_RES_NONE k = None"
  by (cases "rows w GUARD_RES_NONE k") (auto simp: none_slot_empty_def list_all_iff dest!: map_of_SomeD)

text \<open>The caller's own row admits it: its image is not refused, and if the row is a plain allow the
  process runs no suspect code.\<close>

definition admitted_by_row :: "kernel \<Rightarrow> task \<Rightarrow> nat \<Rightarrow> GuardInodeKey \<Rightarrow> bool" where
  "admitted_by_row s t res k =
     (get_task_exe_inode s t = Some k \<and> \<not> exe_refused s t k \<and> row_admits (maps s) res k (is_root t) \<and>
      (rows (maps s) res k = Some GUARD_ALLOW \<longrightarrow> map_of (trust_code_suspect s) (tk_tgid t) = None))"

definition runs_target :: "task \<Rightarrow> emit_args \<Rightarrow> bool" where
  "runs_target t a = (ea_type a = EVENT_OPEN \<and> ea_exec_open a \<or> tk_in_execve t)"

lemma all_event_bits: "n < 32 \<Longrightarrow> bit allEventBits n"
  by (simp add: allEventBits_def bit_simps)

lemma masked_events:
  assumes "n < 32" and "row_admits w slot k root"
  shows "bit (events_of w slot k root) n \<longleftrightarrow> (case map_of (GuardExeEvents w) (slot, k) of None \<Rightarrow> True | Some m \<Rightarrow> bit m n)"
  using assms all_event_bits
  by (auto simp: events_of_def pair_events_def row_admits_def mask_bits_def split: option.splits)

lemma not_admitted_events: "bit (events_of w slot k root) n \<Longrightarrow> row_admits w slot k root"
  by (auto simp: events_of_def pair_events_def row_admits_def split: option.splits if_splits)

lemma caller_blocked:
  assumes "none_slot_empty (maps s)" and "caller_row s t res = (ik, action)"
  shows "is_allow_action t action \<and> (action = Some GUARD_ALLOW \<longrightarrow> map_of (trust_code_suspect s) (tk_tgid t) = None) \<longleftrightarrow>
     (\<exists>k. admitted_by_row s t res k \<and> ik = (res, k))"
  using none_slot_rows [OF assms(1)] assms(2)
  by (auto simp: caller_row_def admitted_by_row_def row_admits_def is_allow_action_grants slot_unless_def Let_def
      split: option.splits if_splits)

definition mask_blocks :: "world \<Rightarrow> rkey \<Rightarrow> nat \<Rightarrow> bool" where
  "mask_blocks w ik type = (case map_of (GuardExeEvents w) ik of None \<Rightarrow> False | Some m \<Rightarrow> type < 32 \<and> \<not> bit m type)"

lemma events_iff:
  assumes "type < 32"
  shows "bit (events_of w slot k root) type \<longleftrightarrow> row_admits w slot k root \<and> \<not> mask_blocks w (slot, k) type"
  using masked_events [OF assms, of w slot k root] not_admitted_events [of w slot k root type] assms
  by (auto simp: mask_blocks_def split: option.splits)

text \<open>The branch once it is known whether the caller's row lets it through.\<close>

lemma whitelist_branch_free:
  assumes "is_allow_action t action" and "action = Some GUARD_ALLOW \<longrightarrow> map_of (trust_code_suspect s) (tk_tgid t) = None"
  shows "fst (whitelist_branch s t a ik action) = mask_blocks (maps s) ik (ea_type a)"
proof -
  have w: "(if action = Some GUARD_ALLOW then map_of (trust_code_suspect s) (tk_tgid t) else None) = None" using assms(2) by auto
  show ?thesis by (simp only: whitelist_branch_def Let_def w assms(1)) (simp add: mask_blocks_def)
qed

lemma whitelist_branch_blocked:
  assumes "\<not> (is_allow_action t action \<and> (action = Some GUARD_ALLOW \<longrightarrow> map_of (trust_code_suspect s) (tk_tgid t) = None))"
  shows "fst (whitelist_branch s t a ik action) =
     (case (if runs_target t a then ea_target a else None) of
        None \<Rightarrow> True
      | Some n \<Rightarrow> (let tk = (slot_unless (exe_is_superseded s (ki_key n)) (ea_res a), ki_key n) in
          \<not> is_allow_action t (map_of (GuardExeActions (maps s)) tk) \<or> mask_blocks (maps s) tk (ea_type a)))"
proof -
  let ?why = "if action = Some GUARD_ALLOW then map_of (trust_code_suspect s) (tk_tgid t) else None"
  have b: "(\<not> is_allow_action t action \<or> ?why \<noteq> None) = True" using assms by auto
  show ?thesis
    by (simp only: whitelist_branch_def Let_def b runs_target_def [symmetric] simp_thms mask_blocks_def [symmetric])
      (simp split: option.split)
qed

lemma whitelist_branch_iff:
  assumes ns: "none_slot_empty (maps s)" and cr: "caller_row s t (ea_res a) = (ik, action)" and ty: "ea_type a < 32"
  shows "\<not> fst (whitelist_branch s t a ik action) \<longleftrightarrow>
     (if \<exists>k. admitted_by_row s t (ea_res a) k
      then bit (events_of (maps s) (ea_res a) (the (get_task_exe_inode s t)) (is_root t)) (ea_type a)
      else runs_target t a \<and> (\<exists>n. ea_target a = Some n \<and> \<not> exe_is_superseded s (ki_key n) \<and>
        bit (events_of (maps s) (ea_res a) (ki_key n) (is_root t)) (ea_type a)))"
proof -
  let ?w = "maps s" and ?res = "ea_res a"
  let ?free = "is_allow_action t action \<and> (action = Some GUARD_ALLOW \<longrightarrow> map_of (trust_code_suspect s) (tk_tgid t) = None)"
  note free = caller_blocked [OF ns cr]
  show ?thesis
  proof (cases ?free)
    case True
    then obtain k where k: "admitted_by_row s t ?res k" "ik = (?res, k)" using free by blast
    then have e: "get_task_exe_inode s t = Some k" "row_admits ?w ?res k (is_root t)" by (simp_all add: admitted_by_row_def)
    then show ?thesis
      using True k(1) whitelist_branch_free [of t action s a ik] events_iff [OF ty, of ?w ?res k "is_root t"] by (auto simp: k(2))
  next
    case False
    then have no: "\<not> (\<exists>k. admitted_by_row s t ?res k)" using free cr
      by (auto simp: admitted_by_row_def caller_row_def slot_unless_def Let_def split: option.splits)
    have tgt: "is_allow_action t (map_of (GuardExeActions ?w) (slot_unless (exe_is_superseded s k) ?res, k)) \<longleftrightarrow>
        \<not> exe_is_superseded s k \<and> row_admits ?w ?res k (is_root t)" for k
      using none_slot_rows [OF ns] by (auto simp: slot_unless_def is_allow_action_grants row_admits_def)
    show ?thesis
      unfolding whitelist_branch_blocked [OF False] Let_def tgt using no ns
      by (auto simp: events_iff [OF ty] slot_unless_def split: option.split)
  qed
qed

lemma check_whitelist:
  assumes "res_cfg s (ea_res a) = Some (c, tr)" and "rc_Mode c = ModeWhitelist" and "caller_row s t (ea_res a) = (ik, action)"
  shows "fst (check_and_emit_args s t a) = (tk_mm t \<longrightarrow> fst (whitelist_branch s t a ik action))"
  using assms by (auto simp: check_and_emit_args_def Let_def pass_def split: prod.splits)

lemma whitelist_allows:
  assumes cfg: "res_cfg s (ea_res a) = Some (c, tr)" "rc_Mode c = ModeWhitelist" and ns: "none_slot_empty (maps s)" and ty: "ea_type a < 32"
  shows "\<not> fst (check_and_emit_args s t a) \<longleftrightarrow> tk_mm t \<and>
     (if \<exists>k. admitted_by_row s t (ea_res a) k
      then bit (events_of (maps s) (ea_res a) (the (get_task_exe_inode s t)) (is_root t)) (ea_type a)
      else runs_target t a \<and> (\<exists>n. ea_target a = Some n \<and> \<not> exe_is_superseded s (ki_key n) \<and>
        bit (events_of (maps s) (ea_res a) (ki_key n) (is_root t)) (ea_type a)))"
proof -
  obtain ik action where cr: "caller_row s t (ea_res a) = (ik, action)" by fastforce
  from check_whitelist [OF cfg cr] have f: "(\<not> fst (check_and_emit_args s t a)) = (tk_mm t \<and> \<not> fst (whitelist_branch s t a ik action))"
    by simp
  show ?thesis unfolding f whitelist_branch_iff [OF ns cr ty] ..
qed

text \<open>The binaries a decision may be about: the one that runs, and the one about to run.\<close>

definition acting :: "kernel \<Rightarrow> task \<Rightarrow> emit_args \<Rightarrow> GuardInodeKey set" where
  "acting s t a = set_option (get_task_exe_inode s t) \<union> (if runs_target t a then ki_key ` set_option (ea_target a) else {})"

lemma allowed_by_acting:
  assumes "res_cfg s (ea_res a) = Some (c, tr)" "rc_Mode c = ModeWhitelist" "none_slot_empty (maps s)" "ea_type a < 32"
    and "\<not> fst (check_and_emit_args s t a)"
  shows "\<exists>k \<in> acting s t a. row_admits (maps s) (ea_res a) k (is_root t) \<and> bit (events_of (maps s) (ea_res a) k (is_root t)) (ea_type a)"
  using assms(5) unfolding whitelist_allows [OF assms(1-4)]
  by (auto simp: acting_def admitted_by_row_def intro: not_admitted_events split: if_splits)

text \<open>
  C4. The kernel's decision on a whitelisted resource is the rows userspace wrote. A process with an
  address space is let through exactly if its own row admits it (the image is not refused, and under
  a plain allow the process runs no suspect code) and has the event, or, when its own row does not
  admit it and the access is part of an exec, the file to be run is not superseded and its row
  admits the event. Everyone else is denied, kernel threads included.
\<close>

theorem gate_decides_by_rows:
  assumes "res_cfg s (ea_res a) = Some (c, tr)" and "rc_Mode c = ModeWhitelist" and "none_slot_empty (maps s)" and "ea_type a < 32"
  shows "\<not> fst (check_and_emit_args s t a) \<longleftrightarrow> tk_mm t \<and>
     (if \<exists>k. admitted_by_row s t (ea_res a) k
      then bit (events_of (maps s) (ea_res a) (the (get_task_exe_inode s t)) (is_root t)) (ea_type a)
      else runs_target t a \<and> (\<exists>n. ea_target a = Some n \<and> \<not> exe_is_superseded s (ki_key n) \<and>
        bit (events_of (maps s) (ea_res a) (ki_key n) (is_root t)) (ea_type a)))"
  using whitelist_allows [OF assms] .

text \<open>
  A key an edit leaves outside: no entry of the new list resolves to it, and it was not admitted before or, after
  an edit without error, the guard had recorded it for an entry that is no longer listed and no entry of the new
  list owns it.
\<close>

definition left_out :: "system \<Rightarrow> world \<Rightarrow> nat \<Rightarrow> BinaryEntry list \<Rightarrow> bool \<Rightarrow> nat \<Rightarrow> bool \<Rightarrow> GuardInodeKey \<Rightarrow> bool" where
  "left_out X w r entries ok slot root k \<longleftrightarrow> (let g = w_guards w r in
     (\<forall>b \<in> set entries. \<not> resolves X (be_Path b) k) \<and>
     (\<not> row_admits w slot k root \<or>
      ok \<and> slot = g_resID g \<and> \<not> owned X g entries k \<and> (\<exists>b \<in> set (g_binaries g) - set entries. (k, be_Path b) \<in> set (g_keyPaths g))))"

text \<open>
  C5. Whom an edit of a whitelist leaves out, the kernel denies. After \<open>SetBinaries\<close> on a running guard without
  error, every access to the resource is denied to a process when the binary it runs, and the one it is about
  to run, are not on the new list and either were not admitted before or left the list with this edit (the key was
  recorded for an entry the new list does not have, and no entry of the new list owns it). After an edit that
  stopped at a failed map operation this still holds for binaries that were not admitted before.
\<close>

theorem edit_shuts_out:
  assumes "sets_ok w" and "map_of (e_slots w) resGlobal = None" and "g_mode (w_guards w r) = ModeWhitelist"
    and run: "SetBinaries X r entries w = (x, w')" and live: "map_of (e_slots w) (ea_res a) \<noteq> None"
    and "GuardExeActions (maps s) = GuardExeActions w'" and "none_slot_empty (maps s)"
    and "res_cfg s (ea_res a) = Some (c, tr)" and "rc_Mode c = ModeWhitelist" and "ea_type a < 32"
    and out: "\<And>k. k \<in> acting s t a \<Longrightarrow> left_out X w r entries (x = Inr ()) (ea_res a) (is_root t) k"
  shows "fst (check_and_emit_args s t a)"
proof (rule ccontr)
  let ?g = "w_guards w r"
  assume "\<not> fst (check_and_emit_args s t a)"
  from allowed_by_acting [OF assms(8,9,7,10) this] obtain k where k: "k \<in> acting s t a" "row_admits (maps s) (ea_res a) k (is_root t)"
    by blast
  from k(2) have row: "row_admits w' (ea_res a) k (is_root t)" using assms(6) by (simp add: row_admits_def)
  note l = out [OF k(1), unfolded left_out_def Let_def]
  from SetBinaries_admits [OF assms(1-3) run live row] l have "row_admits w (ea_res a) k (is_root t)" by blast
  with l obtain b where x: "x = Inr ()" and slot: "ea_res a = g_resID ?g" and own: "\<not> owned X ?g entries k"
    and b: "b \<in> set (g_binaries ?g)" "b \<notin> set entries" "(k, be_Path b) \<in> set (g_keyPaths ?g)" by blast
  from SetBinaries_forgets [OF assms(1-3) run [unfolded x] live [unfolded slot] b] own l have "rows w' (g_resID ?g) k = None" by blast
  with row slot show False by (simp add: row_admits_def)
qed

subsection \<open>Examples\<close>

definition demo_config :: "Mode \<Rightarrow> GuardResConfig" where
  "demo_config m = \<lparr>rc_Active = True, rc_Mode = m, rc_Root = \<lparr>Dev = 5, Ino = 100\<rparr>, rc_TaintSet = False\<rparr>"

definition demo_kernel :: "world \<Rightarrow> kernel" where
  "demo_kernel w = \<lparr>maps = w\<lparr>ResConfigs := [(1, demo_config ModeWhitelist)], ExeSeq := [(0, 0), (1, 0)]\<rparr>,
     exe_stamps = [], trust_code_suspect = [], guard_tainted_pids = [], guard_fs_sbdevs = [(5, ())], guard_fs_devices = [],
     res_trees = (\<lambda>_. \<lparr>rt_recursive = True, rt_depth = 0, rt_root_sbdev = 5, rt_move_peer = 0, rt_chmod_drop_write = False\<rparr>),
     guard_root_moved = [], guard_path = []\<rparr>"

definition demo_task :: "u32 \<Rightarrow> GuardInodeKey \<Rightarrow> task" where
  "demo_task pid exe = \<lparr>tk_pid = pid, tk_tgid = pid, tk_start = 1, tk_mm = True, tk_exe = Some exe, tk_in_execve = False, tk_uid = 1000\<rparr>"

definition demo_read :: emit_args where
  "demo_read = \<lparr>ea_type = EVENT_READ, ea_target = None, ea_exec_open = False, ea_quiet_allow = False, ea_write_intent = False,
     ea_reason = 0, ea_res = 1\<rparr>"

definition stranger :: GuardInodeKey where "stranger = \<lparr>Dev = 9, Ino = 9\<rparr>"

lemma demo_kernel_cfg: "res_cfg (demo_kernel w) (ea_res demo_read) = Some (demo_config ModeWhitelist, res_trees (demo_kernel w) 1)"
  by (simp add: res_cfg_def demo_kernel_def demo_config_def demo_read_def)

theorem gate_decides_by_rows_witness:
  "\<not> fst (check_and_emit_args (demo_kernel demo_world) (demo_task 7 demo_file) demo_read) \<and>
   bit (events_of demo_world 1 demo_file False) EVENT_READ"
proof -
  let ?s = "demo_kernel demo_world" and ?t = "demo_task 7 demo_file"
  have ex: "\<exists>k. admitted_by_row ?s ?t (ea_res demo_read) k" by (rule exI [of _ demo_file]) code_simp
  have ev: "bit (events_of demo_world 1 demo_file False) EVENT_READ" by code_simp
  have ev': "bit (events_of (maps ?s) (ea_res demo_read) (the (get_task_exe_inode ?s ?t)) (is_root ?t)) (ea_type demo_read)" by code_simp
  have ns: "none_slot_empty (maps ?s)" by (simp add: none_slot_empty_def demo_kernel_def demo_world_def GUARD_RES_NONE_def)
  have "tk_mm ?t" by (simp add: demo_task_def)
  with gate_decides_by_rows [OF demo_kernel_cfg _ ns, of ?t] ex ev' have "\<not> fst (check_and_emit_args ?s ?t demo_read)"
    by (simp only: if_True simp_thms) (simp add: demo_config_def demo_read_def)
  with ev show ?thesis by (intro conjI)
qed

lemma demo_edit_rows:
  "list_all (\<lambda>((slot, _), _). slot < 8) (GuardExeActions (snd (SetBinaries (\<lambda>_. demo_env) 1 [] demo_policy)))"
  by code_simp

theorem edit_shuts_out_witness:
  "fst (check_and_emit_args (demo_kernel (snd (SetBinaries (\<lambda>_. demo_env) 1 [] demo_policy))) (demo_task 7 demo_file) demo_read) \<and>
   row_admits demo_policy 1 demo_file False"
proof
  let ?w' = "snd (SetBinaries (\<lambda>_. demo_env) 1 [] demo_policy)" and ?t = "demo_task 7 demo_file"
  let ?s = "demo_kernel ?w'"
  show "fst (check_and_emit_args ?s ?t demo_read)"
  proof (rule edit_shuts_out [OF demo_policy_facts(1-3) demo_SetBinaries_run])
    show "map_of (e_slots demo_policy) (ea_res demo_read) \<noteq> None" using demo_policy_facts(5) by (simp add: demo_read_def)
    show "GuardExeActions (maps ?s) = GuardExeActions ?w'" by (simp add: demo_kernel_def)
    show "none_slot_empty (maps ?s)" using demo_edit_rows by (auto simp: none_slot_empty_def demo_kernel_def list_all_iff GUARD_RES_NONE_def)
    show "res_cfg ?s (ea_res demo_read) = Some (demo_config ModeWhitelist, res_trees ?s 1)" by (rule demo_kernel_cfg)
    show "rc_Mode (demo_config ModeWhitelist) = ModeWhitelist" "ea_type demo_read < 32" by (simp_all add: demo_config_def demo_read_def)
    fix k assume "k \<in> acting ?s ?t demo_read"
    then have k: "k \<in> set_option (get_task_exe_inode ?s ?t)" by (simp add: acting_def runs_target_def demo_read_def demo_task_def)
    have "get_task_exe_inode ?s ?t = Some demo_file" by code_simp
    with k have "k = demo_file" by simp
    then show "left_out (\<lambda>_. demo_env) demo_policy 1 [] (Inr () = (Inr () :: gerr + unit)) (ea_res demo_read) (is_root ?t) k"
      by (simp add: left_out_def demo_read_def owned_def demo_policy_def upd_guard_def demo_guard_def demo_world_def demo_entry_def)
  qed
  show "row_admits demo_policy 1 demo_file False" by code_simp
qed

end
