(* ===== verification/Exec_Order.thy ===== *)
theory Exec_Order
  imports Gate_Facts
begin

text \<open>
  Superseded images over time (\<open>internal/bpf/exe_supersede.h\<close>): processes fork, exec and exit, files
  lose their last link and their inodes are freed and reused, in any order, with any map update
  failing. One counter orders the execs against the supersedes.

  The state is the kernel's maps with two histories no program reads: which processes are alive, by
  process id and start time, and for each the keys that were marked when its image was executed.
\<close>

subsection \<open>Steps\<close>

type_synonym process = "u32 \<times> u64"

definition proc :: "task \<Rightarrow> process" where
  "proc t = (tk_tgid t, tk_start t)"

record history =
  alive :: "process set"
  late :: "process \<Rightarrow> GuardInodeKey set" \<comment> \<open>keys marked before the process's exec\<close>

definition mark_of :: "kernel \<Rightarrow> GuardInodeKey \<Rightarrow> exeSupersede option" where
  "mark_of s = map_of (ExeSuperseded (maps s))"

definition unmark :: "GuardInodeKey \<Rightarrow> kernel \<Rightarrow> kernel" where
  "unmark k s = s\<lparr>maps := (maps s)\<lparr>ExeSuperseded := AList.delete k (ExeSuperseded (maps s))\<rparr>\<rparr>"

text \<open>Nothing the order of execs rests on changes: every other program, and what userspace writes
  besides dropping a mark.\<close>

definition same_clock :: "kernel \<Rightarrow> kernel \<Rightarrow> bool" where
  "same_clock s s' = (exe_stamps s' = exe_stamps s \<and> ExeSuperseded (maps s') = ExeSuperseded (maps s) \<and> ExeSeq (maps s') = ExeSeq (maps s))"

inductive os_step :: "kernel \<times> history \<Rightarrow> kernel \<times> history \<Rightarrow> bool" where
  Exec: "proc t \<in> alive h \<Longrightarrow>
    os_step (s, h) (guard_bprm_committed ok t img s, h\<lparr>late := (late h)(proc t := dom (mark_of s))\<rparr>)"
| Applet: "proc t \<in> alive h \<Longrightarrow> os_step (s, h) (guard_exec_applet t real filename argv0 s, h)"
| Fork: "proc parent \<in> alive h \<Longrightarrow> (\<And>p. p \<in> alive h \<Longrightarrow> fst p \<noteq> tk_tgid child) \<Longrightarrow>
    os_step (s, h) (guard_sched_process_fork okS okT parent child s,
      \<lparr>alive = insert (proc child) (alive h), late = (late h)(proc child := late h (proc parent))\<rparr>)"
| Exit: "os_step (s, h) (s, h\<lparr>alive := alive h - {p}\<rparr>)"
| Free: "proc t \<notin> alive h \<Longrightarrow> os_step (s, h) (guard_task_free t s, h)"
| Unlink: "os_step (s, h) (snd (guard_inode_unlink ok ds s), h)"
| Replace: "os_step (s, h) (snd (guard_inode_rename ok ds s), h)"
| Inode_Free: "os_step (s, h) (guard_inode_free ok i s, h)"
| Unmark: "os_step (s, h) (unmark k s, h\<lparr>late := (\<lambda>p. late h p - {k})\<rparr>)"
| Other: "same_clock s s' \<Longrightarrow> os_step (s, h) (s', h)"

inductive_cases os_stepE: "os_step c c'"

text \<open>When the guard attaches: no stamps, both counters at zero, one process per process id.\<close>

definition attached :: "kernel \<times> history \<Rightarrow> bool" where
  "attached c = (case c of (s, h) \<Rightarrow>
     exe_stamps s = [] \<and> map_of (ExeSeq (maps s)) EXE_SEQ_NOW = Some 0 \<and> map_of (ExeSeq (maps s)) EXE_SEQ_LOST = Some 0 \<and>
     ExeSuperseded (maps s) = [] \<and> inj_on fst (alive h) \<and> (\<forall>p. late h p = {}))"

subsection \<open>The invariant\<close>

text \<open>A stamp is trusted: it is the process's own, and at least as late as every mark that was there
  at the exec. A process without one either has no such mark or lost its stamp on record.\<close>

definition stamp_ok ::
    "(u32 \<Rightarrow> exec_stamp option) \<Rightarrow> (GuardInodeKey \<Rightarrow> exeSupersede option) \<Rightarrow> u64 \<Rightarrow> GuardInodeKey set \<Rightarrow> process \<Rightarrow> bool" where
  "stamp_ok S M lost K p =
     (case S (fst p) of
        None \<Rightarrow> K = {} \<or> lost \<noteq> 0
      | Some st \<Rightarrow> es_start st = snd p \<and> (\<forall>k \<in> K. \<forall>m. M k = Some m \<longrightarrow> su_Seq m \<le> es_seq st))"

definition ordered ::
    "nat \<Rightarrow> u64 \<Rightarrow> u64 \<Rightarrow> (u32 \<Rightarrow> exec_stamp option) \<Rightarrow> (GuardInodeKey \<Rightarrow> exeSupersede option) \<Rightarrow> history \<Rightarrow> bool" where
  "ordered n seq lost S M h =
     (unat seq \<le> n \<and> unat lost \<le> n \<and> (\<forall>k m. M k = Some m \<longrightarrow> su_Seq m \<le> seq) \<and> inj_on fst (alive h) \<and>
      (\<forall>p \<in> alive h. late h p \<subseteq> dom M \<and> stamp_ok S M lost (late h p) p))"

definition clock_ok :: "nat \<Rightarrow> kernel \<times> history \<Rightarrow> bool" where
  "clock_ok n c = (case c of (s, h) \<Rightarrow> \<exists>seq lost.
     map_of (ExeSeq (maps s)) EXE_SEQ_NOW = Some seq \<and> map_of (ExeSeq (maps s)) EXE_SEQ_LOST = Some lost \<and>
     ordered n seq lost (map_of (exe_stamps s)) (mark_of s) h)"

lemma clock_okI:
  "map_of (ExeSeq (maps s)) EXE_SEQ_NOW = Some seq \<Longrightarrow> map_of (ExeSeq (maps s)) EXE_SEQ_LOST = Some lost \<Longrightarrow>
   map_of (exe_stamps s) = S \<Longrightarrow> mark_of s = M \<Longrightarrow> ordered n seq lost S M h \<Longrightarrow> clock_ok n (s, h)"
  by (auto simp: clock_ok_def)

lemma clock_okE:
  assumes "clock_ok n (s, h)"
  obtains seq lost where "map_of (ExeSeq (maps s)) EXE_SEQ_NOW = Some seq" "map_of (ExeSeq (maps s)) EXE_SEQ_LOST = Some lost"
    "ordered n seq lost (map_of (exe_stamps s)) (mark_of s) h"
  using assms by (auto simp: clock_ok_def)

lemma attached_clock: "attached c \<Longrightarrow> clock_ok 0 c"
  by (auto simp: attached_def clock_ok_def ordered_def mark_of_def stamp_ok_def split: prod.splits)

lemma refused_if_late:
  assumes "clock_ok n (s, h)" and "proc t \<in> alive h" and "Real k \<in> late h (proc t)"
  shows "exe_refused s t k"
proof -
  from assms obtain m lost where m: "mark_of s (Real k) = Some m"
    and ok: "stamp_ok (map_of (exe_stamps s)) (mark_of s) lost (late h (proc t)) (proc t)"
    and l: "map_of (ExeSeq (maps s)) EXE_SEQ_LOST = Some lost"
    by (fastforce simp: clock_ok_def ordered_def)
  then show ?thesis using assms(3)
    by (auto simp: exe_refused_def mark_of_def stamp_ok_def proc_def split: option.splits)
qed

subsection \<open>What keeps the order\<close>

lemma ordered_step: "ordered n seq lost S M h \<Longrightarrow> n \<le> n' \<Longrightarrow> ordered n' seq lost S M h"
  by (auto simp: ordered_def)

lemma ordered_seq: "ordered n seq lost S M h \<Longrightarrow> seq \<le> seq' \<Longrightarrow> unat seq' \<le> n' \<Longrightarrow> n \<le> n' \<Longrightarrow> ordered n' seq' lost S M h"
  by (fastforce simp: ordered_def intro: order_trans)

lemma ordered_lost:
  "ordered n seq lost S M h \<Longrightarrow> lost' \<noteq> 0 \<Longrightarrow> unat lost' \<le> n' \<Longrightarrow> n \<le> n' \<Longrightarrow> ordered n' seq lost' S M h"
  by (auto simp: ordered_def stamp_ok_def split: option.splits)

lemma ordered_other_id:
  assumes "ordered n seq lost S M h" and "p \<in> alive h" and "q \<in> alive h" and "q \<noteq> p"
  shows "fst q \<noteq> fst p"
  using assms by (auto simp: ordered_def inj_on_def)

text \<open>A process gets a new history and the stamp or the missing stamp that goes with it.\<close>

lemma ordered_restamp:
  assumes "ordered n seq lost S M h" and "p \<in> alive h" and "K \<subseteq> dom M" and "stamp_ok S' M lost K p"
    and S': "\<And>a. a \<noteq> fst p \<Longrightarrow> S' a = S a"
  shows "ordered n seq lost S' M (h\<lparr>late := (late h)(p := K)\<rparr>)"
proof -
  have "stamp_ok S' M lost (late h q) q" if q: "q \<in> alive h" "q \<noteq> p" for q
    using assms(1) q S' [OF ordered_other_id [OF assms(1,2) q]] by (simp add: ordered_def stamp_ok_def)
  with assms(1-4) show ?thesis by (auto simp: ordered_def)
qed

lemma ordered_birth:
  assumes "ordered n seq lost S M h" and "p \<in> alive h" and c: "\<And>q. q \<in> alive h \<Longrightarrow> fst q \<noteq> fst c"
    and "stamp_ok S' M lost (late h p) c" and S': "\<And>a. a \<noteq> fst c \<Longrightarrow> S' a = S a"
  shows "ordered n seq lost S' M \<lparr>alive = insert c (alive h), late = (late h)(c := late h p)\<rparr>"
proof -
  have "stamp_ok S' M lost (late h q) q" if q: "q \<in> alive h" for q
    using assms(1) q S' [OF c [OF q]] by (simp add: ordered_def stamp_ok_def)
  moreover have "fst c \<notin> fst ` alive h" using c by force
  then have "inj_on fst (insert c (alive h))" "c \<notin> alive h" using assms(1) by (auto simp: ordered_def inj_on_insert simp del: fst_conv)
  ultimately show ?thesis using assms(1,2,4) by (auto simp: ordered_def)
qed

lemma ordered_new_mark:
  assumes "ordered n seq lost S M h" and "M k = None" and "su_Seq m \<le> seq"
  shows "ordered n seq lost S (M(k \<mapsto> m)) h"
proof -
  have "k \<notin> late h p" if "p \<in> alive h" for p using assms(1,2) that by (auto simp: ordered_def)
  with assms show ?thesis by (fastforce simp: ordered_def stamp_ok_def split: option.splits if_splits)
qed

lemma ordered_old_mark:
  assumes "ordered n seq lost S M h" and "M k = Some cur" and "su_Seq m = su_Seq cur"
  shows "ordered n seq lost S (M(k \<mapsto> m)) h"
  using assms by (fastforce simp: ordered_def stamp_ok_def split: option.splits if_splits)

lemma ordered_unmark: "ordered n seq lost S M h \<Longrightarrow> ordered n seq lost S (M(k := None)) (h\<lparr>late := (\<lambda>p. late h p - {k})\<rparr>)"
  by (fastforce simp: ordered_def stamp_ok_def split: option.splits if_splits)

lemma ordered_exit: "ordered n seq lost S M h \<Longrightarrow> ordered n seq lost S M (h\<lparr>alive := alive h - {p}\<rparr>)"
  by (auto simp: ordered_def inj_on_def)

lemma ordered_stamp_eq:
  assumes "ordered n seq lost S M h" and "\<And>p. p \<in> alive h \<Longrightarrow> map_option (\<lambda>st. (es_seq st, es_start st)) (S' (fst p)) = map_option (\<lambda>st. (es_seq st, es_start st)) (S (fst p))"
  shows "ordered n seq lost S' M h"
proof -
  have "stamp_ok S' M lost K p = stamp_ok S M lost K p" if "p \<in> alive h" for K p
    using assms(2) [OF that] by (auto simp: stamp_ok_def split: option.splits)
  with assms(1) show ?thesis by (simp add: ordered_def)
qed

subsection \<open>Every step keeps it\<close>

lemma seq_slots [simp]: "EXE_SEQ_NOW \<noteq> EXE_SEQ_LOST" "EXE_SEQ_LOST \<noteq> EXE_SEQ_NOW"
  by (simp_all add: EXE_SEQ_NOW_def EXE_SEQ_LOST_def)

lemma word_Suc: "unat (x :: u64) \<le> n \<Longrightarrow> Suc n < 2 ^ 64 \<Longrightarrow> unat (x + 1) = Suc (unat x)"
  by (simp add: unat_word_ariths)

lemma same_clock_ok: "same_clock s s' \<Longrightarrow> clock_ok n (s, h) \<Longrightarrow> clock_ok n (s', h)"
proof -
  assume s: "same_clock s s'" and c: "clock_ok n (s, h)"
  have "mark_of s' = mark_of s" using s by (auto simp: mark_of_def same_clock_def)
  with s c show ?thesis by (simp add: same_clock_def clock_ok_def)
qed

lemma committed_clock: "same_clock (exe_stamp_exec ok t s) (guard_bprm_committed ok t img s)"
  by (auto simp: same_clock_def guard_bprm_committed_def Let_def split: option.splits)

lemma forked_clock: "same_clock (exe_stamp_fork okS parent child s) (guard_sched_process_fork okS okT parent child s)"
  by (auto simp: same_clock_def guard_sched_process_fork_def set_taint_def Let_def split: option.splits)

text \<open>A stamp that could not be recorded: the row goes and the loss is counted.\<close>

lemma stamp_lost_clock:
  assumes "map_of (ExeSeq (maps s)) EXE_SEQ_LOST = Some lost"
  shows "map_of (ExeSeq (maps (exe_stamp_lost a s))) EXE_SEQ_LOST = Some (lost + 1)"
    and "map_of (ExeSeq (maps (exe_stamp_lost a s))) EXE_SEQ_NOW = map_of (ExeSeq (maps s)) EXE_SEQ_NOW"
    and "map_of (exe_stamps (exe_stamp_lost a s)) = (map_of (exe_stamps s))(a := None)"
    and "mark_of (exe_stamp_lost a s) = mark_of s"
  using assms by (simp_all add: exe_stamp_lost_def mark_of_def update_conv delete_conv fun_upd_def)

lemma lost_count:
  assumes "ordered n seq lost S M h" and "Suc n < 2 ^ 64"
  shows "lost + 1 \<noteq> 0" and "unat (lost + 1) \<le> Suc n" and "seq \<le> seq + 1" and "unat (seq + 1) \<le> Suc n"
proof -
  have u: "unat (lost + 1) = Suc (unat lost)" "unat (seq + 1) = Suc (unat seq)" and le: "unat lost \<le> n" "unat seq \<le> n"
    using assms by (simp_all add: ordered_def word_Suc [of _ n])
  from u(1) show "lost + 1 \<noteq> 0" by (metis unat_0 nat.distinct(1))
  show "unat (lost + 1) \<le> Suc n" "unat (seq + 1) \<le> Suc n" using u le by simp_all
  show "seq \<le> seq + 1" using u(2) by (simp add: word_le_nat_alt)
qed

lemma exec_clock:
  assumes "clock_ok n (s, h)" and t: "proc t \<in> alive h" and n: "Suc n < 2 ^ 64"
  shows "clock_ok (Suc n) (exe_stamp_exec ok t s, h\<lparr>late := (late h)(proc t := dom (mark_of s))\<rparr>)"
proof -
  from assms(1) obtain seq lost where q: "map_of (ExeSeq (maps s)) EXE_SEQ_NOW = Some seq" "map_of (ExeSeq (maps s)) EXE_SEQ_LOST = Some lost"
    and I: "ordered n seq lost (map_of (exe_stamps s)) (mark_of s) h" by (rule clock_okE)
  note cnt = lost_count [OF I n]
  have I': "ordered (Suc n) (seq + 1) lost (map_of (exe_stamps s)) (mark_of s) h"
    by (rule ordered_seq [OF I cnt(3,4)]) simp
  define s' where "s' = s\<lparr>maps := (maps s)\<lparr>ExeSeq := AList.update EXE_SEQ_NOW (seq + 1) (ExeSeq (maps s))\<rparr>\<rparr>"
  define st where "st = \<lparr>es_seq = seq + 1, es_start = tk_start t, es_tag = mcTagNone\<rparr>"
  have s': "mark_of s' = mark_of s" "exe_stamps s' = exe_stamps s" "map_of (ExeSeq (maps s')) EXE_SEQ_NOW = Some (seq + 1)"
    "map_of (ExeSeq (maps s')) EXE_SEQ_LOST = Some lost" using q by (simp_all add: s'_def mark_of_def update_conv)
  have run: "exe_stamp_exec ok t s = (if ok then s'\<lparr>exe_stamps := AList.update (tk_tgid t) st (exe_stamps s)\<rparr> else exe_stamp_lost (tk_tgid t) s')"
    by (simp add: exe_stamp_exec_def q(1) s'_def st_def)
  show ?thesis
  proof (cases ok)
    case True
    have "stamp_ok ((map_of (exe_stamps s))(tk_tgid t \<mapsto> st)) (mark_of s) lost (dom (mark_of s)) (proc t)"
      using I' by (simp add: stamp_ok_def proc_def st_def ordered_def)
    from ordered_restamp [OF I' t subset_refl this] have "ordered (Suc n) (seq + 1) lost ((map_of (exe_stamps s))(tk_tgid t \<mapsto> st))
        (mark_of s) (h\<lparr>late := (late h)(proc t := dom (mark_of s))\<rparr>)" by (simp add: proc_def)
    then show ?thesis unfolding run if_P [OF True] using s' by (intro clock_okI) (simp_all add: update_conv' mark_of_def)
  next
    case False
    have I'': "ordered (Suc n) (seq + 1) (lost + 1) (map_of (exe_stamps s)) (mark_of s) h"
      by (rule ordered_lost [OF I' cnt(1,2)]) simp
    have "stamp_ok ((map_of (exe_stamps s))(tk_tgid t := None)) (mark_of s) (lost + 1) (dom (mark_of s)) (proc t)"
      using cnt(1) by (simp add: stamp_ok_def proc_def)
    from ordered_restamp [OF I'' t subset_refl this] have "ordered (Suc n) (seq + 1) (lost + 1) ((map_of (exe_stamps s))(tk_tgid t := None))
        (mark_of s) (h\<lparr>late := (late h)(proc t := dom (mark_of s))\<rparr>)" by (simp add: proc_def)
    then show ?thesis unfolding run if_not_P [OF False] using s' stamp_lost_clock [OF s'(4), of "tk_tgid t"]
      by (intro clock_okI) simp_all
  qed
qed

lemma fork_clock:
  assumes "clock_ok n (s, h)" and p: "proc parent \<in> alive h" and c: "\<And>q. q \<in> alive h \<Longrightarrow> fst q \<noteq> tk_tgid child" and n: "Suc n < 2 ^ 64"
  shows "clock_ok (Suc n) (exe_stamp_fork ok parent child s,
    \<lparr>alive = insert (proc child) (alive h), late = (late h)(proc child := late h (proc parent))\<rparr>)" (is "clock_ok _ (_, ?h)")
proof -
  from assms(1) obtain seq lost where q: "map_of (ExeSeq (maps s)) EXE_SEQ_NOW = Some seq" "map_of (ExeSeq (maps s)) EXE_SEQ_LOST = Some lost"
    and I: "ordered n seq lost (map_of (exe_stamps s)) (mark_of s) h" by (rule clock_okE)
  let ?S = "map_of (exe_stamps s)" and ?K = "late h (proc parent)"
  note cnt = lost_count [OF I n]
  have I1: "ordered (Suc n) seq lost ?S (mark_of s) h" by (rule ordered_step [OF I]) simp
  have ne: "tk_tgid parent \<noteq> tk_tgid child" using c [OF p] by (simp add: proc_def)
  have ps: "stamp_ok ?S (mark_of s) lost ?K (proc parent)" using I p by (simp add: ordered_def)
  have birth: "ordered (Suc n) seq l S' (mark_of s) ?h"
    if "ordered (Suc n) seq l ?S (mark_of s) h" "stamp_ok S' (mark_of s) l ?K (proc child)" "\<And>a. a \<noteq> tk_tgid child \<Longrightarrow> S' a = ?S a" for l S'
    by (rule ordered_birth [OF that(1) p _ that(2)]) (use c that(3) in \<open>simp_all add: proc_def\<close>)
  show ?thesis
  proof (cases "?S (tk_tgid parent)")
    case None
    then have "stamp_ok (?S(tk_tgid child := None)) (mark_of s) lost ?K (proc child)" using ps by (simp add: stamp_ok_def proc_def)
    from birth [OF I1 this] None ne q show ?thesis
      by (intro clock_okI) (simp_all add: exe_stamp_fork_def delete_conv' mark_of_def)
  next
    case (Some pst)
    define st where "st = \<lparr>es_seq = es_seq pst, es_start = tk_start child, es_tag = es_tag pst\<rparr>"
    have same: "es_start pst = tk_start parent" using ps Some by (simp add: stamp_ok_def proc_def)
    have run: "exe_stamp_fork ok parent child s =
      (if ok then s\<lparr>exe_stamps := AList.update (tk_tgid child) st (exe_stamps s)\<rparr> else exe_stamp_lost (tk_tgid child) s)"
      by (simp add: exe_stamp_fork_def ne Some same st_def)
    show ?thesis
    proof (cases ok)
      case True
      have "stamp_ok (?S(tk_tgid child \<mapsto> st)) (mark_of s) lost ?K (proc child)" using ps Some by (simp add: stamp_ok_def proc_def st_def)
      from birth [OF I1 this] q show ?thesis unfolding run if_P [OF True] by (intro clock_okI) (simp_all add: update_conv' mark_of_def)
    next
      case False
      have I2: "ordered (Suc n) seq (lost + 1) ?S (mark_of s) h" by (rule ordered_lost [OF I cnt(1,2)]) simp
      have "stamp_ok (?S(tk_tgid child := None)) (mark_of s) (lost + 1) ?K (proc child)" using cnt(1) by (simp add: stamp_ok_def proc_def)
      from birth [OF I2 this] q stamp_lost_clock [OF q(2), of "tk_tgid child"] show ?thesis
        unfolding run if_not_P [OF False] by (intro clock_okI) simp_all
    qed
  qed
qed

lemma free_clock:
  assumes "clock_ok n (s, h)" and t: "proc t \<notin> alive h"
  shows "clock_ok n (guard_task_free t s, h)"
proof -
  from assms(1) obtain seq lost where q: "map_of (ExeSeq (maps s)) EXE_SEQ_NOW = Some seq" "map_of (ExeSeq (maps s)) EXE_SEQ_LOST = Some lost"
    and I: "ordered n seq lost (map_of (exe_stamps s)) (mark_of s) h" by (rule clock_okE)
  have "map_of (exe_stamps (guard_task_free t s)) (fst p) = map_of (exe_stamps s) (fst p)" if p: "p \<in> alive h" for p
  proof -
    have "stamp_ok (map_of (exe_stamps s)) (mark_of s) lost (late h p) p" using I p by (simp add: ordered_def)
    with p t show ?thesis
      by (cases p) (auto simp: guard_task_free_def exe_stamp_free_def stamp_ok_def proc_def delete_conv' split: option.splits)
  qed
  then have "ordered n seq lost (map_of (exe_stamps (guard_task_free t s))) (mark_of s) h" by (intro ordered_stamp_eq [OF I]) simp
  then show ?thesis
    by (rule clock_okI [rotated 4]) (use q in \<open>auto simp: guard_task_free_def exe_stamp_free_def mark_of_def split: option.splits\<close>)
qed

lemma applet_clock:
  assumes "clock_ok n (s, h)"
  shows "clock_ok n (guard_exec_applet t real filename argv0 s, h)"
proof -
  from assms obtain seq lost where q: "map_of (ExeSeq (maps s)) EXE_SEQ_NOW = Some seq" "map_of (ExeSeq (maps s)) EXE_SEQ_LOST = Some lost"
    and I: "ordered n seq lost (map_of (exe_stamps s)) (mark_of s) h" by (rule clock_okE)
  let ?s = "guard_exec_applet t real filename argv0 s"
  have "map_option (\<lambda>st. (es_seq st, es_start st)) (map_of (exe_stamps ?s) a) = map_option (\<lambda>st. (es_seq st, es_start st)) (map_of (exe_stamps s) a)" for a
    by (auto simp: guard_exec_applet_def update_conv' split: option.splits if_splits)
  then have "ordered n seq lost (map_of (exe_stamps ?s)) (mark_of s) h" by (intro ordered_stamp_eq [OF I]) simp
  moreover have "maps ?s = maps s" by (simp add: guard_exec_applet_def split: option.splits)
  ultimately show ?thesis using q by (intro clock_okI) (simp_all add: mark_of_def)
qed

lemma supersede_clock:
  assumes "clock_ok n (s, h)"
  shows "clock_ok n (snd (exe_note_supersede ok k freed s), h)"
proof -
  from assms obtain seq lost where q: "map_of (ExeSeq (maps s)) EXE_SEQ_NOW = Some seq" "map_of (ExeSeq (maps s)) EXE_SEQ_LOST = Some lost"
    and I: "ordered n seq lost (map_of (exe_stamps s)) (mark_of s) h" by (rule clock_okE)
  show ?thesis
  proof (cases "mark_of s k")
    case (Some cur)
    from ordered_old_mark [OF I this, of "cur\<lparr>su_Freed := freed\<rparr>"] Some q show ?thesis
      by (intro clock_okI) (simp_all add: exe_note_supersede_def mark_of_def update_conv')
  next
    case None
    show ?thesis
    proof (cases ok)
      case True
      from ordered_new_mark [OF I None, of "\<lparr>su_Seq = seq, su_Freed = freed\<rparr>"] None q True show ?thesis
        by (intro clock_okI) (simp_all add: exe_note_supersede_def mark_of_def update_conv' exe_seq_now_def)
    qed (use None assms in \<open>simp add: exe_note_supersede_def mark_of_def\<close>)
  qed
qed

lemma last_link_clock:
  assumes "clock_ok n (s, h)"
  shows "clock_ok n (snd (note_last_link ok i s), h)"
proof (cases "exe_last_link_key i")
  case (Some k)
  with assms supersede_clock [OF assms, of ok k 0] show ?thesis
    by (cases "exe_note_supersede ok k 0 s") (simp add: note_last_link_def)
qed (use assms in \<open>simp add: note_last_link_def\<close>)

lemma forget_root_clock: "same_clock s (forget_root owner k s)"
  by (auto simp: same_clock_def forget_root_def split: option.splits)

lemma drop_row_clock: "same_clock s (drop_row i s)"
  by (auto simp: same_clock_def drop_row_def split: option.splits)

lemma inode_free_clock:
  assumes "clock_ok n (s, h)"
  shows "clock_ok n (guard_inode_free ok i s, h)"
proof (cases i)
  case (Some m)
  define s1 where "s1 = exe_note_freed ok (ki_key m) (map_of (GuardExeUnion (maps s)) (ki_key m) \<noteq> None) s"
  define s2 where "s2 = s1\<lparr>maps := (maps s1)\<lparr>GuardMulticall := AList.delete (ki_key m) (GuardMulticall (maps s1))\<rparr>\<rparr>"
  have "clock_ok n (s1, h)" using supersede_clock [OF assms] assms by (simp add: s1_def exe_note_freed_def)
  then have s2: "clock_ok n (s2, h)" by (rule same_clock_ok [rotated]) (simp add: same_clock_def s2_def)
  have "clock_ok n (forget_root owner k (drop_row i s2), h)" for owner k
    by (rule same_clock_ok [OF forget_root_clock same_clock_ok [OF drop_row_clock s2]])
  with s2 assms show ?thesis
    by (simp only: guard_inode_free_def Some option.case s1_def [symmetric] s2_def [symmetric] Let_def split: if_split) blast
qed (use assms in \<open>simp add: guard_inode_free_def\<close>)

lemma clock_later: "clock_ok n c \<Longrightarrow> clock_ok (Suc n) c"
  using ordered_step [where n' = "Suc n"] by (fastforce simp: clock_ok_def split: prod.splits)

lemma os_step_clock: "os_step c c' \<Longrightarrow> clock_ok n c \<Longrightarrow> Suc n < 2 ^ 64 \<Longrightarrow> clock_ok (Suc n) c'"
proof (induction rule: os_step.induct)
  case (Exec t h s ok img)
  then show ?case using same_clock_ok [OF committed_clock exec_clock] by blast
next
  case (Fork parent h child s okS okT)
  then show ?case using same_clock_ok [OF forked_clock fork_clock] by blast
next
  case (Unmark s h k)
  from Unmark(1) obtain seq lost where "map_of (ExeSeq (maps s)) EXE_SEQ_NOW = Some seq" "map_of (ExeSeq (maps s)) EXE_SEQ_LOST = Some lost"
    and "ordered n seq lost (map_of (exe_stamps s)) (mark_of s) h" by (rule clock_okE)
  then have "clock_ok n (unmark k s, h\<lparr>late := \<lambda>p. late h p - {k}\<rparr>)"
    by (intro clock_okI [OF _ _ _ _ ordered_unmark]) (simp_all add: unmark_def mark_of_def delete_conv')
  then show ?case by (rule clock_later)
next
  case (Exit s h p)
  from Exit(1) have "clock_ok n (s, h\<lparr>alive := alive h - {p}\<rparr>)" by (auto simp: clock_ok_def intro: ordered_exit)
  then show ?case by (rule clock_later)
qed (auto intro: clock_later free_clock applet_clock last_link_clock inode_free_clock same_clock_ok
    simp: guard_inode_unlink_def guard_inode_rename_def)

lemma reachable_clock: "(os_step ^^ n) c c' \<Longrightarrow> attached c \<Longrightarrow> n < 2 ^ 64 \<Longrightarrow> clock_ok n c'"
proof (induction n arbitrary: c')
  case (Suc n)
  then obtain c'' where "(os_step ^^ n) c c''" "os_step c'' c'" by auto
  with Suc show ?case using os_step_clock by simp
qed (simp add: attached_clock)

subsection \<open>The other programs\<close>

lemma same_clock_refl: "same_clock s s"
  by (simp add: same_clock_def)

lemma same_clock_trans: "same_clock a b \<Longrightarrow> same_clock b c \<Longrightarrow> same_clock a c"
  by (simp add: same_clock_def)

lemma writes_same_clock [intro]:
  "same_clock s (mark_tainted ok t res s)" "same_clock s (add_inode_to_guard ok i res s)"
  "same_clock s (note_root_moved i j s)" "same_clock s (evict_inode_from_guard i s)"
  by (auto simp: same_clock_def mark_tainted_def set_taint_def add_inode_to_guard_def note_root_moved_def note_root_moved1_def
      evict_inode_from_guard_def drop_row_def Let_def split: option.splits)

lemma discover_same_clock [intro]: "same_clock s (discover_guarded_parent ok ds s)"
  by (auto simp: discover_guarded_parent_def intro: same_clock_refl split: option.splits)

lemma use_content_same_clock [intro]: "same_clock s (snd (use_content ok t a s))"
  by (auto simp: use_content_def Let_def intro: same_clock_refl)

text \<open>Files may be opened, mapped, read, moved, removed and executed at any point between two steps of
  the order: none of these programs touches it.\<close>

lemma programs_same_clock:
  "same_clock s (snd (guard_file_open okI okT t f s))" "same_clock s (snd (guard_mmap_file okT t f w sh s))"
  "same_clock s (snd (guard_file_permission okT t f w s))" "same_clock s (snd (guard_file_truncate okT t f s))"
  "same_clock s (snd (guard_path_unlink t dir ds s))" "same_clock s (snd (guard_path_rmdir t dir ds s))"
  "same_clock s (snd (guard_path_mkdir ok t dir ds s))"
  "same_clock s (snd (guard_bprm_check_security okT t img traced s))"
  by (auto simp: guard_file_open_def guard_mmap_file_def guard_file_permission_def guard_file_truncate_def use_open_file_def
      guard_path_unlink_def guard_path_rmdir_def guard_path_mkdir_def guard_bprm_check_security_def Let_def
      intro: same_clock_refl same_clock_trans [OF discover_same_clock] split: option.splits)

lemma rename_done_same_clock: "same_clock s (snd (rename_done i victim evict r s))"
  by (auto simp: rename_done_def Let_def intro: same_clock_refl same_clock_trans [OF writes_same_clock(3) drop_row_clock])

lemma rename_same_clock: "same_clock s (snd (guard_path_rename ok t op old np new ex s))"
proof -
  have gen: "same_clock s (snd (case src of
        Some r \<Rightarrow> (case X r of (slot, evict) \<Rightarrow> rename_done i v evict (A slot) s)
      | None \<Rightarrow> (case vr of Some d \<Rightarrow> rename_done i v False (B d) s
          | None \<Rightarrow> (case dst of None \<Rightarrow> (pass, s) | Some d \<Rightarrow> (C d, if P d then add_inode_to_guard ok i d s else s)))))"
    for src :: "nat option" and X :: "nat \<Rightarrow> nat \<times> bool" and vr dst :: "nat option" and A B C P v i
    by (cases src; cases vr; cases dst) (auto simp: rename_done_same_clock intro: same_clock_refl split: prod.splits)
  show ?thesis
  proof (cases "old = []")
    case False
    show ?thesis unfolding guard_path_rename_def Let_def if_not_P [OF False] by (rule gen)
  qed (simp add: guard_path_rename_def same_clock_refl)
qed

subsection \<open>Who is refused\<close>

text \<open>
  C6. An image executed after its file lost its last link has no rights left. Whatever processes do
  in fewer than \<open>2 ^ 64\<close> steps after the guard attached, in any order and with any stamp or mark update
  failing, a process whose exec came when its file was already marked as superseded, itself or
  through a parent, is refused, and the kernel denies it every access to a whitelisted resource. So
  neither a held descriptor of a replaced binary nor a new file that got its inode number inherits
  what the binary was allowed.
\<close>

theorem late_exec_is_denied:
  assumes "attached c" and "(os_step ^^ n) c (s, h)" and "n < 2 ^ 64" and "proc t \<in> alive h"
    and k: "get_task_exe_inode s t = Some k" and "Real k \<in> late h (proc t)"
    and cfg: "res_cfg s (ea_res a) = Some (g, tr)" "rc_Mode g = ModeWhitelist" "none_slot_empty (maps s)" "ea_type a < 32"
    and "\<not> runs_target t a"
  shows "exe_refused s t k \<and> fst (check_and_emit_args s t a)"
proof -
  have r: "exe_refused s t k" by (rule refused_if_late [OF reachable_clock [OF assms(2,1,3)] assms(4,6)])
  with k have "\<not> (\<exists>k. admitted_by_row s t (ea_res a) k)" by (auto simp: admitted_by_row_def)
  with whitelist_allows [OF cfg, of t] assms(11) r show ?thesis by simp
qed

text \<open>
  C33. The newest exec is refused too. The mark takes the counter as it is, and the process that
  executed last has that very number as its stamp: if the file it runs then loses its last link, it
  is refused although its exec came first.
\<close>

theorem newest_exec_is_refused:
  assumes "map_of (ExeSeq (maps s)) EXE_SEQ_NOW = Some seq" and "d_inode ds = Some i" and "is_reg i" and "ki_nlink i = 1"
    and "Real k = ki_key i" and "map_of (GuardExeUnion (maps s)) (ki_key i) \<noteq> None" and "\<not> exe_is_superseded s k"
  shows "\<not> exe_refused (guard_bprm_committed True t img s) t k \<and>
     exe_refused (snd (guard_inode_unlink True ds (guard_bprm_committed True t img s))) t k"
proof -
  let ?s = "guard_bprm_committed True t img s"
  have st: "map_of (exe_stamps ?s) (tk_tgid t) = Some \<lparr>es_seq = seq + 1, es_start = tk_start t, es_tag = mcTagNone\<rparr>"
    and q: "map_of (ExeSeq (maps ?s)) EXE_SEQ_NOW = Some (seq + 1)" and m: "map_of (ExeSuperseded (maps ?s)) (Real k) = None"
    using assms(1,7) committed_clock [of True t s img] by (simp_all add: same_clock_def exe_stamp_exec_def update_conv exe_is_superseded_def)
  have u: "GuardExeUnion (maps ?s) = GuardExeUnion (maps s)"
    by (simp add: guard_bprm_committed_def exe_stamp_exec_def assms(1) Let_def split: option.splits)
  have "snd (guard_inode_unlink True ds ?s) = snd (exe_note_supersede True (ki_key i) 0 ?s)"
    using assms(2-4,6) u by (auto simp: guard_inode_unlink_def note_last_link_def exe_last_link_key_def split: prod.splits)
  with st q m assms(5) show ?thesis
    by (simp add: exe_refused_def exe_note_supersede_def exe_seq_now_def update_conv)
qed

subsection \<open>Examples\<close>

text \<open>A whitelisted binary is deleted, then executed once more through a descriptor.\<close>

definition demo_binary :: kinode where
  "demo_binary = \<lparr>ki_id = 1, ki_key = demo_file, ki_sb = Some 5, ki_btrfs = False, ki_rdev = None, ki_mode = 0x81ed, ki_uid = 0, ki_nlink = 1\<rparr>"

definition demo_attached :: kernel where
  "demo_attached = demo_kernel (demo_world\<lparr>GuardExeUnion := [(demo_file, 1)]\<rparr>)"

definition demo_deleted :: kernel where
  "demo_deleted = snd (guard_inode_unlink True [\<lparr>de_name = ''cat'', de_inode = Some demo_binary\<rparr>] demo_attached)"

definition demo_rerun :: kernel where
  "demo_rerun = guard_bprm_committed True (demo_task 7 demo_file) (Some demo_file) demo_deleted"

definition demo_history :: history where
  "demo_history = \<lparr>alive = {(7, 1)}, late = (\<lambda>_. {})\<rparr>"

lemma demo_deleted_eq:
  "demo_deleted = demo_attached\<lparr>maps := (maps demo_attached)\<lparr>ExeSuperseded := [(demo_file, \<lparr>su_Seq = 0, su_Freed = 0\<rparr>)]\<rparr>\<rparr>"
  by (simp add: demo_deleted_def demo_attached_def demo_kernel_def demo_world_def guard_inode_unlink_def note_last_link_def d_inode_def
      exe_last_link_key_def demo_binary_def is_reg_def S_IFMT_def S_IFREG_def exe_note_supersede_def exe_seq_now_def EXE_SEQ_NOW_def)

lemma demo_rerun_cfg: "res_cfg demo_rerun (ea_res demo_read) = Some (demo_config ModeWhitelist, res_trees demo_rerun 1)"
  by (simp add: demo_rerun_def demo_deleted_eq demo_attached_def demo_kernel_def res_cfg_def demo_read_def demo_config_def
      guard_bprm_committed_def exe_stamp_exec_def EXE_SEQ_NOW_def)

lemma demo_file_Real: "Real demo_file = demo_file"
  by code_simp

theorem late_exec_is_denied_witness:
  "exe_refused demo_rerun (demo_task 7 demo_file) demo_file \<and> fst (check_and_emit_args demo_rerun (demo_task 7 demo_file) demo_read)"
proof (rule late_exec_is_denied)
  let ?h = "demo_history\<lparr>late := (late demo_history)(proc (demo_task 7 demo_file) := dom (mark_of demo_deleted))\<rparr>"
  show "attached (demo_attached, demo_history)"
    by (simp add: attached_def demo_attached_def demo_kernel_def demo_history_def demo_world_def EXE_SEQ_NOW_def EXE_SEQ_LOST_def)
  have "os_step (demo_attached, demo_history) (demo_deleted, demo_history)" unfolding demo_deleted_def by (rule os_step.Unlink)
  moreover have "os_step (demo_deleted, demo_history) (demo_rerun, ?h)"
    unfolding demo_rerun_def by (rule os_step.Exec) (simp add: demo_history_def proc_def demo_task_def)
  ultimately show "(os_step ^^ 2) (demo_attached, demo_history) (demo_rerun, ?h)" by (auto simp: numeral_2_eq_2)
  show "(2 :: nat) < 2 ^ 64" by simp
  show "proc (demo_task 7 demo_file) \<in> alive ?h" by (simp add: demo_history_def proc_def demo_task_def)
  show "get_task_exe_inode demo_rerun (demo_task 7 demo_file) = Some demo_file" by code_simp
  show "Real demo_file \<in> late ?h (proc (demo_task 7 demo_file))" by (simp add: demo_file_Real demo_deleted_eq mark_of_def)
  show "none_slot_empty (maps demo_rerun)"
    by (simp add: demo_rerun_def demo_deleted_eq demo_attached_def demo_kernel_def demo_world_def none_slot_empty_def GUARD_RES_NONE_def
        guard_bprm_committed_def exe_stamp_exec_def EXE_SEQ_NOW_def)
qed (rule demo_rerun_cfg, simp_all add: demo_config_def demo_read_def runs_target_def demo_task_def)

theorem newest_exec_is_refused_witness:
  "exe_refused (snd (guard_inode_unlink True [\<lparr>de_name = ''cat'', de_inode = Some demo_binary\<rparr>]
     (guard_bprm_committed True (demo_task 7 demo_file) (Some demo_file) demo_attached))) (demo_task 7 demo_file) demo_file"
  by (rule newest_exec_is_refused [where seq = 0 and i = demo_binary, THEN conjunct2])
    (simp_all add: d_inode_def demo_file_Real exe_is_superseded_def demo_binary_def is_reg_def S_IFMT_def S_IFREG_def
      demo_attached_def demo_kernel_def demo_world_def EXE_SEQ_NOW_def)

end
