(* ===== verification/Taint_Flow.thy ===== *)
theory Taint_Flow
  imports Exec_Order
begin

text \<open>
  Where guarded content goes: the member rows a refresh leaves in the kernel, the taint of processes
  that open files, fork and exec, and what an attach to such a process asks of the caller.
\<close>

subsection \<open>Member rows\<close>


text \<open>The engine's record of the member rows is true.\<close>

definition members_recorded :: "world \<Rightarrow> bool" where
  "members_recorded w = (fst ` set (GuardTaintMembers w) = set (e_memberRows w))"







text \<open>The parts of a refresh that leave the member rows and their record alone.\<close>

lemma members_recorded_upd [simp]:
  "members_recorded (step_tick w) = members_recorded w" "members_recorded (GuardExeActions_update f w) = members_recorded w"
  "members_recorded (ResConfigs_update f2 w) = members_recorded w" "members_recorded (e_sets_update f3 w) = members_recorded w"
  "members_recorded (e_setRows_update f4 w) = members_recorded w"
  by (simp_all add: members_recorded_def step_tick_def)


lemma e_sets_tick [simp]: "e_sets (step_tick w) = e_sets w"
  by (simp add: step_tick_def)


definition planned_members :: "world \<Rightarrow> (nat, resInfo) gomap \<Rightarrow> bool" where
  "planned_members w info = (\<exists>used. fst ` set (GuardTaintMembers w) = set (planMemberRows (e_sets w) info used))"


lemma planned_members_upd [simp]:
  "planned_members (step_tick w) info = planned_members w info" "planned_members (GuardExeActions_update f w) info = planned_members w info"
  "planned_members (GuardExeUnion_update f2 w) info = planned_members w info"
  "planned_members (e_unionRows_update f3 w) info = planned_members w info"
  by (simp_all add: planned_members_def step_tick_def)



subsection \<open>What a slot covers\<close>






subsection \<open>Steps\<close>










subsection \<open>The invariant\<close>

































subsection \<open>Who may attach\<close>


lemma tainted_slot:
  assumes "map_of (guard_tainted_pids s) (tk_tgid child) = Some v"
  shows "ptrace_slot s child mode = Some v \<or> ptrace_slot s child mode = Some resGlobal"
  using assms by (auto simp: ptrace_slot_def Let_def split: option.splits)


text \<open>
  C32. The taint of a process is lost when the process id it reuses is let go. The program that runs
  when the kernel frees a task deletes the taint of its process id, without looking whose it is: if
  the id was taken over by then, the new owner loses its taint, and anyone may
  attach to it. The stamp of the same id is kept, because for that the start times are compared.
\<close>

theorem reused_pid_loses_taint:
  assumes "tk_pid old = tk_tgid old" and "tk_tgid child = tk_tgid old" and "tk_start child \<noteq> tk_start old"
    and "map_of (guard_tainted_pids s) (tk_tgid child) = Some v" and "map_of (exe_stamps s) (tk_tgid child) = Some st" and "es_start st = tk_start child"
    and "\<And>k. get_task_exe_inode s child = Some k \<Longrightarrow> \<not> is_inspector s k"
    and "\<And>k u. get_task_exe_inode s child = Some k \<Longrightarrow> map_of (GuardExeUnion (maps s)) k = Some u \<Longrightarrow> \<not> is_readonly_mode s u"
  shows "ptrace_slot s child mode \<noteq> None \<and> guard_ptrace_access_check t child mode (guard_task_free old s) = pass \<and>
     map_of (exe_stamps (guard_task_free old s)) (tk_tgid child) = Some st"
proof -
  let ?s = "guard_task_free old s"
  have m: "maps ?s = maps s" "exe_stamps ?s = exe_stamps s" and t: "map_of (guard_tainted_pids ?s) (tk_tgid child) = None"
    using assms(1,2,3,5,6) by (simp_all add: guard_task_free_def exe_stamp_free_def delete_conv')
  then have "get_task_exe_inode ?s child = get_task_exe_inode s child" by (simp add: get_task_exe_inode_def exe_tag_bits_def cong: if_cong)
  moreover have "is_readonly_mode ?s u = is_readonly_mode s u" for u
    using assms(1) by (simp add: is_readonly_mode_def res_cfg_def m(1)) (simp add: guard_task_free_def exe_stamp_free_def split: option.splits)
  ultimately have "ptrace_slot ?s child mode = None" using assms(7,8) m t by (auto simp: ptrace_slot_def is_inspector_def split: option.splits)
  with tainted_slot [OF assms(4), of mode] m assms(5) show ?thesis by (auto simp: guard_ptrace_access_check_def)
qed

subsection \<open>Examples\<close>

text \<open>The rows a refresh of the two demonstration guards leaves, and a process that reads a file of the
  first.\<close>

definition demo_rows :: "(rkey, u8) gomap" where
  "demo_rows = [((1, demo_file), GUARD_ALLOW), ((2, demo_file), GUARD_ALLOW_ROOT), ((7, demo_file), GUARD_ALLOW_ROOT),
     ((0, demo_file), GUARD_ALLOW_ROOT)]"

definition demo_members :: "(nat \<times> nat, unit) gomap" where
  "demo_members = [((7, 1), ()), ((7, 2), ())]"


definition demo_vault :: kernel where
  "demo_vault = demo_kernel (demo_world\<lparr>GuardExeActions := demo_rows, GuardTaintMembers := demo_members,
     GuardInodes := [(\<lparr>Dev = 5, Ino = 100\<rparr>, 1)]\<rparr>)"







text \<open>Process 7 of start time 1 is freed after a new process 7 of start time 2 was tainted.\<close>

definition demo_reused :: kernel where
  "demo_reused = demo_vault\<lparr>guard_tainted_pids := [(7, 1)], exe_stamps := [(7, \<lparr>es_seq = 1, es_start = 2, es_tag = mcTagNone\<rparr>)]\<rparr>"

theorem reused_pid_loses_taint_witness:
  "guard_ptrace_access_check (demo_task 8 stranger) ((demo_task 7 demo_file)\<lparr>tk_start := 2\<rparr>) 2 (guard_task_free (demo_task 7 demo_file) demo_reused) = pass"
proof -
  let ?c = "(demo_task 7 demo_file)\<lparr>tk_start := 2\<rparr>"
  have "ptrace_slot demo_reused ?c 2 \<noteq> None \<and>
      guard_ptrace_access_check (demo_task 8 stranger) ?c 2 (guard_task_free (demo_task 7 demo_file) demo_reused) = pass \<and>
      map_of (exe_stamps (guard_task_free (demo_task 7 demo_file) demo_reused)) (tk_tgid ?c) = Some \<lparr>es_seq = 1, es_start = 2, es_tag = mcTagNone\<rparr>"
    by (rule reused_pid_loses_taint)
      (simp_all add: demo_task_def demo_reused_def demo_vault_def demo_kernel_def demo_world_def is_inspector_def is_readonly_mode_def res_cfg_def)
  then show ?thesis by blast
qed

end
