(* ===== verification/Gate_Walk.thy ===== *)
theory Gate_Walk
  imports Gate_Facts
begin

text \<open>
  Which files the kernel takes to be guarded (\<open>is_guarded_access\<close> and the two walks it uses): the rows
  of the inode map say where to look, the watch root on the way up says whether it counts.
\<close>

subsection \<open>Paths\<close>

definition inodes_of :: "dentry list \<Rightarrow> kinode list" where
  "inodes_of ds = map (\<lambda>d. the (de_inode d)) ds"

text \<open>A path as the kernel keeps it: every dentry has its inode, no inode appears twice, and all are on
  one superblock.\<close>

definition proper_path :: "u64 \<Rightarrow> dentry list \<Rightarrow> bool" where
  "proper_path sb ds = (list_all (\<lambda>d. de_inode d \<noteq> None) ds \<and> distinct (map ki_id (inodes_of ds)) \<and>
     list_all (\<lambda>i. ki_sb i = Some sb) (inodes_of ds))"

lemma proper_path_Cons:
  "proper_path sb (d # ds) \<longleftrightarrow> (\<exists>i. de_inode d = Some i \<and> ki_sb i = Some sb \<and> ki_id i \<notin> ki_id ` set (inodes_of ds)) \<and> proper_path sb ds"
  by (auto simp: proper_path_def inodes_of_def)

lemma inodes_of_simps [simp]: "inodes_of [] = []" "inodes_of (d # ds) = the (de_inode d) # inodes_of ds"
  by (simp_all add: inodes_of_def)

lemma root_walk_iff:
  assumes "proper_path sb ds" and "length ds \<le> n" and "ki_id f \<notin> ki_id ` set (inodes_of ds)"
  shows "root_walk want (Some f) n ds \<longleftrightarrow> want \<in> (\<lambda>i. Ino (ki_key i)) ` set (inodes_of ds)"
  using assms
proof (induction ds arbitrary: n)
  case Nil
  then show ?case by (cases n) simp_all
next
  case (Cons d ds)
  then obtain m i where n: "n = Suc m" and d: "de_inode d = Some i" by (cases n) (auto simp: proper_path_Cons)
  with Cons have "root_walk want (Some f) m ds \<longleftrightarrow> want \<in> (\<lambda>i. Ino (ki_key i)) ` set (inodes_of ds)" by (auto simp: proper_path_Cons)
  with Cons.prems n d show ?case by (auto simp: same_inode_def)
qed

text \<open>The farthest row of a path: the last inode that has one.\<close>

definition has_row :: "kernel \<Rightarrow> kinode \<Rightarrow> bool" where
  "has_row s i = (map_of (GuardInodes (maps s)) (ki_key i) \<noteq> None)"

fun last_row :: "kernel \<Rightarrow> kinode list \<Rightarrow> kinode option" where
  "last_row s [] = None"
| "last_row s (i # is) = (case last_row s is of Some x \<Rightarrow> Some x | None \<Rightarrow> if has_row s i then Some i else None)"

lemma last_row_some: "last_row s is = Some i \<Longrightarrow> i \<in> set is \<and> has_row s i"
  by (induction "is") (auto split: option.splits if_splits)

lemma last_row_none: "last_row s is = None \<longleftrightarrow> \<not> list_ex (has_row s) is"
  by (induction "is") (auto split: option.splits)

lemma last_row_at:
  assumes "has_row s r" and "\<not> list_ex (has_row s) ab"
  shows "last_row s (be @ r # ab) = Some r"
  using assms by (induction be) (simp_all add: last_row_none [THEN iffD2])

lemma farthest_last:
  assumes "proper_path sb ds" and "length ds \<le> n" and "ki_id p \<notin> ki_id ` set (inodes_of ds)"
  shows "map_option snd (farthest s p i n ds found) = (case last_row s (inodes_of ds) of
     None \<Rightarrow> map_option snd found | Some x \<Rightarrow> Some (Ino (ki_key x), the (map_of (GuardInodes (maps s)) (ki_key x))))"
  using assms
proof (induction ds arbitrary: n i found)
  case Nil
  then show ?case by (cases n) (simp_all)
next
  case (Cons d ds)
  then obtain m a where n: "n = Suc m" and d: "de_inode d = Some a" by (cases n) (auto simp: proper_path_Cons)
  let ?found = "case read_inode_guard s (Some a) of None \<Rightarrow> found | Some res \<Rightarrow> Some (Suc i, Ino (ki_key a), res)"
  have "map_option snd (farthest s p (Suc i) m ds ?found) = (case last_row s (inodes_of ds) of
      None \<Rightarrow> map_option snd ?found | Some x \<Rightarrow> Some (Ino (ki_key x), the (map_of (GuardInodes (maps s)) (ki_key x))))"
    using Cons n by (auto simp: proper_path_Cons)
  moreover have "ki_id a \<noteq> ki_id p" using Cons.prems(3) d by auto
  ultimately show ?case using d n
    by (auto simp: has_row_def read_inode_guard_def split: option.splits)
qed

subsection \<open>Rows of one tree\<close>

text \<open>The state of the maps along a path: the resource \<open>res\<close> is live, recursive and without a depth
  limit, its root is recorded and has its row, no other resource has a row on the path, nothing
  above the root has one, and only the root has the root's inode number.\<close>

definition one_tree :: "kernel \<Rightarrow> nat \<Rightarrow> u64 \<Rightarrow> GuardInodeKey \<Rightarrow> dentry list \<Rightarrow> bool" where
  "one_tree s res sb root ds =
     ((case res_cfg s res of None \<Rightarrow> False
       | Some (c, t) \<Rightarrow> rc_Root c = root \<and> rt_root_sbdev t = sb \<and> rt_recursive t \<and> rt_depth t = 0) \<and>
      Ino root \<noteq> 0 \<and> sb \<noteq> 0 \<and> map_of (guard_fs_sbdevs s) sb \<noteq> None \<and> map_of (GuardInodes (maps s)) root = Some res \<and>
      list_all (\<lambda>i. map_of (GuardInodes (maps s)) (ki_key i) \<in> {None, Some res}) (inodes_of ds) \<and>
      list_all (\<lambda>i. \<not> has_row s i) (tl (dropWhile (\<lambda>i. ki_key i \<noteq> root) (inodes_of ds))) \<and>
      list_all (\<lambda>i. Ino (ki_key i) = Ino root \<longrightarrow> ki_key i = root) (inodes_of ds))"

lemma dropWhile_at:
  assumes "x \<in> set xs" and "P x"
  shows "\<exists>be y ab. xs = be @ y # ab \<and> P y \<and> dropWhile (\<lambda>z. \<not> P z) xs = y # ab"
proof -
  from assms have "\<exists>x \<in> set xs. P x" by blast
  from split_list_first_prop [OF this] obtain ys y zs where "xs = ys @ y # zs" "P y" "\<forall>z \<in> set ys. \<not> P z" by blast
  then have "xs = ys @ y # zs \<and> P y \<and> dropWhile (\<lambda>z. \<not> P z) xs = y # zs" by simp
  then show ?thesis by blast
qed

lemma one_treeD:
  assumes "one_tree s res sb root ds"
  obtains c t where "res_cfg s res = Some (c, t)" "rc_Root c = root" "rt_root_sbdev t = sb" "rt_recursive t" "rt_depth t = 0"
    "Ino root \<noteq> 0" "sb \<noteq> 0" "map_of (guard_fs_sbdevs s) sb \<noteq> None" "map_of (GuardInodes (maps s)) root = Some res"
  using assms by (auto simp: one_tree_def split: option.splits)

lemma one_tree_only:
  assumes "one_tree s res sb root ds" and "i \<in> set (inodes_of ds)"
  shows "has_row s i \<Longrightarrow> map_of (GuardInodes (maps s)) (ki_key i) = Some res" and "Ino (ki_key i) = Ino root \<longleftrightarrow> ki_key i = root"
  using assms by (auto simp: one_tree_def list_all_iff has_row_def)

lemma rooted_iff:
  assumes T: "one_tree s res sb root ds" and "proper_path sb ds" and ds: "ds = d # ds'" and f: "de_inode d = Some f" and "length ds' \<le> bound"
  shows "root_in_chain s ds (Some f) bound res \<longleftrightarrow> root \<in> ki_key ` set (inodes_of ds)"
proof -
  from assms(2) ds f have pp: "proper_path sb ds'" "ki_id f \<notin> ki_id ` set (inodes_of ds')" and sb: "sb_dev f = sb"
    by (auto simp: proper_path_Cons sb_dev_def)
  from T obtain c t where cfg: "res_cfg s res = Some (c, t)" "rc_Root c = root" "rt_root_sbdev t = sb" "Ino root \<noteq> 0" "sb \<noteq> 0" by (rule one_treeD)
  have walk: "root_walk (Ino root) (Some f) bound ds' \<longleftrightarrow> root \<in> ki_key ` set (inodes_of ds')"
    unfolding root_walk_iff [OF pp(1) assms(5) pp(2)]
  proof
    assume "Ino root \<in> (\<lambda>i. Ino (ki_key i)) ` set (inodes_of ds')"
    then obtain i where "i \<in> set (inodes_of ds')" "Ino (ki_key i) = Ino root" by auto
    with one_tree_only(2) [OF T, of i] ds show "root \<in> ki_key ` set (inodes_of ds')" by auto
  qed auto
  have "root_in_chain s ds (Some f) bound res \<longleftrightarrow> ki_key f = root \<or> root_walk (Ino root) (Some f) bound ds'"
    using cfg sb ds by (simp add: root_in_chain_def)
  also have "\<dots> \<longleftrightarrow> root \<in> ki_key ` set (inodes_of ds)" unfolding walk using ds f by auto
  finally show ?thesis .
qed

lemma ancestor_iff:
  assumes "one_tree s res sb root ds" and "proper_path sb ds" and ds: "ds = d # p # ds'" "length ds' \<le> 16"
    and no: "\<not> has_row s (the (de_inode d))" "\<not> has_row s (the (de_inode p))"
  shows "guarded_ancestor_within_limit s (p # ds') 16 = (if root \<in> ki_key ` set (inodes_of ds) then Some res else None)"
proof -
  from assms(2) ds obtain i where i: "de_inode p = Some i" "ki_sb i = Some sb" "ki_id i \<notin> ki_id ` set (inodes_of ds')" and pp: "proper_path sb ds'"
    by (auto simp: proper_path_Cons)
  from assms(1) obtain c t where cfg: "res_cfg s res = Some (c, t)" "rc_Root c = root" "rt_recursive t" "rt_depth t = 0"
    "map_of (guard_fs_sbdevs s) sb \<noteq> None" and rr: "map_of (GuardInodes (maps s)) root = Some res" by (rule one_treeD)
  have notroot: "ki_key (the (de_inode d)) \<noteq> root" "ki_key i \<noteq> root" using no rr i by (auto simp: has_row_def)
  have sub: "root \<in> ki_key ` set (inodes_of ds) \<longleftrightarrow> root \<in> ki_key ` set (inodes_of ds')" using notroot ds i by auto
  note far = farthest_last [OF pp ds(2) i(3), of s 0 None]
  have only: "map_of (GuardInodes (maps s)) (ki_key x) = Some res" if "x \<in> set (inodes_of ds')" "has_row s x" for x
    using one_tree_only(1) [OF assms(1), of x] that ds by simp
  show ?thesis
  proof (cases "last_row s (inodes_of ds')")
    case None
    then have "root \<notin> ki_key ` set (inodes_of ds')" using rr by (auto simp: last_row_none list_ex_iff has_row_def)
    with far None sub i show ?thesis by (simp add: guarded_ancestor_within_limit_def d_inode_def)
  next
    case (Some x)
    note x = last_row_some [OF Some]
    have root: "ki_key x = root" if r: "root \<in> ki_key ` set (inodes_of ds')"
    proof -
      from r obtain z where "z \<in> set (inodes_of ds')" "ki_key z = root" by auto
      from dropWhile_at [of z _ "\<lambda>z. ki_key z = root", OF this] obtain be y ab where b: "inodes_of ds' = be @ y # ab" "ki_key y = root"
        "dropWhile (\<lambda>z. ki_key z \<noteq> root) (inodes_of ds') = y # ab" by blast
      have "dropWhile (\<lambda>z. ki_key z \<noteq> root) (inodes_of ds) = y # ab" using ds notroot i b(3) by simp
      then have "\<not> list_ex (has_row s) ab" using assms(1) by (auto simp: one_tree_def list_all_iff list_ex_iff)
      moreover have "has_row s y" using rr b(2) by (simp add: has_row_def)
      ultimately have "last_row s (inodes_of ds') = Some y" unfolding b(1) by (rule last_row_at [rotated])
      with Some b(2) show ?thesis by simp
    qed
    have ino: "Ino (ki_key x) = Ino root \<longleftrightarrow> root \<in> ki_key ` set (inodes_of ds')"
      using one_tree_only(2) [OF assms(1), of x] x ds root by auto
    from far Some only x obtain st where "farthest s i 0 16 ds' None = Some (st, Ino (ki_key x), res)" by auto
    with cfg i ino sub show ?thesis
      by (simp add: guarded_ancestor_within_limit_def d_inode_def sb_unguarded_def)
  qed
qed

text \<open>
  C7. The kernel takes a file to be guarded exactly if it is the watch root or lies below it. On a path
  of at most 18 components whose rows belong to one recursive resource, it does not matter which of
  them has a row of its own: a file without one, in directories without one, is found from above,
  and a row left over from a file that is gone does not make its inode guarded outside the tree.
\<close>

theorem guarded_iff_below_root:
  assumes T: "one_tree s res sb root ds" and pp: "proper_path sb ds" and "ds \<noteq> []" and len: "length ds \<le> 18"
  shows "is_guarded_access s ds (d_inode ds) = (if root \<in> ki_key ` set (inodes_of ds) then Some res else None)"
proof -
  from assms(2,3) obtain d ds' f where ds: "ds = d # ds'" "de_inode d = Some f" by (cases ds) (auto simp: proper_path_Cons)
  have f: "d_inode ds = Some f" "the (de_inode d) = f" using ds by (simp_all add: d_inode_def)
  have rooted: "root_in_chain s ds (Some f) 32 res \<longleftrightarrow> root \<in> ki_key ` set (inodes_of ds)"
    by (rule rooted_iff [OF T pp ds]) (use len ds in simp)
  have own: "read_inode_guard s (Some f) = (if has_row s f then Some res else None)"
    using one_tree_only(1) [OF T, of f] ds by (simp add: read_inode_guard_def has_row_def)
  from T have rr: "map_of (GuardInodes (maps s)) root = Some res" by (rule one_treeD)
  show ?thesis
  proof (cases "has_row s f")
    case True
    then show ?thesis by (simp add: is_guarded_access_def f own rooted)
  next
    case no: False
    then have nf: "ki_key f \<noteq> root" using rr by (auto simp: has_row_def)
    show ?thesis
    proof (cases ds')
      case Nil
      with no nf f ds show ?thesis by (simp add: is_guarded_access_def own)
    next
      case (Cons p ps)
      with pp ds obtain i where i: "de_inode p = Some i" "ki_id i \<noteq> ki_id f" by (auto simp: proper_path_Cons)
      have parent: "read_inode_guard s (Some i) = (if has_row s i then Some res else None)"
        using one_tree_only(1) [OF T, of i] ds Cons i by (simp add: read_inode_guard_def has_row_def)
      have di: "d_inode (tl ds) = Some i" "\<not> same_inode (Some i) (Some f)" using ds Cons i by (simp_all add: d_inode_def same_inode_def)
      have two: "\<not> length ds < 2" using ds Cons by simp
      show ?thesis
      proof (cases "has_row s i")
        case True
        with no two di show ?thesis by (simp add: is_guarded_access_def f own parent rooted)
      next
        case False
        have "guarded_ancestor_within_limit s (p # ps) 16 = (if root \<in> ki_key ` set (inodes_of ds) then Some res else None)"
          by (rule ancestor_iff [OF T pp, of d]) (use ds(1) Cons len no False i f(2) in simp_all)
        moreover have "is_guarded_access s ds (d_inode ds) = guarded_ancestor_within_limit s (tl ds) 16"
          using no two di False by (simp add: is_guarded_access_def f own parent ANCESTOR_WALK_def)
        moreover have "tl ds = p # ps" using ds(1) Cons by simp
        ultimately show ?thesis by simp
      qed
    qed
  qed
qed

subsection \<open>Example\<close>

definition demo_node :: "nat \<Rightarrow> u64 \<Rightarrow> dentry" where
  "demo_node n ino = \<lparr>de_name = ''x'', de_inode = Some \<lparr>ki_id = n, ki_key = \<lparr>Dev = 5, Ino = ino\<rparr>, ki_sb = Some 5, ki_btrfs = False,
     ki_rdev = None, ki_mode = 0x41c0, ki_uid = 0, ki_nlink = 1\<rparr>\<rparr>"

text \<open>A file three levels below the watch root, which alone has a row.\<close>

definition demo_path :: "dentry list" where
  "demo_path = [demo_node 1 11, demo_node 2 12, demo_node 3 13, demo_node 4 100, demo_node 5 2]"

definition demo_tree :: kernel where
  "demo_tree = demo_kernel (demo_world\<lparr>GuardInodes := [(\<lparr>Dev = 5, Ino = 100\<rparr>, 1)]\<rparr>)"

theorem guarded_iff_below_root_witness:
  "is_guarded_access demo_tree demo_path (d_inode demo_path) = Some 1"
proof -
  have "is_guarded_access demo_tree demo_path (d_inode demo_path) =
      (if \<lparr>Dev = 5, Ino = 100\<rparr> \<in> ki_key ` set (inodes_of demo_path) then Some 1 else None)"
    by (rule guarded_iff_below_root [where sb = 5])
      (simp_all add: one_tree_def proper_path_def demo_path_def demo_node_def demo_tree_def demo_kernel_def demo_config_def res_cfg_def has_row_def)
  then show ?thesis by (simp add: demo_path_def demo_node_def)
qed

end
