(* ===== verification/Spec2Isabelle.thy ===== *)
theory Spec2Isabelle
  imports Config_Facts Temp_Roundtrip Prune_Facts Ledger_Facts Taint_Flow Gate_Walk
begin

text \<open>
  A verification development for \<open>app-listener\<close>, an eBPF file guard for Linux.

  \<^bold>\<open>The program.\<close> A daemon reads a configuration of guarded directory trees and, per tree, of the
  binaries that may use it and for which events. It compiles this policy into BPF maps; BPF programs on
  the kernel's LSM hooks look every access up in them and deny what no row allows. The daemon keeps the
  maps right while binaries are replaced on disk, while policies are edited and while temporary grants
  come and go, and notes in a small database which binaries a user has confirmed. A process that has
  read guarded content is tainted, so that only the binaries the tree trusts may attach to it.

  \<^bold>\<open>How it is modelled.\<close> Go and C functions keep their names. Go structs are records, Go maps are
  association lists, errors are the left side of a sum, machine words are \<open>word\<close>s. What is not in the
  repository or is the operating system's answer (file system, clock, hashes, process data, SQLite) is
  an argument: \<open>fs\<close> for the parser, \<open>kern\<close> for confined opens, \<open>system\<close> for the guard. The last is a
  function of time: every question may get another answer. Every operation on a BPF map may fail: the
  record \<open>world\<close> holds the maps, the engine and the guards, counts the operations (\<open>tick\<close>) and has an oracle \<open>faults\<close>
  that says which of them fail. An operation of the daemon (type \<open>act\<close>) maps a world to a result and the
  world it leaves, so that what an error leaves half-done is visible. A BPF program is a function on the
  record \<open>kernel\<close>, whose field \<open>maps\<close> is the daemon's world; its map updates take a flag that says
  whether they succeed.

  \<^bold>\<open>Theories and sources\<close> (paths below \<open>src/internal\<close>).

  \<^item> \<open>Go_Prelude\<close>: \<open>strings\<close>, \<open>path/filepath\<close>, \<open>bufio.Scanner\<close>, maps and results, as the sources use them.
  \<^item> \<open>Event_Types\<close>: \<open>infrastructure/event.go\<close>, the event records of both ring buffers, \<open>eventMask\<close> of \<open>guard/guard.go\<close>.
  \<^item> \<open>Confined_Open\<close>: \<open>infrastructure/confined.go\<close>, \<open>binaryentry.go\<close>.
  \<^item> \<open>Config_Lines\<close>, \<open>Daemon_Config\<close>: \<open>daemonconfig/daemonconfig.go\<close>, \<open>settings.go\<close>; facts in \<open>Config_Facts\<close>.
  \<^item> \<open>Exe_Key\<close>: \<open>guard/multicall.go\<close>, the identity of a binary and of an applet of a multicall binary.
  \<^item> \<open>Taint_Plan\<close>: the pure part of \<open>guard/taintset.go\<close>.
  \<^item> \<open>Guard_State\<close>: the maps, the state of the engine and of a guard, the operations of the daemon and
    rules to reason about them (\<open>run\<close>, \<open>keeps\<close>).
  \<^item> \<open>Guard_Engine\<close>: \<open>guard/engine.go\<close>, \<open>taintset.go\<close>, \<open>inspectors.go\<close>; facts in \<open>Engine_Facts\<close>.
  \<^item> \<open>Guard_Trust\<close>: \<open>guard/trust.go\<close>, \<open>trust_update.go\<close> and the drop of a mark of \<open>supersede.go\<close>.
  \<^item> \<open>Guard_Policy\<close>: \<open>guard/policy.go\<close> and the rows of a binary of \<open>guard.go\<close>; facts in \<open>Row_Invariants\<close>,
    \<open>Refresh_Frame\<close> and \<open>Policy_Facts\<close>.
  \<^item> \<open>Guard_Resync\<close>: \<open>guard/hashshare.go\<close>, \<open>linkresync.go\<close>, \<open>sweepshare.go\<close> and the re-sync of \<open>guard.go\<close>.
  \<^item> \<open>Guard_Supersede\<close>: \<open>guard/supersede.go\<close> and the in-place verifier of \<open>guard.go\<close>; facts in
    \<open>Supersede_Facts\<close> and \<open>Prune_Facts\<close>.
  \<^item> \<open>Temp_Grant\<close>: \<open>guard/tempgrant.go\<close>; facts in \<open>Temp_Facts\<close> and \<open>Temp_Roundtrip\<close>.
  \<^item> \<open>Binary_Ledger\<close>: \<open>binledger/binledger.go\<close>, \<open>editauth.go\<close>, \<open>hashcache.go\<close>; refinement in \<open>Ledger_Facts\<close>.
  \<^item> \<open>Kernel_Identity\<close>: \<open>bpf/exe_supersede.h\<close> and the process identity of \<open>guard/bpf/guard.bpf.c\<close>.
  \<^item> \<open>Kernel_Gate\<close>: the decision of an access in \<open>guard.bpf.c\<close>; \<open>Kernel_Hooks\<close>: its LSM and
    tracepoint programs and \<open>bpf/prctl_gate.h\<close>. Facts in \<open>Gate_Facts\<close>, \<open>Gate_Walk\<close>, \<open>Exec_Order\<close> and \<open>Taint_Flow\<close>.

  \<^bold>\<open>Interfaces.\<close> \<open>bpf_map\<close> is what a map promises to the code that writes it (a put or delete changes
  the one row or fails), interpreted on each of the maps; \<open>refresh_frame\<close> is a part of the state the
  refreshes of the shared views leave alone, interpreted on the marks, the guards, the event masks
  and the times of first sight; \<open>line_loop\<close> is an invariant that every configuration line keeps,
  interpreted on well-formedness, confinement to the vault and the kernel's limits.

  \<^bold>\<open>What is shown.\<close>

  \<^item> Configuration (\<open>Config_Facts\<close>): whatever parses has disjoint guarded roots, scoped whitelists,
    validated binaries, trees inside their vault, values within the kernel's limits; pending trees are
    never lost. Two gaps are proved as such: the root directory nests with everything, and a watch line
    before the section's path escapes the vault.
  \<^item> Opens (\<open>Confined_Open\<close>): no directory component below a user-controlled directory leads out of it.
  \<^item> Identity (\<open>Exe_Key\<close>): two multicall paths share a key exactly if file and applet agree.
  \<^item> Shared views (\<open>Taint_Plan\<close>, \<open>Engine_Facts\<close>): the derived rows are exact after a successful refresh, never
    more generous than a writable resource, and no refresh touches a resource's own rows; a set
    write that fails half-way leaves rows no record shows.
  \<^item> Edits and grants (\<open>Policy_Facts\<close>, \<open>Temp_Facts\<close>, \<open>Temp_Roundtrip\<close>): for every pattern of failing map
    operations, an edit admits nobody outside both lists, a grant allows no more than its rule, and a
    revocation restores what was there; what a dead daemon granted can only be taken away.
  \<^item> Replaced binaries (\<open>Supersede_Facts\<close>, \<open>Prune_Facts\<close>): a mark outlives every row of its inode, a
    replacement is admitted only with evidence of who made it, and repeated prunes drop every freed
    inode in the end; a second lift may delete adopted rows, and a failed demotion is not tried again.
  \<^item> Ledger (\<open>Ledger_Facts\<close>): the tables implement an abstract machine of verdicts.
  \<^item> Kernel (\<open>Gate_Facts\<close>, \<open>Gate_Walk\<close>, \<open>Exec_Order\<close>, \<open>Taint_Flow\<close>): the decision is exactly the rows; a binary
    an edit removes is denied; a file is guarded exactly below the root; an image executed after its
    file was deleted has no rights, over all interleavings; guarded content is shown only to binaries the
    tree admits, except by processes that lost their taint to a failed write or to a reused process id.

  \<^bold>\<open>Bounds.\<close> Nothing is cut off that the program does not cut off itself: the recursions are structural
  or have a termination proof, and the bounded walks of the BPF programs keep their bounds (32 steps to a
  root, 16 ancestors), which is why \<open>guarded_iff_below_root\<close> is about paths of at most 18 components. The
  order of executions is shown for fewer than \<open>2 ^ 64\<close> steps, where the kernel's counter does not wrap.

  \<^bold>\<open>Not modelled.\<close> Operations run one after the other. The daemon's run under its locks, so their order is
  one of the sequences considered; waits for a hash in progress are left out. BPF programs are taken as atomic:
  two of them that interleave inside one hook, as between the lookup and the \<open>BPF_NOEXIST\<close> update of
  \<open>exe_note_supersede\<close>, are not covered. Loading, attaching and pinning BPF programs, ring-buffer readers,
  tickers, goroutines and log output are left out. The trust, monitor and network BPF programs with their planning, the
  vaults (\<open>fscrypt\<close>), the installer, the editor, the recorder and the user interfaces are outside the
  development; of the trust guard only the rows are modelled that the file guard itself reads and writes.
\<close>

end
